(* ===== verification/Retry.thy ===== *)
theory Retry
  imports Prelude
begin

text \<open>
  Retry timing of the host's HTTP integrations: \<^verbatim>\<open>crates/baml-rt-core/src/backoff.rs\<close>
  (exponential backoff, stateless and stateful) and
  \<^verbatim>\<open>crates/baml-rt-core/src/retry_after.rs\<close> (parsing of the \<^verbatim>\<open>Retry-After\<close> header).
  A \<^verbatim>\<open>Duration\<close> is a number of nanoseconds up to \<open>duration_max\<close>; attempt counters are
  32-bit words, whose saturating increment is written out.
\<close>

subsection \<open>Durations\<close>

type_synonym duration = nat

definition duration_max :: duration where
  "duration_max = 2 ^ 64 * 10 ^ 9 - 1"

definition from_millis :: "nat \<Rightarrow> duration" where
  "from_millis ms = ms * 10 ^ 6"

definition from_secs :: "nat \<Rightarrow> duration" where
  "from_secs s = s * 10 ^ 9"

text \<open>\<^verbatim>\<open>Duration::saturating_mul\<close>.\<close>

definition saturating_mul :: "duration \<Rightarrow> nat \<Rightarrow> duration" where
  "saturating_mul d k = min (d * k) duration_max"

subsection \<open>Exponential backoff\<close>

definition RATE_LIMIT_BASE_DELAY :: duration where
  "RATE_LIMIT_BASE_DELAY = from_millis 500"

definition RATE_LIMIT_MAX_DELAY :: duration where
  "RATE_LIMIT_MAX_DELAY = from_secs 5"

definition backoff_delay :: "duration \<Rightarrow> duration \<Rightarrow> 32 word \<Rightarrow> duration" where
  "backoff_delay base mx attempt =
     (let shift = min (unat attempt) 16;
          delay = saturating_mul base (2 ^ shift)
      in min delay mx)"

definition rate_limit_backoff_delay :: "32 word \<Rightarrow> duration" where
  "rate_limit_backoff_delay attempt =
     backoff_delay RATE_LIMIT_BASE_DELAY RATE_LIMIT_MAX_DELAY attempt"

record exponential_backoff =
  eb_base :: duration
  eb_max :: duration
  eb_attempts :: "32 word"

definition eb_new :: "duration \<Rightarrow> duration \<Rightarrow> exponential_backoff" where
  "eb_new base mx = \<lparr>eb_base = base, eb_max = mx, eb_attempts = 0\<rparr>"

definition eb_reset :: "exponential_backoff \<Rightarrow> exponential_backoff" where
  "eb_reset b = b\<lparr>eb_attempts := 0\<rparr>"

definition saturating_inc :: "32 word \<Rightarrow> 32 word" where
  "saturating_inc w = (if unat w + 1 < 2 ^ 32 then w + 1 else w)"

definition next_delay :: "exponential_backoff \<Rightarrow> duration \<times> exponential_backoff" where
  "next_delay b =
     (backoff_delay (eb_base b) (eb_max b) (eb_attempts b),
      b\<lparr>eb_attempts := saturating_inc (eb_attempts b)\<rparr>)"

text \<open>The delays of a run of failures: \<open>k\<close> successive calls of \<open>next_delay\<close>.\<close>

fun delays :: "nat \<Rightarrow> exponential_backoff \<Rightarrow> duration list" where
  "delays 0 b = []"
| "delays (Suc k) b = (let (d, b') = next_delay b in d # delays k b')"

subsection \<open>The Retry-After header\<close>

text \<open>
  Header bytes are numbers below 256.  \<open>utf8_decode\<close> is \<^verbatim>\<open>std::str::from_utf8\<close>: the
  code points of well-formed UTF-8, nothing otherwise.  \<open>is_whitespace\<close> is Unicode's
  White\_Space property, which \<^verbatim>\<open>str::trim\<close> uses.
\<close>

type_synonym bytes = "nat list"
type_synonym utext = "nat list"

definition is_cont :: "nat \<Rightarrow> bool" where
  "is_cont b \<longleftrightarrow> 128 \<le> b \<and> b \<le> 191"

fun utf8_decode :: "bytes \<Rightarrow> utext option" where
  "utf8_decode [] = Some []"
| "utf8_decode (b0 # bs) =
     (if b0 < 128 then map_option ((#) b0) (utf8_decode bs)
      else if 194 \<le> b0 \<and> b0 \<le> 223 then
        (case bs of
           b1 # r \<Rightarrow>
             if is_cont b1 then map_option ((#) ((b0 - 192) * 64 + (b1 - 128))) (utf8_decode r)
             else None
         | _ \<Rightarrow> None)
      else if 224 \<le> b0 \<and> b0 \<le> 239 then
        (case bs of
           b1 # b2 # r \<Rightarrow>
             if is_cont b1 \<and> is_cont b2 \<and> (b0 = 224 \<longrightarrow> 160 \<le> b1) \<and> (b0 = 237 \<longrightarrow> b1 \<le> 159)
             then map_option ((#) ((b0 - 224) * 4096 + (b1 - 128) * 64 + (b2 - 128))) (utf8_decode r)
             else None
         | _ \<Rightarrow> None)
      else if 240 \<le> b0 \<and> b0 \<le> 244 then
        (case bs of
           b1 # b2 # b3 # r \<Rightarrow>
             if is_cont b1 \<and> is_cont b2 \<and> is_cont b3 \<and> (b0 = 240 \<longrightarrow> 144 \<le> b1)
                \<and> (b0 = 244 \<longrightarrow> b1 \<le> 143)
             then map_option ((#) ((b0 - 240) * 262144 + (b1 - 128) * 4096 + (b2 - 128) * 64
                                     + (b3 - 128))) (utf8_decode r)
             else None
         | _ \<Rightarrow> None)
      else None)"

definition is_whitespace :: "nat \<Rightarrow> bool" where
  "is_whitespace c \<longleftrightarrow> (9 \<le> c \<and> c \<le> 13) \<or> c = 32 \<or> c = 133 \<or> c = 160 \<or> c = 5760
     \<or> (8192 \<le> c \<and> c \<le> 8202) \<or> c = 8232 \<or> c = 8233 \<or> c = 8239 \<or> c = 8287 \<or> c = 12288"

definition trim_text :: "utext \<Rightarrow> utext" where
  "trim_text t = rev (dropWhile is_whitespace (rev (dropWhile is_whitespace t)))"

fun parse_dec :: "nat \<Rightarrow> utext \<Rightarrow> nat option" where
  "parse_dec acc [] = Some acc"
| "parse_dec acc (c # cs) =
     (if 48 \<le> c \<and> c \<le> 57 then parse_dec (acc * 10 + (c - 48)) cs else None)"

definition parse_u64 :: "utext \<Rightarrow> nat option" where
  "parse_u64 t =
     (let ds = (case t of [] \<Rightarrow> [] | c # cs \<Rightarrow> if c = 43 then cs else t)
      in if ds = [] then None
         else (case parse_dec 0 ds of None \<Rightarrow> None
               | Some n \<Rightarrow> if n < 2 ^ 64 then Some n else None))"

definition text_of :: "string \<Rightarrow> utext" where
  "text_of s = map code s"

datatype retry_after = Seconds nat | Unknown utext | Missing

definition as_duration :: "retry_after \<Rightarrow> duration option" where
  "as_duration r = (case r of Seconds s \<Rightarrow> Some (from_secs s) | Unknown _ \<Rightarrow> None | Missing \<Rightarrow> None)"

definition display_retry_after :: "retry_after \<Rightarrow> utext" where
  "display_retry_after r =
     (case r of
        Seconds s \<Rightarrow> text_of (show_nat s @ ''s'')
      | Unknown raw \<Rightarrow> text_of ''unknown('' @ raw @ text_of '')''
      | Missing \<Rightarrow> text_of ''missing'')"

definition parse_retry_after :: "bytes option \<Rightarrow> retry_after" where
  "parse_retry_after value =
     (case value of
        None \<Rightarrow> Missing
      | Some bs \<Rightarrow>
          (case utf8_decode bs of
             None \<Rightarrow> Unknown (text_of ''invalid-utf8'')
           | Some raw \<Rightarrow>
               (case parse_u64 (trim_text raw) of
                  Some s \<Rightarrow> Seconds s
                | None \<Rightarrow> Unknown raw)))"

subsection \<open>Facts about the schedule\<close>

lemma saturating_mul_mono: "a \<le> b \<Longrightarrow> saturating_mul d a \<le> saturating_mul d b"
  unfolding saturating_mul_def by (intro min.mono mult_le_mono2) simp_all

lemma saturating_mul_le_max: "saturating_mul d k \<le> duration_max"
  by (simp add: saturating_mul_def)

lemma saturating_mul_one: "d \<le> duration_max \<Longrightarrow> saturating_mul d 1 = d"
  by (simp add: saturating_mul_def)

lemma backoff_delay_le_max: "backoff_delay base mx a \<le> mx"
  by (simp add: backoff_delay_def)

lemma backoff_delay_mono:
  assumes "unat a \<le> unat b"
  shows "backoff_delay base mx a \<le> backoff_delay base mx b"
proof -
  have "(2::nat) ^ min (unat a) 16 \<le> 2 ^ min (unat b) 16"
    using assms by (intro power_increasing) auto
  then have "saturating_mul base (2 ^ min (unat a) 16) \<le> saturating_mul base (2 ^ min (unat b) 16)"
    by (rule saturating_mul_mono)
  then show ?thesis by (auto simp: backoff_delay_def Let_def)
qed

lemma unat_saturating_inc: "unat (saturating_inc w) = min (unat w + 1) (2 ^ 32 - 1)"
proof (cases "unat w + 1 < 2 ^ 32")
  case True
  then have "unat (w + 1) = unat w + 1"
    by (simp add: unat_word_ariths)
  with True show ?thesis by (simp add: saturating_inc_def)
next
  case False
  moreover have "unat w < 2 ^ 32"
    using unsigned_less [of w] by simp
  ultimately show ?thesis by (simp add: saturating_inc_def)
qed

lemma length_delays [simp]: "length (delays k b) = k"
  by (induction k arbitrary: b) (auto simp: next_delay_def)

lemma delays_nth:
  "i < k \<Longrightarrow> unat (eb_attempts b) + i < 2 ^ 32 \<Longrightarrow>
     delays k b ! i = backoff_delay (eb_base b) (eb_max b) (eb_attempts b + of_nat i)"
proof (induction k arbitrary: b i)
  case 0
  then show ?case by simp
next
  case (Suc k)
  show ?case
  proof (cases i)
    case 0
    then show ?thesis by (simp add: next_delay_def)
  next
    case (Suc j)
    let ?b = "snd (next_delay b)"
    have "unat (eb_attempts b) + 1 < 2 ^ 32"
      using Suc.prems \<open>i = Suc j\<close> by simp
    then have att: "eb_attempts ?b = eb_attempts b + 1"
      by (simp add: next_delay_def saturating_inc_def)
    have "unat (eb_attempts ?b) + j < 2 ^ 32"
      using Suc.prems \<open>i = Suc j\<close> unat_saturating_inc [of "eb_attempts b"]
      by (simp add: next_delay_def)
    with Suc.IH [of j ?b] Suc.prems \<open>i = Suc j\<close>
    have "delays k ?b ! j = backoff_delay (eb_base b) (eb_max b) (eb_attempts ?b + of_nat j)"
      by (simp add: next_delay_def)
    with \<open>i = Suc j\<close> att show ?thesis
      by (simp add: next_delay_def add.assoc)
  qed
qed

lemma delays_ge_current:
  "d \<in> set (delays k b) \<Longrightarrow> backoff_delay (eb_base b) (eb_max b) (eb_attempts b) \<le> d"
proof (induction k arbitrary: b)
  case 0
  then show ?case by simp
next
  case (Suc k)
  let ?b = "snd (next_delay b)"
  have "backoff_delay (eb_base b) (eb_max b) (eb_attempts b)
      \<le> backoff_delay (eb_base b) (eb_max b) (eb_attempts ?b)"
  proof (rule backoff_delay_mono)
    have "unat (eb_attempts b) < 2 ^ 32"
      using unsigned_less [of "eb_attempts b"] by simp
    then show "unat (eb_attempts b) \<le> unat (eb_attempts ?b)"
      by (simp add: next_delay_def unat_saturating_inc)
  qed
  moreover have "eb_base ?b = eb_base b" "eb_max ?b = eb_max b"
    by (simp_all add: next_delay_def)
  ultimately show ?case
    using Suc.prems Suc.IH [of ?b] by (auto simp: next_delay_def)
qed

lemma sorted_delays: "sorted (delays k b)"
proof (induction k arbitrary: b)
  case 0
  then show ?case by simp
next
  case (Suc k)
  have step: "delays (Suc k) b = fst (next_delay b) # delays k (snd (next_delay b))"
    by (simp add: case_prod_beta)
  have "fst (next_delay b) \<le> d" if "d \<in> set (delays k (snd (next_delay b)))" for d
    using delays_ge_current [of d "Suc k" b] that unfolding step by (simp add: next_delay_def)
  with Suc.IH [of "snd (next_delay b)"] show ?case unfolding step by simp
qed

lemma delays_le_max: "list_all (\<lambda>d. d \<le> eb_max b) (delays k b)"
proof (induction k arbitrary: b)
  case 0
  then show ?case by simp
next
  case (Suc k)
  from Suc [of "snd (next_delay b)"] show ?case
    by (simp add: next_delay_def backoff_delay_le_max)
qed

text \<open>
  after a reset, the i-th call of \<open>next_delay\<close> returns the base delay doubled once per
  earlier attempt (at most sixteen doublings, saturating at the largest duration), capped at the
  configured maximum.
\<close>

theorem reset_schedule:
  assumes "i < k" and "i < 2 ^ 32"
  shows "delays k (eb_reset b) ! i =
    min (min (eb_base b * 2 ^ min i 16) duration_max) (eb_max b)"
proof -
  have "unat (of_nat i :: 32 word) = i"
    using assms(2) by (simp add: unat_of_nat)
  then show ?thesis
    using delays_nth [of i k "eb_reset b"] assms
    by (simp add: eb_reset_def backoff_delay_def saturating_mul_def)
qed

theorem reset_schedule_witness:
  "delays 5 (eb_reset (eb_new (from_millis 500) (from_secs 5))) ! 4 = from_secs 5"
  using reset_schedule [of 4 5 "eb_new (from_millis 500) (from_secs 5)"]
  by (simp add: eb_new_def from_millis_def from_secs_def duration_max_def)

text \<open>
  the delays of any run of failures never decrease and never exceed the configured maximum,
  from whatever attempt count the run starts, including past the saturation of the counter.
\<close>

theorem delays_monotone_capped:
  "sorted (delays k b) \<and> list_all (\<lambda>d. d \<le> eb_max b) (delays k b)"
  by (simp add: sorted_delays delays_le_max)

text \<open>
  The doubling stops after sixteen attempts even where the cap is not reached, so for a small
  base the delay stays below both the cap and the value \<^verbatim>\<open>base * 2^attempt\<close> that the
  documentation of \<^verbatim>\<open>backoff_delay\<close> gives.
\<close>

theorem backoff_delay_plateau:
  "backoff_delay (from_millis 1) (from_secs 3600) 30 = from_millis 65536
   \<and> from_millis 65536 < min (from_millis 1 * 2 ^ 30) (from_secs 3600)"
  by (simp add: backoff_delay_def saturating_mul_def from_millis_def from_secs_def duration_max_def)

subsection \<open>Retry-After\<close>

lemma utf8_decode_ascii: "list_all (\<lambda>b. b < 128) bs \<Longrightarrow> utf8_decode bs = Some bs"
  by (induction bs) auto

lemma parse_dec_text_of: "parse_dec acc (text_of s) = parse_digits acc s"
  by (induction s arbitrary: acc) (auto simp: text_of_def is_ascii_digit_def)

lemma text_of_show_nat_digits: "c \<in> set (text_of (show_nat n)) \<Longrightarrow> 48 \<le> c \<and> c \<le> 57"
  using show_nat_digits [of n] by (auto simp: text_of_def is_ascii_digit_def)

lemma parse_u64_show_nat: "n < 2 ^ 64 \<Longrightarrow> parse_u64 (text_of (show_nat n)) = Some n"
proof -
  assume n: "n < 2 ^ 64"
  obtain c cs where t: "text_of (show_nat n) = c # cs"
    by (cases "text_of (show_nat n)") (auto simp: text_of_def)
  then have "c \<noteq> 43"
    using text_of_show_nat_digits [of c n] by auto
  with n t show ?thesis
    using parse_dec_text_of [of 0 "show_nat n"] parse_show_nat [of n]
    by (simp add: parse_u64_def)
qed

lemma trim_text_padded:
  assumes "list_all is_whitespace l" and "list_all is_whitespace r"
    and "\<forall>c \<in> set m. \<not> is_whitespace c"
  shows "trim_text (l @ m @ r) = m"
proof (cases m)
  case Nil
  have drop_all: "dropWhile is_whitespace (l @ m @ r) = []"
    unfolding dropWhile_eq_Nil_conv using assms Nil by (auto simp: list_all_iff)
  show ?thesis unfolding trim_text_def drop_all using Nil by simp
next
  case (Cons c cs)
  then have "dropWhile is_whitespace (l @ m @ r) = m @ r"
    using assms by (simp add: list_all_iff dropWhile_append2)
  moreover have "dropWhile is_whitespace (rev r @ rev m) = rev m"
  proof -
    have "hd (rev m) \<in> set m" using Cons by (metis hd_in_set list.distinct(1) rev_is_Nil_conv set_rev)
    then have "\<not> is_whitespace (hd (rev m))" using assms by blast
    then have "dropWhile is_whitespace (rev m) = rev m"
      by (cases "rev m") auto
    then show ?thesis
      using assms(2) by (subst dropWhile_append2) (auto simp: list_all_iff)
  qed
  ultimately show ?thesis by (simp add: trim_text_def)
qed

lemma digits_not_whitespace: "c \<in> set (text_of (show_nat n)) \<Longrightarrow> \<not> is_whitespace c"
  using text_of_show_nat_digits [of c n] by (auto simp: is_whitespace_def)

lemma parse_u64_bound: "parse_u64 t = Some n \<Longrightarrow> n < 2 ^ 64"
  by (auto simp: parse_u64_def Let_def split: if_splits option.splits list.splits)

text \<open>
  a delay in seconds survives the header: the decimal form of any 64-bit number, padded with
  any ASCII whitespace on both sides, parses back to exactly that number of seconds.
\<close>

theorem parse_retry_after_seconds:
  assumes "n < 2 ^ 64"
    and "list_all (\<lambda>b. is_whitespace b \<and> b < 128) l" and "list_all (\<lambda>b. is_whitespace b \<and> b < 128) r"
  shows "as_duration (parse_retry_after (Some (l @ text_of (show_nat n) @ r))) = Some (from_secs n)"
proof -
  have "list_all (\<lambda>b. b < 128) (l @ text_of (show_nat n) @ r)"
    using assms(2,3) text_of_show_nat_digits [of _ n] by (fastforce simp: list_all_iff)
  then have "utf8_decode (l @ text_of (show_nat n) @ r) = Some (l @ text_of (show_nat n) @ r)"
    by (rule utf8_decode_ascii)
  moreover have "trim_text (l @ text_of (show_nat n) @ r) = text_of (show_nat n)"
    using assms(2,3) digits_not_whitespace by (intro trim_text_padded) (auto simp: list_all_iff)
  ultimately show ?thesis
    using parse_u64_show_nat [OF assms(1)] by (simp add: parse_retry_after_def as_duration_def)
qed

theorem parse_retry_after_seconds_witness:
  "as_duration (parse_retry_after (Some ([32, 9] @ text_of (show_nat 42) @ [32]))) = Some (from_secs 42)"
  using parse_retry_after_seconds [of 42 "[32, 9]" "[32]"] by (simp add: is_whitespace_def)

end
