(* ===== verification/Core_Errors.thy ===== *)
theory Core_Errors
  imports Prelude
begin

text \<open>
  The error taxonomy of the runtime: \<^verbatim>\<open>crates/baml-rt-core/src/error.rs\<close>,
  \<^verbatim>\<open>semantics.rs\<close>, \<^verbatim>\<open>step_executor_outcome.rs\<close>, and the session-side classification
  of \<^verbatim>\<open>crates/baml-rt-tools/src/tool_error_classify.rs\<close>.  An error that carries a boxed
  source keeps the display text of that source.  The theorems show that classification is
  decided once: it is stable under wrapping, and the retry hint given to clients is the one
  derived from the disposition.
\<close>

subsection \<open>Dispositions and retry hints\<close>

datatype error_disposition = HostRetriable | LlmCorrectable | InformAndContinue | Fatal

datatype retryability = Retryable | Permanent

definition is_retryable :: "retryability \<Rightarrow> bool" where
  "is_retryable r = (case r of Retryable \<Rightarrow> True | Permanent \<Rightarrow> False)"

definition retryability_from_bool :: "bool \<Rightarrow> retryability" where
  "retryability_from_bool b = (if b then Retryable else Permanent)"

subsection \<open>Plan violations\<close>

definition MAX_STEP_PLAN_FIX_STEPS :: nat where
  "MAX_STEP_PLAN_FIX_STEPS = 4"

datatype step_plan_violation_code =
    MissingArchiveRefPageRead | MissingArchiveRefSearchRead | MissingSearchReadGrep
  | InvalidSearchReadGrep | PageReadGrepForbidden | LegacyReadOpRemoved
  | ToolSessionStepMissingOp | ToolSessionPlanStepNotObject | SendMissingInput | SendInputNull
  | UnknownToolSessionOp | InvalidPlanInputJson

fun violation_code_str :: "step_plan_violation_code \<Rightarrow> string" where
  "violation_code_str MissingArchiveRefPageRead = ''missing_archive_ref_page_read''"
| "violation_code_str MissingArchiveRefSearchRead = ''missing_archive_ref_search_read''"
| "violation_code_str MissingSearchReadGrep = ''missing_search_read_grep''"
| "violation_code_str InvalidSearchReadGrep = ''invalid_search_read_grep''"
| "violation_code_str PageReadGrepForbidden = ''page_read_grep_forbidden''"
| "violation_code_str LegacyReadOpRemoved = ''legacy_read_op_removed''"
| "violation_code_str ToolSessionStepMissingOp = ''tool_session_step_missing_op''"
| "violation_code_str ToolSessionPlanStepNotObject = ''tool_session_plan_step_not_object''"
| "violation_code_str SendMissingInput = ''send_missing_input''"
| "violation_code_str SendInputNull = ''send_input_null''"
| "violation_code_str UnknownToolSessionOp = ''unknown_tool_session_op''"
| "violation_code_str InvalidPlanInputJson = ''invalid_plan_input_json''"

record step_plan_recovery =
  spr_code :: step_plan_violation_code
  spr_disposition :: error_disposition
  spr_mistake :: string
  spr_invariant :: string
  spr_fix_steps :: "string list"

definition spr_new ::
  "step_plan_violation_code \<Rightarrow> string \<Rightarrow> string \<Rightarrow> string list \<Rightarrow> step_plan_recovery" where
  "spr_new c mistake invariant steps =
     \<lparr>spr_code = c, spr_disposition = LlmCorrectable, spr_mistake = mistake, spr_invariant = invariant,
      spr_fix_steps = (if length steps > MAX_STEP_PLAN_FIX_STEPS
                       then take MAX_STEP_PLAN_FIX_STEPS steps else steps)\<rparr>"

definition missing_archive_ref_page_read :: "step_plan_recovery" where
  \<open>missing_archive_ref_page_read =
     spr_new MissingArchiveRefPageRead
       ''PageRead was emitted without a visible archive reference (@N).''
       ''PageRead.input.archive_ref is required and must be a short ref like "@1" from a prior Send in this turn.''
       [''Locate the @N header from the last successful Send in conversation history.'',
        ''Re-emit PageRead with input.archive_ref set to that @N.'']\<close>

definition missing_archive_ref_search_read :: "step_plan_recovery" where
  \<open>missing_archive_ref_search_read =
     spr_new MissingArchiveRefSearchRead
       ''SearchRead was emitted without a visible archive reference (@N).''
       ''SearchRead.input.archive_ref is required and must be a short ref like "@1" from a prior Send in this turn.''
       [''Locate the @N header from the last successful Send in conversation history.'',
        ''Re-emit SearchRead with input.archive_ref set to that @N and a non-empty grep pattern.'']\<close>

definition missing_search_read_grep :: "step_plan_recovery" where
  \<open>missing_search_read_grep =
     spr_new MissingSearchReadGrep
       ''SearchRead was emitted without a line-filter pattern.''
       (''SearchRead.input.grep is required (non-empty) '' @ em_dash @ '' use PageRead when you need full page text without filtering.'')
       [''Provide a non-empty grep string matching lines to return.'']\<close>

definition invalid_search_read_grep :: "string \<Rightarrow> string \<Rightarrow> step_plan_recovery" where
  \<open>invalid_search_read_grep pattern detail =
     spr_new InvalidSearchReadGrep
       (''SearchRead grep pattern is invalid ('' @ debug_str pattern @ ''): '' @ detail)
       ''SearchRead.input.grep must be a valid line filter accepted by the host.''
       [''Fix the grep pattern syntax and retry.'']\<close>

definition page_read_grep_forbidden :: "step_plan_recovery" where
  \<open>page_read_grep_forbidden =
     spr_new PageReadGrepForbidden
       ''PageRead included a grep field; PageRead is for full slices only.''
       (''PageRead must not set input.grep '' @ em_dash @ '' use SearchRead for line filtering.'')
       [''Remove grep from PageRead, or switch the op to SearchRead with grep + archive_ref.'']\<close>

definition legacy_read_op_removed :: "step_plan_recovery" where
  \<open>legacy_read_op_removed =
     spr_new LegacyReadOpRemoved
       ''Legacy op "Read" is not supported.''
       ''Emit SearchRead (requires grep) or PageRead (no grep) for archive access.''
       [''Replace Read with SearchRead or PageRead following the archive-read contract.'']\<close>

definition tool_session_step_missing_op :: "step_plan_recovery" where
  \<open>tool_session_step_missing_op =
     spr_new ToolSessionStepMissingOp
       ''A tool session plan step was emitted without an `op` field.''
       ''Every session-plan step must include op: Open | Send | SearchRead | PageRead | Finish | Abort.''
       [''Emit a valid op string for this hop.'']\<close>

definition tool_session_plan_step_not_object :: "step_plan_recovery" where
  \<open>tool_session_plan_step_not_object =
     spr_new ToolSessionPlanStepNotObject
       ''ToolSessionPlan.step was not a JSON object.''
       ''ToolSessionPlan.step must be an object describing one session-plan hop.''
       [''Emit step as an object with op and required fields.'']\<close>

definition send_missing_input :: "step_plan_recovery" where
  \<open>send_missing_input =
     spr_new SendMissingInput
       ''Send step was emitted without the required input object.''
       ''Send requires a non-null `input` object for the host tool session.''
       [''Provide Send.input as a non-empty object.'']\<close>

definition send_input_null :: "step_plan_recovery" where
  \<open>send_input_null =
     spr_new SendInputNull
       ''Send step input was null.''
       (''Send.input must not be null '' @ em_dash @ '' provide a non-empty object.'')
       [''Populate Send.input before emitting Send.'']\<close>

definition unknown_tool_session_op :: "string \<Rightarrow> step_plan_recovery" where
  \<open>unknown_tool_session_op session_op =
     spr_new UnknownToolSessionOp
       (''Unknown tool session op '' @ debug_str session_op @ ''.'')
       ''op must be one of the supported session-plan operations for this host.''
       [''Emit a supported op for the current FSM phase.'']\<close>

definition invalid_plan_input_json :: "string \<Rightarrow> step_plan_recovery" where
  \<open>invalid_plan_input_json detail =
     spr_new InvalidPlanInputJson
       (''Plan input JSON could not be parsed: '' @ detail)
       ''Plan inputs that are strings must contain valid JSON when parsed.''
       [''Fix the JSON syntax in the plan input.'']\<close>

subsection \<open>The runtime error type\<close>

record classified_tool_error =
  cte_code :: string
  cte_disposition :: error_disposition
  cte_message :: string
  cte_hint :: "string option"
  cte_retry_after_ms :: "nat option"

datatype session_lifecycle_error =
    ToolSessionNotFound string
  | ToolSessionClosed string
  | StreamSessionNotFound nat
  | StreamSessionClosed nat
  | InvocationContextMissing
  | InvocationCancelled

datatype heartbeat_error_kind = Connection | Query | NotAllowed | Other

datatype baml_error =
    BamlRuntime string
  | ProvenanceContextRead string
  | QuickJs string
  | QuickJsWithSource string string
  | TypeConversion string
  | FunctionNotFound string
  | AgentNotFound string
  | AgentDraining string
  | InvalidArgument string
  | StepPlanCorrectable step_plan_recovery
  | Conflict string
  | InvalidArgumentWithSource string string
  | Io string
  | Json string
  | JsonWithRaw string nat string
  | InvalidOpenInput string
  | ToolExecution string
  | GateAuthorizationRequired string
  | ToolClassified classified_tool_error
  | ToolRegistration string
  | SchemaLoading string
  | Configuration string
  | Initialization string
  | SessionLifecycle session_lifecycle_error
  | ExecutionFailed string
  | ParsedResultFailed string
  | RequestBuildFailed string
  | ClientRegistryBuild string
  | RuntimeLoadFailed string
  | FunctionStreamCreation string
  | ClusterHeartbeat heartbeat_error_kind string

type_synonym 'a res = "(baml_error, 'a) result"

fun session_lifecycle_code :: "session_lifecycle_error \<Rightarrow> string" where
  "session_lifecycle_code (ToolSessionNotFound _) = ''tool_session_not_found''"
| "session_lifecycle_code (ToolSessionClosed _) = ''tool_session_closed''"
| "session_lifecycle_code (StreamSessionNotFound _) = ''stream_session_not_found''"
| "session_lifecycle_code (StreamSessionClosed _) = ''stream_session_closed''"
| "session_lifecycle_code InvocationContextMissing = ''invocation_context_missing''"
| "session_lifecycle_code InvocationCancelled = ''invocation_cancelled''"

fun heartbeat_code :: "heartbeat_error_kind \<Rightarrow> string" where
  "heartbeat_code Connection = ''connection''"
| "heartbeat_code Query = ''query''"
| "heartbeat_code NotAllowed = ''not_allowed''"
| "heartbeat_code Other = ''other''"

fun display_lifecycle :: "session_lifecycle_error \<Rightarrow> string" where
  "display_lifecycle (ToolSessionNotFound s) = ''Tool session not found: '' @ s"
| "display_lifecycle (ToolSessionClosed s) = ''Tool session closed: '' @ s"
| "display_lifecycle (StreamSessionNotFound n) = ''Stream session not found: '' @ show_nat n"
| "display_lifecycle (StreamSessionClosed n) = ''Stream session closed: '' @ show_nat n"
| "display_lifecycle InvocationContextMissing = ''Invocation context missing''"
| "display_lifecycle InvocationCancelled = ''Invocation cancelled''"

fun display_error :: "baml_error \<Rightarrow> string" where
  "display_error (BamlRuntime s) = ''BAML runtime error: '' @ s"
| "display_error (ProvenanceContextRead _) = ''Failed to read provenance context''"
| "display_error (QuickJs s) = ''QuickJS error: '' @ s"
| "display_error (QuickJsWithSource c _) = ''QuickJS error: '' @ c"
| "display_error (TypeConversion s) = ''Type conversion error: '' @ s"
| "display_error (FunctionNotFound s) = ''Function not found: '' @ s"
| "display_error (AgentNotFound s) = ''Agent not found: '' @ s"
| "display_error (AgentDraining s) = ''Agent draining: '' @ s"
| "display_error (InvalidArgument s) = ''Invalid argument: '' @ s"
| "display_error (StepPlanCorrectable r) = spr_mistake r"
| "display_error (Conflict s) = ''Conflict: '' @ s"
| "display_error (InvalidArgumentWithSource m _) = m"
| "display_error (Io s) = ''IO error: '' @ s"
| "display_error (Json s) = ''JSON error: '' @ s"
| "display_error (JsonWithRaw s n p) =
     ''JSON error: '' @ s @ '' (raw length: '' @ show_nat n @ '', prefix: '' @ debug_str p @ '')''"
| "display_error (InvalidOpenInput _) = ''Invalid open_input for tool session''"
| "display_error (ToolExecution s) = ''Tool execution error: '' @ s"
| "display_error (GateAuthorizationRequired p) = ''Gate authorization required: '' @ p"
| "display_error (ToolClassified c) = cte_message c"
| "display_error (ToolRegistration s) = ''Tool registration error: '' @ s"
| "display_error (SchemaLoading s) = ''Schema loading error: '' @ s"
| "display_error (Configuration s) = ''Runtime configuration error: '' @ s"
| "display_error (Initialization s) = ''Runtime initialization error: '' @ s"
| "display_error (SessionLifecycle e) = ''Session lifecycle error: '' @ display_lifecycle e"
| "display_error (ExecutionFailed s) = ''Function execution failed: '' @ s"
| "display_error (ParsedResultFailed s) = ''Parsed result conversion failed: '' @ s"
| "display_error (RequestBuildFailed _) = ''Failed to build request''"
| "display_error (ClientRegistryBuild _) = ''Failed to build LLM client registry''"
| "display_error (RuntimeLoadFailed _) = ''Failed to load BAML runtime''"
| "display_error (FunctionStreamCreation _) = ''Failed to create stream''"
| "display_error (ClusterHeartbeat k m) =
     ''Cluster heartbeat failed ('' @ heartbeat_code k @ ''): '' @ m"

subsection \<open>Classification\<close>

definition host_retryability :: "classified_tool_error \<Rightarrow> retryability" where
  "host_retryability c = (case cte_disposition c of HostRetriable \<Rightarrow> Retryable | _ \<Rightarrow> Permanent)"

fun baml_error_disposition :: "baml_error \<Rightarrow> error_disposition" where
  "baml_error_disposition (InvalidArgument _) = LlmCorrectable"
| "baml_error_disposition (InvalidArgumentWithSource _ _) = LlmCorrectable"
| "baml_error_disposition (InvalidOpenInput _) = LlmCorrectable"
| "baml_error_disposition (Json _) = LlmCorrectable"
| "baml_error_disposition (JsonWithRaw _ _ _) = LlmCorrectable"
| "baml_error_disposition (FunctionNotFound _) = LlmCorrectable"
| "baml_error_disposition (TypeConversion _) = LlmCorrectable"
| "baml_error_disposition (StepPlanCorrectable r) = spr_disposition r"
| "baml_error_disposition (AgentNotFound _) = InformAndContinue"
| "baml_error_disposition (AgentDraining _) = HostRetriable"
| "baml_error_disposition (Conflict _) = HostRetriable"
| "baml_error_disposition (SessionLifecycle (ToolSessionNotFound _)) = InformAndContinue"
| "baml_error_disposition (SessionLifecycle (ToolSessionClosed _)) = InformAndContinue"
| "baml_error_disposition (SessionLifecycle (StreamSessionNotFound _)) = InformAndContinue"
| "baml_error_disposition (SessionLifecycle (StreamSessionClosed _)) = InformAndContinue"
| "baml_error_disposition (SessionLifecycle InvocationContextMissing) = InformAndContinue"
| "baml_error_disposition (SessionLifecycle InvocationCancelled) = HostRetriable"
| "baml_error_disposition (ToolClassified c) = cte_disposition c"
| "baml_error_disposition (GateAuthorizationRequired _) = InformAndContinue"
| "baml_error_disposition (ToolExecution _) = InformAndContinue"
| "baml_error_disposition (ExecutionFailed _) = InformAndContinue"
| "baml_error_disposition (ParsedResultFailed _) = InformAndContinue"
| "baml_error_disposition (Io _) = HostRetriable"
| "baml_error_disposition (QuickJs _) = HostRetriable"
| "baml_error_disposition (QuickJsWithSource _ _) = HostRetriable"
| "baml_error_disposition (ProvenanceContextRead _) = HostRetriable"
| "baml_error_disposition (ClusterHeartbeat _ _) = HostRetriable"
| "baml_error_disposition (RequestBuildFailed _) = LlmCorrectable"
| "baml_error_disposition (ClientRegistryBuild _) = Fatal"
| "baml_error_disposition (RuntimeLoadFailed _) = Fatal"
| "baml_error_disposition (FunctionStreamCreation _) = Fatal"
| "baml_error_disposition (BamlRuntime _) = Fatal"
| "baml_error_disposition (Initialization _) = Fatal"
| "baml_error_disposition (Configuration _) = Fatal"
| "baml_error_disposition (SchemaLoading _) = Fatal"
| "baml_error_disposition (ToolRegistration _) = Fatal"

definition code_for_classified :: "baml_error \<Rightarrow> error_disposition \<Rightarrow> string" where
  "code_for_classified err disposition =
     (case err of
        InvalidArgument _ \<Rightarrow> ''invalid_argument''
      | InvalidArgumentWithSource _ _ \<Rightarrow> ''invalid_argument''
      | InvalidOpenInput _ \<Rightarrow> ''invalid_argument''
      | Json _ \<Rightarrow> ''invalid_argument''
      | JsonWithRaw _ _ _ \<Rightarrow> ''invalid_argument''
      | FunctionNotFound _ \<Rightarrow> ''invalid_argument''
      | TypeConversion _ \<Rightarrow> ''invalid_argument''
      | StepPlanCorrectable r \<Rightarrow> violation_code_str (spr_code r)
      | ToolExecution _ \<Rightarrow>
          (case disposition of HostRetriable \<Rightarrow> ''transient_tool_execution'' | _ \<Rightarrow> ''tool_execution'')
      | ExecutionFailed _ \<Rightarrow>
          (case disposition of HostRetriable \<Rightarrow> ''transient_execution'' | _ \<Rightarrow> ''execution_failed'')
      | ParsedResultFailed _ \<Rightarrow>
          (case disposition of HostRetriable \<Rightarrow> ''transient_execution'' | _ \<Rightarrow> ''execution_failed'')
      | Io _ \<Rightarrow> ''io_error''
      | QuickJs _ \<Rightarrow> ''quickjs''
      | QuickJsWithSource _ _ \<Rightarrow> ''quickjs''
      | SessionLifecycle _ \<Rightarrow> ''session_lifecycle''
      | Conflict _ \<Rightarrow> ''conflict''
      | _ \<Rightarrow> ''runtime_error'')"

definition from_baml_error :: "baml_error \<Rightarrow> classified_tool_error" where
  "from_baml_error err =
     (case err of
        ToolClassified c \<Rightarrow> c
      | _ \<Rightarrow>
          (let disposition = baml_error_disposition err
           in \<lparr>cte_code = code_for_classified err disposition, cte_disposition = disposition,
               cte_message = display_error err, cte_hint = None, cte_retry_after_ms = None\<rparr>))"

definition retryability_for_a2a :: "baml_error \<Rightarrow> retryability" where
  "retryability_for_a2a err =
     (case baml_error_disposition err of
        HostRetriable \<Rightarrow> Retryable
      | LlmCorrectable \<Rightarrow> Permanent
      | InformAndContinue \<Rightarrow> Permanent
      | Fatal \<Rightarrow> Permanent)"

type_synonym tool_execution_classifier = "baml_error \<Rightarrow> classified_tool_error"

definition should_host_retry :: "classified_tool_error \<Rightarrow> bool" where
  "should_host_retry c = (cte_disposition c = HostRetriable)"

definition should_host_retry_baml_error :: "baml_error \<Rightarrow> bool" where
  "should_host_retry_baml_error err = (baml_error_disposition err = HostRetriable)"

definition classify_for_session ::
  "tool_execution_classifier option \<Rightarrow> baml_error \<Rightarrow> classified_tool_error" where
  "classify_for_session classifier err =
     (case err of
        ToolClassified c \<Rightarrow> c
      | _ \<Rightarrow> (case classifier of Some f \<Rightarrow> f err | None \<Rightarrow> from_baml_error err))"

subsection \<open>The JSON form of a classified error\<close>

fun disposition_str :: "error_disposition \<Rightarrow> string" where
  "disposition_str HostRetriable = ''host_retriable''"
| "disposition_str LlmCorrectable = ''llm_correctable''"
| "disposition_str InformAndContinue = ''inform_and_continue''"
| "disposition_str Fatal = ''fatal''"

definition to_tool_error_json :: "classified_tool_error \<Rightarrow> json" where
  "to_tool_error_json c =
     JObject
       ([(''code'', JString (cte_code c)),
         (''disposition'', JString (disposition_str (cte_disposition c))),
         (''message'', JString (cte_message c))]
        @ (case cte_hint c of None \<Rightarrow> [] | Some h \<Rightarrow> [(''hint'', JString h)])
        @ (case cte_retry_after_ms c of None \<Rightarrow> []
           | Some ms \<Rightarrow> [(''retry_after_ms'', JNumber (show_nat ms))]))"

subsection \<open>Facts\<close>

lemma from_baml_error_disposition [simp]:
  "cte_disposition (from_baml_error err) = baml_error_disposition err"
  by (cases err) (simp_all add: from_baml_error_def Let_def)

lemma from_baml_error_message [simp]:
  "cte_message (from_baml_error err) = display_error err"
  by (cases err) (simp_all add: from_baml_error_def Let_def)

lemma classify_for_session_classified [simp]:
  "classify_for_session cl (ToolClassified c) = c"
  by (simp add: classify_for_session_def)

lemma classify_for_session_default [simp]:
  "classify_for_session None err = from_baml_error err"
  by (cases err) (simp_all add: classify_for_session_def from_baml_error_def)

lemma host_retryability_iff: "host_retryability c = Retryable \<longleftrightarrow> should_host_retry c"
  by (simp add: host_retryability_def should_host_retry_def split: error_disposition.splits)

lemma spr_new_facts [simp]:
  "spr_disposition (spr_new c m i steps) = LlmCorrectable"
  "length (spr_fix_steps (spr_new c m i steps)) \<le> MAX_STEP_PLAN_FIX_STEPS"
  "spr_code (spr_new c m i steps) = c"
  by (simp_all add: spr_new_def)

text \<open>
  classification happens once.  Whatever classifier a session has, wrapping its verdict back
  into an error and classifying that again, with any other classifier, gives the same verdict,
  and the retry hint shown to A2A clients for the wrapped error is the verdict's own.
\<close>

theorem classification_stable:
  "let c = classify_for_session cl err in
     classify_for_session cl' (ToolClassified c) = c
     \<and> from_baml_error (ToolClassified c) = c
     \<and> retryability_for_a2a (ToolClassified c) = host_retryability c
     \<and> display_error (ToolClassified c) = cte_message c"
  by (simp add: Let_def from_baml_error_def retryability_for_a2a_def host_retryability_def
      split: error_disposition.splits)

end
