(* ===== verification/Function_Id.thy ===== *)
theory Function_Id
  imports Prelude
begin

text \<open>
  Identities of BAML functions: \<^verbatim>\<open>crates/baml-rt-core/src/function_id.rs\<close>.  A narrowed
  variant of a prompt is named by the base name and a phase suffix; \<open>fid_parse\<close> recovers both
  from the flat name, and \<open>full_name\<close> prints them again.
\<close>

datatype variant_phase =
    Entry
  | Active string
  | Select
  | Act string
  | Consume string
  | Continue string

fun phase_suffix :: "variant_phase \<Rightarrow> string" where
  "phase_suffix Entry = ''__entry''"
| "phase_suffix (Active slug) = ''__active__'' @ slug"
| "phase_suffix Select = ''__select''"
| "phase_suffix (Act slug) = ''__act__'' @ slug"
| "phase_suffix (Consume slug) = ''__consume__'' @ slug"
| "phase_suffix (Continue slug) = ''__continue__'' @ slug"

record baml_function_id =
  fid_base :: string
  fid_phase :: "variant_phase option"

definition fid_base_of :: "string \<Rightarrow> baml_function_id" where
  "fid_base_of name = \<lparr>fid_base = name, fid_phase = None\<rparr>"

definition fid_variant :: "string \<Rightarrow> variant_phase \<Rightarrow> baml_function_id" where
  "fid_variant base phase = \<lparr>fid_base = base, fid_phase = Some phase\<rparr>"

text \<open>
  The two shapes of attempt that the parser makes, in the order of the source: a fixed suffix
  with a non-empty base, and the first occurrence of a marker with a non-empty base before it and
  a non-empty slug after it.
\<close>

definition try_suffix :: "string \<Rightarrow> variant_phase \<Rightarrow> string \<Rightarrow> baml_function_id option" where
  "try_suffix suf phase raw =
     (case strip_suffix suf raw of
        Some base \<Rightarrow> if base \<noteq> [] then Some (fid_variant base phase) else None
      | None \<Rightarrow> None)"

definition try_marker ::
  "string \<Rightarrow> (string \<Rightarrow> variant_phase) \<Rightarrow> string \<Rightarrow> baml_function_id option" where
  "try_marker marker mk raw =
     (case find_sub marker raw of
        Some pos \<Rightarrow>
          (let base = take pos raw; slug = drop (pos + length marker) raw
           in if base \<noteq> [] \<and> slug \<noteq> [] then Some (fid_variant base (mk slug)) else None)
      | None \<Rightarrow> None)"

fun first_some :: "('a option) list \<Rightarrow> 'a option" where
  "first_some [] = None"
| "first_some (Some x # xs) = Some x"
| "first_some (None # xs) = first_some xs"

definition fid_parse :: "string \<Rightarrow> baml_function_id" where
  "fid_parse raw =
     (case first_some
             [try_suffix ''__entry'' Entry raw,
              try_marker ''__active__'' Active raw,
              try_suffix ''__select'' Select raw,
              try_marker ''__act__'' Act raw,
              try_marker ''__consume__'' Consume raw,
              try_marker ''__continue__'' Continue raw] of
        Some i \<Rightarrow> i
      | None \<Rightarrow> fid_base_of raw)"

definition full_name :: "baml_function_id \<Rightarrow> string" where
  "full_name i = (case fid_phase i of None \<Rightarrow> fid_base i | Some p \<Rightarrow> fid_base i @ phase_suffix p)"

definition is_variant :: "baml_function_id \<Rightarrow> bool" where
  "is_variant i = (fid_phase i \<noteq> None)"

subsection \<open>Facts\<close>

lemma full_name_simps [simp]:
  "full_name (fid_base_of n) = n"
  "full_name (fid_variant b p) = b @ phase_suffix p"
  by (simp_all add: full_name_def fid_base_of_def fid_variant_def)

lemma try_suffix_full_name:
  "try_suffix suf phase raw = Some i \<Longrightarrow> phase_suffix phase = suf \<Longrightarrow> full_name i = raw"
  by (auto simp: try_suffix_def strip_suffix_iff split: option.splits if_splits)

lemma try_marker_full_name:
  assumes "try_marker marker mk raw = Some i" and "\<And>slug. phase_suffix (mk slug) = marker @ slug"
  shows "full_name i = raw"
proof -
  obtain pos where pos: "find_sub marker raw = Some pos"
    and i: "i = fid_variant (take pos raw) (mk (drop (pos + length marker) raw))"
    using assms(1) by (auto simp: try_marker_def Let_def split: option.splits if_splits)
  obtain r where r: "raw = take pos raw @ marker @ r" and le: "pos + length marker \<le> length raw"
    using find_sub_Some [OF pos] by blast
  have "drop (pos + length marker) raw = r"
    by (subst r) (use le in simp)
  with i assms(2) r show ?thesis by simp
qed

lemma first_some_cases:
  "first_some xs = Some x \<Longrightarrow> Some x \<in> set xs"
  by (induction xs rule: first_some.induct) auto

text \<open>
  printing inverts parsing.  Every flat function name, well-formed or not, parses to an identity
  whose full name is the name it was parsed from, so storing and reloading an identity never
  changes the function it denotes.
\<close>

theorem full_name_parse: "full_name (fid_parse raw) = raw"
proof (cases "first_some
             [try_suffix ''__entry'' Entry raw,
              try_marker ''__active__'' Active raw,
              try_suffix ''__select'' Select raw,
              try_marker ''__act__'' Act raw,
              try_marker ''__consume__'' Consume raw,
              try_marker ''__continue__'' Continue raw]")
  case None
  then show ?thesis by (simp add: fid_parse_def)
next
  case (Some i)
  then have "fid_parse raw = i" by (simp add: fid_parse_def)
  moreover have "full_name i = raw"
    using first_some_cases [OF Some]
    by (auto dest!: sym [of "Some i"] dest: try_suffix_full_name try_marker_full_name)
  ultimately show ?thesis by simp
qed

subsection \<open>Parsing what the builder generates\<close>

text \<open>A prompt name with no double underscore and no trailing underscore.\<close>

definition plain_base :: "string \<Rightarrow> bool" where
  "plain_base b \<longleftrightarrow> b \<noteq> [] \<and> \<not> str_contains b ''__'' \<and> last b \<noteq> CHR ''_''"

lemma no_marker_before:
  assumes "plain_base b" and "j < length b"
  shows "\<not> prefix (CHR ''_'' # CHR ''_'' # m) (drop j (b @ CHR ''_'' # t))"
proof
  assume pre: "prefix (CHR ''_'' # CHR ''_'' # m) (drop j (b @ CHR ''_'' # t))"
  show False
  proof (cases "Suc j < length b")
    case True
    have "drop j b = b ! j # b ! Suc j # drop (Suc (Suc j)) b"
      using assms(2) True by (simp add: Cons_nth_drop_Suc)
    moreover have "drop j (b @ CHR ''_'' # t) = drop j b @ CHR ''_'' # t"
      using assms(2) by simp
    ultimately have "b ! j = CHR ''_''" "b ! Suc j = CHR ''_''"
      using pre by auto
    with \<open>drop j b = _\<close> have "b = take j b @ ''__'' @ drop (Suc (Suc j)) b"
      by (metis append_Cons append_Nil append_take_drop_id)
    then have "str_contains b ''__''"
      unfolding str_contains_iff by blast
    with assms(1) show False by (simp add: plain_base_def)
  next
    case False
    with assms(2) have j: "j = length b - 1" by simp
    have "b = butlast b @ [last b]"
      using assms(1) by (simp add: plain_base_def)
    then have "drop j b = [last b]"
      using j by (metis append_eq_conv_conj length_butlast)
    with pre assms(2) have "last b = CHR ''_''" by simp
    with assms(1) show False by (simp add: plain_base_def)
  qed
qed

lemma find_marker_plain:
  assumes "plain_base b"
  shows "find_sub (CHR ''_'' # CHR ''_'' # m) (b @ (CHR ''_'' # CHR ''_'' # m) @ slug) = Some (length b)"
  using no_marker_before [OF assms] by (intro find_sub_first) simp

lemma try_marker_plain:
  assumes "plain_base b" and "slug \<noteq> []"
  shows "try_marker (CHR ''_'' # CHR ''_'' # m) mk (b @ (CHR ''_'' # CHR ''_'' # m) @ slug)
    = Some (fid_variant b (mk slug))"
  using find_marker_plain [OF assms(1), of m slug] assms
  by (simp add: try_marker_def plain_base_def)

lemma try_suffix_entry: "b \<noteq> [] \<Longrightarrow> try_suffix suf ph (b @ suf) = Some (fid_variant b ph)"
  by (simp add: try_suffix_def)

lemma strip_suffix_None_iff: "strip_suffix p s = None \<longleftrightarrow> \<not> ends_with s p"
  by (simp add: ends_with_def)

text \<open>The phases the builder emits, with the slugs that do not disguise an entry suffix.\<close>

fun emitted_phase :: "variant_phase \<Rightarrow> bool" where
  "emitted_phase Entry = True"
| "emitted_phase (Active slug) = (slug \<noteq> [] \<and> \<not> ends_with (''__active__'' @ slug) ''__entry'')"
| "emitted_phase _ = False"

lemma ends_with_append_long:
  assumes "ends_with (a @ m) p" and "length p \<le> length m"
  shows "ends_with m p"
proof -
  have "suffix p (a @ m)" using assms(1) by (auto simp: ends_with_iff suffix_def)
  then have "suffix p m"
    using assms(2) by (rule suffix_length_suffix [OF _ suffixI [OF refl]])
  then show ?thesis by (auto simp: ends_with_iff suffix_def)
qed

text \<open>
  the flat name of an entry or active variant parses back to the same base prompt and phase,
  for prompt names without double or trailing underscores and slugs that do not end like an
  entry suffix.
\<close>

theorem parse_full_name:
  assumes "plain_base b" and "emitted_phase ph"
  shows "fid_parse (full_name (fid_variant b ph)) = fid_variant b ph"
proof (cases ph)
  case Entry
  have "b \<noteq> []" using assms(1) by (simp add: plain_base_def)
  then show ?thesis using Entry by (simp add: fid_parse_def try_suffix_entry)
next
  case (Active slug)
  then have slug: "slug \<noteq> []" and noend: "\<not> ends_with (''__active__'' @ slug) ''__entry''"
    using assms(2) by simp_all
  have "\<not> ends_with (b @ ''__active__'' @ slug) ''__entry''"
    using noend ends_with_append_long [of b "''__active__'' @ slug" "''__entry''"] by auto
  then have "try_suffix ''__entry'' Entry (b @ ''__active__'' @ slug) = None"
    by (simp add: try_suffix_def strip_suffix_None_iff [symmetric])
  then show ?thesis
    using Active try_marker_plain [OF assms(1) slug, of "''active__''" Active]
    by (simp add: fid_parse_def)
qed (use assms(2) in simp_all)

theorem parse_full_name_witness:
  "fid_parse ''GetPlan__active__support_calculate''
    = fid_variant ''GetPlan'' (Active ''support_calculate'')"
  using parse_full_name [of "''GetPlan''" "Active ''support_calculate''"]
  by (simp add: plain_base_def str_contains_def ends_with_def strip_suffix_def)

text \<open>
  the restriction on slugs is needed: the active variant of a tool whose slug ends in
  \<^verbatim>\<open>__entry\<close> parses as the entry variant of a prompt that does not exist, because the entry
  suffix is tried before the active marker.
\<close>

theorem active_slug_misparsed:
  "fid_parse (full_name (fid_variant ''GetPlan'' (Active ''support_log__entry'')))
    = fid_variant ''GetPlan__active__support_log'' Entry"
  by (simp add: fid_parse_def try_suffix_def strip_suffix_def)

end
