(* ===== verification/Tool_Names.thy ===== *)
theory Tool_Names
  imports Core_Errors Function_Id
begin

text \<open>
  Names of host tools: the name types of \<^verbatim>\<open>crates/baml-rt-tools/src/tools.rs\<close>
  (\<^verbatim>\<open>BundleName\<close>, \<^verbatim>\<open>LocalToolName\<close>, \<^verbatim>\<open>ToolName\<close>, \<^verbatim>\<open>ToolSlug\<close>,
  \<^verbatim>\<open>SessionPlanTypeName\<close>, \<^verbatim>\<open>SessionTypeNames\<close>) and the access class of a tool.  The
  theorems show that the presentation form of a name parses back to the name, that slugs are
  identifiers, and where slugs collide.
\<close>

subsection \<open>Access classes\<close>

datatype tool_access = Read | Write | Delete

definition access_all :: "tool_access list" where
  "access_all = [Read, Write, Delete]"

fun access_str :: "tool_access \<Rightarrow> string" where
  "access_str Read = ''read''"
| "access_str Write = ''write''"
| "access_str Delete = ''delete''"

subsection \<open>Components of a name\<close>

definition is_valid_bundle_identifier_component :: "string \<Rightarrow> bool" where
  "is_valid_bundle_identifier_component s =
     (case s of
        [] \<Rightarrow> False
      | c # cs \<Rightarrow>
          is_ascii_lowercase c \<and>
          list_all (\<lambda>c. is_ascii_lowercase c \<or> is_ascii_digit c \<or> c = CHR ''_'' \<or> c = CHR ''-'') cs)"

definition is_valid_local_tool_identifier_component :: "string \<Rightarrow> bool" where
  "is_valid_local_tool_identifier_component s =
     (case s of
        [] \<Rightarrow> False
      | c # cs \<Rightarrow>
          is_ascii_lowercase c \<and>
          list_all (\<lambda>c. is_ascii_alphanumeric c \<or> c = CHR ''_'' \<or> c = CHR ''-'') cs)"

datatype bundle_name = BundleName (bundle_str: string)

datatype local_tool_name = LocalToolName (local_str: string)

definition bundle_name_new :: "string \<Rightarrow> bundle_name res" where
  "bundle_name_new name =
     (if \<not> is_valid_bundle_identifier_component name
      then Err (InvalidArgument
        (''Bundle name '' @ [CHR 0x27] @ name @ [CHR 0x27]
          @ '' must match ^[a-z][a-z0-9_-]*$ (ASCII lowercase letters, digits, ''
          @ [CHR 0x27] @ ''_'' @ [CHR 0x27] @ '' or '' @ [CHR 0x27] @ ''-'' @ [CHR 0x27] @ '')''))
      else Ok (BundleName name))"

definition local_tool_name_new :: "string \<Rightarrow> local_tool_name res" where
  "local_tool_name_new name =
     (if \<not> is_valid_local_tool_identifier_component name
      then Err (InvalidArgument
        (''Tool name '' @ [CHR 0x27] @ name @ [CHR 0x27]
          @ '' must match ^[a-z][A-Za-z0-9_-]*$ (ASCII letters, digits, ''
          @ [CHR 0x27] @ ''_'' @ [CHR 0x27] @ '' or '' @ [CHR 0x27] @ ''-'' @ [CHR 0x27]
          @ '', starting with lowercase)''))
      else Ok (LocalToolName name))"

subsection \<open>Tool names\<close>

record tool_name =
  tn_bundle :: bundle_name
  tn_local :: local_tool_name

definition tool_name_parse :: "string \<Rightarrow> tool_name res" where
  "tool_name_parse name =
     (let parts = split_on CHR ''/'' name
      in if length parts = 3 \<and> parts ! 0 = ''mcp''
         then res_bind (bundle_name_new (''mcp_'' @ parts ! 1)) (\<lambda>b.
              res_bind (local_tool_name_new (parts ! 2)) (\<lambda>l.
              Ok \<lparr>tn_bundle = b, tn_local = l\<rparr>))
         else if length parts \<noteq> 2
         then Err (InvalidArgument
                (''Tool name '' @ [CHR 0x27] @ name @ [CHR 0x27]
                  @ '' must be formatted as interface/tool''))
         else res_bind (bundle_name_new (parts ! 0)) (\<lambda>b.
              res_bind (local_tool_name_new (parts ! 1)) (\<lambda>l.
              Ok \<lparr>tn_bundle = b, tn_local = l\<rparr>)))"

definition display_tool_name :: "tool_name \<Rightarrow> string" where
  "display_tool_name t =
     (case strip_prefix ''mcp_'' (bundle_str (tn_bundle t)) of
        Some server \<Rightarrow> ''mcp/'' @ server @ ''/'' @ local_str (tn_local t)
      | None \<Rightarrow> bundle_str (tn_bundle t) @ ''/'' @ local_str (tn_local t))"

definition normalize_slug_component :: "string \<Rightarrow> string" where
  "normalize_slug_component s = map (\<lambda>c. if c = CHR ''-'' then CHR ''_'' else c) s"

definition slug :: "tool_name \<Rightarrow> string" where
  "slug t = normalize_slug_component (bundle_str (tn_bundle t)) @ ''_''
              @ normalize_slug_component (local_str (tn_local t))"

subsection \<open>Generated type names\<close>

definition capitalize_first :: "string \<Rightarrow> string" where
  "capitalize_first s = (case s of [] \<Rightarrow> [] | c # cs \<Rightarrow> upper_char c # cs)"

text \<open>\<^verbatim>\<open>str::split(['-', '_'])\<close>: a part ends at either separator.\<close>

fun split_sep :: "string \<Rightarrow> string list" where
  "split_sep [] = [[]]"
| "split_sep (c # cs) =
     (if c = CHR ''-'' \<or> c = CHR ''_'' then [] # split_sep cs
      else (case split_sep cs of [] \<Rightarrow> [[c]] | p # ps \<Rightarrow> (c # p) # ps))"

definition to_pascal_identifier_component :: "string \<Rightarrow> string" where
  "to_pascal_identifier_component s =
     concat (map capitalize_first (filter (\<lambda>p. p \<noteq> []) (split_sep s)))"

definition derive_class_name :: "bundle_name \<Rightarrow> local_tool_name \<Rightarrow> string" where
  "derive_class_name b l =
     to_pascal_identifier_component (bundle_str b) @ to_pascal_identifier_component (local_str l)"

definition parse_tool_name_and_class :: "string \<Rightarrow> (tool_name \<times> string) res" where
  "parse_tool_name_and_class name =
     res_bind (tool_name_parse name) (\<lambda>parsed.
       Ok (parsed, derive_class_name (tn_bundle parsed) (tn_local parsed)))"

definition session_plan_type_name_new :: "string \<Rightarrow> string res" where
  "session_plan_type_name_new name =
     (if \<not> ends_with name ''SessionPlan''
      then Err (InvalidArgument
        (''SessionPlanTypeName '' @ [CHR 0x27] @ name @ [CHR 0x27] @ '' must end with ''
          @ [CHR 0x27] @ ''SessionPlan'' @ [CHR 0x27]))
      else Ok name)"

text \<open>\<^verbatim>\<open>class_name\<close> unwraps the stripped suffix: \<^const>\<open>None\<close> is the panic.\<close>

definition session_plan_class_name :: "string \<Rightarrow> string option" where
  "session_plan_class_name n = strip_suffix ''SessionPlan'' n"

definition stn_entry :: "string \<Rightarrow> string" where
  "stn_entry base = full_name (fid_variant base Entry)"

definition stn_active :: "string \<Rightarrow> string \<Rightarrow> string" where
  "stn_active base sl = full_name (fid_variant base (Active sl))"

definition stn_consume :: "string \<Rightarrow> string \<Rightarrow> string" where
  "stn_consume base sl = full_name (fid_variant base (Consume sl))"

definition stn_open_step :: "string \<Rightarrow> string" where
  "stn_open_step class_name = class_name @ ''OpenStep''"

definition stn_send_step :: "string \<Rightarrow> string" where
  "stn_send_step class_name = class_name @ ''SendStep''"

definition stn_session_plan :: "string \<Rightarrow> string" where
  "stn_session_plan class_name = class_name @ ''SessionPlan''"

subsection \<open>Well-formed names\<close>

definition valid_tool_name :: "tool_name \<Rightarrow> bool" where
  "valid_tool_name t \<longleftrightarrow>
     is_valid_bundle_identifier_component (bundle_str (tn_bundle t)) \<and>
     is_valid_local_tool_identifier_component (local_str (tn_local t))"

lemma bundle_name_new_Ok [simp]:
  "bundle_name_new n = Inr b \<longleftrightarrow> is_valid_bundle_identifier_component n \<and> b = BundleName n"
  by (auto simp: bundle_name_new_def)

lemma local_tool_name_new_Ok [simp]:
  "local_tool_name_new n = Inr l \<longleftrightarrow> is_valid_local_tool_identifier_component n \<and> l = LocalToolName n"
  by (auto simp: local_tool_name_new_def)

lemma slash_not_ident:
  "\<not> is_ascii_lowercase CHR ''/''" "\<not> is_ascii_digit CHR ''/''" "\<not> is_ascii_alphanumeric CHR ''/''"
  by (simp_all add: is_ascii_lowercase_def is_ascii_digit_def is_ascii_alphanumeric_def
      is_ascii_uppercase_def)

lemma valid_bundle_no_slash: "is_valid_bundle_identifier_component s \<Longrightarrow> CHR ''/'' \<notin> set s"
  by (auto simp: is_valid_bundle_identifier_component_def list_all_iff slash_not_ident
      split: list.splits)

lemma valid_local_no_slash: "is_valid_local_tool_identifier_component s \<Longrightarrow> CHR ''/'' \<notin> set s"
  by (auto simp: is_valid_local_tool_identifier_component_def list_all_iff slash_not_ident
      split: list.splits)

lemma split_two: "CHR ''/'' \<notin> set a \<Longrightarrow> CHR ''/'' \<notin> set b \<Longrightarrow> split_on CHR ''/'' (a @ CHR ''/'' # b) = [a, b]"
  by (simp add: split_on_append split_on_no_delim)

lemma split_mcp:
  "CHR ''/'' \<notin> set a \<Longrightarrow> CHR ''/'' \<notin> set b \<Longrightarrow>
   split_on CHR ''/'' (''mcp/'' @ a @ CHR ''/'' # b) = [''mcp'', a, b]"
  by (simp add: split_on_append split_on_no_delim)

lemma parse_valid: "tool_name_parse s = Inr t \<Longrightarrow> valid_tool_name t"
  by (auto simp: tool_name_parse_def Let_def valid_tool_name_def res_bind_eq_Inr split: if_splits)

lemma parse_display: "valid_tool_name t \<Longrightarrow> tool_name_parse (display_tool_name t) = Inr t"
proof -
  assume v: "valid_tool_name t"
  obtain b l where t: "t = \<lparr>tn_bundle = BundleName b, tn_local = LocalToolName l\<rparr>"
    by (cases t; cases "tn_bundle t"; cases "tn_local t") auto
  have bv: "is_valid_bundle_identifier_component b" and lv: "is_valid_local_tool_identifier_component l"
    using v t by (simp_all add: valid_tool_name_def)
  have bs: "CHR ''/'' \<notin> set b" and ls: "CHR ''/'' \<notin> set l"
    using bv lv by (auto dest: valid_bundle_no_slash valid_local_no_slash)
  show ?thesis
  proof (cases "strip_prefix ''mcp_'' b")
    case None
    then show ?thesis
      using t bv lv split_two [OF bs ls]
      by (simp add: display_tool_name_def tool_name_parse_def bundle_name_new_def
          local_tool_name_new_def)
  next
    case (Some server)
    then have b: "b = ''mcp_'' @ server" by (simp add: strip_prefix_iff)
    with bs have "CHR ''/'' \<notin> set server" by simp
    then show ?thesis
      using t b bv lv split_mcp [of server l] ls Some
      by (simp add: display_tool_name_def tool_name_parse_def bundle_name_new_def
          local_tool_name_new_def)
  qed
qed

text \<open>
  C40: the presentation form of a tool name is faithful: whatever string a name was parsed from
  (including the three-part form of imported MCP tools), printing the name and parsing it again
  gives the same name, and the parsed name satisfies the identifier rules.
\<close>

theorem tool_name_roundtrip:
  assumes "tool_name_parse s = Ok t"
  shows "valid_tool_name t \<and> tool_name_parse (display_tool_name t) = Ok t"
  using assms parse_valid parse_display by blast

theorem tool_name_roundtrip_witness:
  "tool_name_parse (display_tool_name
     \<lparr>tn_bundle = BundleName ''mcp_meteo'', tn_local = LocalToolName ''get-forecast''\<rparr>)
   = Ok \<lparr>tn_bundle = BundleName ''mcp_meteo'', tn_local = LocalToolName ''get-forecast''\<rparr>"
  by (rule tool_name_roundtrip [THEN conjunct2, of "''mcp/meteo/get-forecast''"])
     (simp add: tool_name_parse_def bundle_name_new_def local_tool_name_new_def
       is_valid_bundle_identifier_component_def is_valid_local_tool_identifier_component_def
       is_ascii_lowercase_def is_ascii_digit_def is_ascii_alphanumeric_def is_ascii_uppercase_def)

subsection \<open>Slugs\<close>

definition ident_char :: "char \<Rightarrow> bool" where
  "ident_char c \<longleftrightarrow> is_ascii_alphanumeric c \<or> c = CHR ''_''"

lemma normalize_ident:
  "list_all (\<lambda>c. is_ascii_alphanumeric c \<or> c = CHR ''_'' \<or> c = CHR ''-'') s \<Longrightarrow>
   list_all ident_char (normalize_slug_component s)"
  by (auto simp: list_all_iff normalize_slug_component_def ident_char_def)

lemma valid_bundle_chars:
  "is_valid_bundle_identifier_component s \<Longrightarrow>
   list_all (\<lambda>c. is_ascii_alphanumeric c \<or> c = CHR ''_'' \<or> c = CHR ''-'') s"
  by (auto simp: is_valid_bundle_identifier_component_def list_all_iff is_ascii_alphanumeric_def
      split: list.splits)

lemma valid_local_chars:
  "is_valid_local_tool_identifier_component s \<Longrightarrow>
   list_all (\<lambda>c. is_ascii_alphanumeric c \<or> c = CHR ''_'' \<or> c = CHR ''-'') s"
  by (auto simp: is_valid_local_tool_identifier_component_def list_all_iff is_ascii_alphanumeric_def
      split: list.splits)

text \<open>
  the slug of every valid tool name is usable as an identifier in generated code: it is
  not empty, starts with a lower-case letter, and consists of letters, digits and underscores.
\<close>

theorem slug_identifier:
  assumes "valid_tool_name t"
  shows "list_all ident_char (slug t) \<and> slug t \<noteq> [] \<and> is_ascii_lowercase (hd (slug t))"
proof -
  obtain c cs where b: "bundle_str (tn_bundle t) = c # cs" and c: "is_ascii_lowercase c"
    using assms
    by (auto simp: valid_tool_name_def is_valid_bundle_identifier_component_def split: list.splits)
  then have "normalize_slug_component (c # cs) = c # normalize_slug_component cs"
    by (auto simp: normalize_slug_component_def is_ascii_lowercase_def)
  with b c assms show ?thesis
    using normalize_ident [OF valid_bundle_chars, of "c # cs"]
      normalize_ident [OF valid_local_chars, of "local_str (tn_local t)"]
    by (simp add: slug_def valid_tool_name_def) (simp add: ident_char_def)
qed

theorem slug_identifier_witness:
  "is_ascii_lowercase (hd (slug \<lparr>tn_bundle = BundleName ''a-b'', tn_local = LocalToolName ''c''\<rparr>))"
  using slug_identifier [of "\<lparr>tn_bundle = BundleName ''a-b'', tn_local = LocalToolName ''c''\<rparr>"]
  by (simp add: valid_tool_name_def is_valid_bundle_identifier_component_def
      is_valid_local_tool_identifier_component_def is_ascii_lowercase_def)

text \<open>
  slugs do not identify tools: two different valid tool names can have the same slug, and
  then the same phase functions in every prompt.
\<close>

theorem slug_collision:
  "\<exists>t u. tool_name_parse ''crm_data/export'' = Ok t \<and> tool_name_parse ''crm/data_export'' = Ok u
     \<and> t \<noteq> u \<and> slug t = slug u \<and> (\<forall>base. stn_active base (slug t) = stn_active base (slug u))"
  by (simp add: tool_name_parse_def bundle_name_new_def local_tool_name_new_def
      is_valid_bundle_identifier_component_def is_valid_local_tool_identifier_component_def
      is_ascii_lowercase_def is_ascii_digit_def is_ascii_alphanumeric_def is_ascii_uppercase_def
      slug_def normalize_slug_component_def)

end
