(* ===== verification/Tool_Metadata.thy ===== *)
theory Tool_Metadata
  imports Tool_Names
begin

text \<open>
  Tool metadata of \<^verbatim>\<open>crates/baml-rt-tools/src/tools.rs\<close>: the metadata record, its builder,
  the exported form that a serialised catalog carries, and the configuration defaults taken from
  a JSON schema.  What \<^verbatim>\<open>ToolType\<close> derives for a Rust type (schema, TypeScript name and
  declaration) is generated code and enters as the argument \<open>tool_type\<close>.
\<close>

subsection \<open>Parts of the metadata\<close>

datatype secret_type =
  ApiKey | OAuthAccessToken | OAuthRefreshToken | BasicAuth | Certificate | OtherSecret string

fun secret_type_str :: "secret_type \<Rightarrow> string" where
  "secret_type_str ApiKey = ''api_key''"
| "secret_type_str OAuthAccessToken = ''oauth_access_token''"
| "secret_type_str OAuthRefreshToken = ''oauth_refresh_token''"
| "secret_type_str BasicAuth = ''basic_auth''"
| "secret_type_str Certificate = ''certificate''"
| "secret_type_str (OtherSecret s) = s"

record secret_request =
  sr_name :: string
  sr_secret_type :: secret_type
  sr_justification :: string
  sr_descriptor :: string

definition secret_request_api_key :: "string \<Rightarrow> string \<Rightarrow> string \<Rightarrow> secret_request" where
  "secret_request_api_key name justification descriptor =
     \<lparr>sr_name = name, sr_secret_type = ApiKey, sr_justification = justification,
      sr_descriptor = descriptor\<rparr>"

record tool_type_spec =
  tts_name :: string
  tts_ts_decl :: "string option"

record tool_config_metadata =
  tcm_schema :: json
  tcm_default :: json
  tcm_type_name :: "string option"

record tool_projection_semantics =
  tps_identity :: string
  tps_summary :: string
  tps_detail :: string

datatype session_policy = Strict | MultiSend

datatype tool_capability = OneShot | Streaming

datatype tool_origin = Host | Guest

datatype tool_backend = Static | External | Mcp | Sandbox | Wasm

definition capability_invocation_mode :: "tool_capability \<Rightarrow> string" where
  "capability_invocation_mode c = (case c of OneShot \<Rightarrow> ''single_shot'' | Streaming \<Rightarrow> ''session'')"

subsection \<open>Defaults from a schema\<close>

text \<open>The loop over \<^verbatim>\<open>properties\<close>; an entry that is not an object ends the function.\<close>

fun collect_defaults ::
  "(string \<times> json) list \<Rightarrow> (string \<times> json) list \<Rightarrow> (string \<times> json) list option" where
  "collect_defaults [] out = Some out"
| "collect_defaults ((k, v) # props) out =
     (case as_object v of
        None \<Rightarrow> None
      | Some prop_schema \<Rightarrow>
          (case obj_get prop_schema ''default'' of
             Some d \<Rightarrow> collect_defaults props (obj_insert k d out)
           | None \<Rightarrow> collect_defaults props out))"

definition default_from_schema :: "json \<Rightarrow> json option" where
  "default_from_schema schema =
     Option.bind (as_object schema) (\<lambda>obj.
     Option.bind (obj_get obj ''properties'') (\<lambda>p.
     Option.bind (as_object p) (\<lambda>props.
     Option.bind (collect_defaults props []) (\<lambda>out.
       if out = [] then None else Some (JObject out)))))"

subsection \<open>The metadata record\<close>

record tool_function_metadata =
  tfm_name :: tool_name
  tfm_class_name :: string
  tfm_description :: string
  tfm_open_input_schema :: json
  tfm_input_schema :: json
  tfm_output_schema :: json
  tfm_open_input_type :: tool_type_spec
  tfm_input_type :: tool_type_spec
  tfm_output_type :: tool_type_spec
  tfm_baml_decl :: "string option"
  tfm_extra_ts_decls :: "string list"
  tfm_access :: "tool_access option"
  tfm_tags :: "string list"
  tfm_secret_requests :: "secret_request list"
  tfm_config :: "tool_config_metadata option"
  tfm_config_bundle :: "bundle_name option"
  tfm_origin :: tool_origin
  tfm_backend :: tool_backend
  tfm_digest :: "string option"
  tfm_projection_semantics :: "tool_projection_semantics option"
  tfm_session_policy :: session_policy
  tfm_capability :: tool_capability
  tfm_event_sources :: "string list"
  tfm_coordination_baml :: "string option"

record tool_type =
  tt_json_schema :: json
  tt_ts_name :: string
  tt_ts_decl :: "string option"

definition type_spec_of :: "tool_type \<Rightarrow> tool_type_spec" where
  "type_spec_of t = \<lparr>tts_name = tt_ts_name t, tts_ts_decl = tt_ts_decl t\<rparr>"

definition from_types ::
  "tool_type \<Rightarrow> tool_type \<Rightarrow> tool_type \<Rightarrow> tool_name \<Rightarrow> string \<Rightarrow> string \<Rightarrow> string list
   \<Rightarrow> secret_request list \<Rightarrow> tool_origin \<Rightarrow> string list \<Rightarrow> tool_access option
   \<Rightarrow> tool_function_metadata" where
  "from_types open_t in_t out_t name class_name description tags secret_requests origin
     extra_ts_decls access =
     \<lparr>tfm_name = name, tfm_class_name = class_name, tfm_description = description,
      tfm_open_input_schema = tt_json_schema open_t, tfm_input_schema = tt_json_schema in_t,
      tfm_output_schema = tt_json_schema out_t,
      tfm_open_input_type = type_spec_of open_t, tfm_input_type = type_spec_of in_t,
      tfm_output_type = type_spec_of out_t,
      tfm_baml_decl = None, tfm_extra_ts_decls = extra_ts_decls, tfm_access = access,
      tfm_tags = tags, tfm_secret_requests = secret_requests, tfm_config = None,
      tfm_config_bundle = None, tfm_origin = origin, tfm_backend = Static, tfm_digest = None,
      tfm_projection_semantics = None, tfm_session_policy = Strict, tfm_capability = OneShot,
      tfm_event_sources = [], tfm_coordination_baml = None\<rparr>"

subsection \<open>The builder\<close>

record metadata_builder =
  mb_name :: tool_name
  mb_class_name :: string
  mb_description :: string
  mb_baml_decl :: "string option"
  mb_tags :: "string list"
  mb_secret_requests :: "secret_request list"
  mb_config :: "tool_config_metadata option"
  mb_config_bundle :: "bundle_name option"
  mb_origin :: tool_origin
  mb_backend :: tool_backend
  mb_digest :: "string option"
  mb_projection_semantics :: "tool_projection_semantics option"
  mb_extra_ts_decls :: "string list"
  mb_access :: "tool_access option"
  mb_session_policy :: session_policy
  mb_capability :: tool_capability
  mb_event_sources :: "string list"

definition metadata_builder_new :: "tool_name \<Rightarrow> string \<Rightarrow> string \<Rightarrow> metadata_builder" where
  "metadata_builder_new name class_name description =
     \<lparr>mb_name = name, mb_class_name = class_name, mb_description = description,
      mb_baml_decl = None, mb_tags = [], mb_secret_requests = [], mb_config = None,
      mb_config_bundle = None, mb_origin = Host, mb_backend = Static, mb_digest = None,
      mb_projection_semantics = None, mb_extra_ts_decls = [], mb_access = None,
      mb_session_policy = Strict, mb_capability = OneShot, mb_event_sources = []\<rparr>"

text \<open>One constructor per \<^verbatim>\<open>with_*\<close> method.\<close>

datatype builder_op =
    WithBamlDecl string | WithTags "string list" | WithSecretRequests "secret_request list"
  | WithConfig tool_config_metadata | WithConfigBundle bundle_name | WithOrigin tool_origin
  | WithDigest string | WithProjectionSemantics string string string
  | WithExtraTsDecls "string list" | WithAccess tool_access | WithSessionPolicy session_policy
  | WithCapability tool_capability | WithEventSources "string list" | WithBackend tool_backend

fun builder_with :: "builder_op \<Rightarrow> metadata_builder \<Rightarrow> metadata_builder" where
  "builder_with (WithBamlDecl decl) b = b\<lparr>mb_baml_decl := Some decl\<rparr>"
| "builder_with (WithTags tags) b = b\<lparr>mb_tags := tags\<rparr>"
| "builder_with (WithSecretRequests requests) b = b\<lparr>mb_secret_requests := requests\<rparr>"
| "builder_with (WithConfig config) b = b\<lparr>mb_config := Some config\<rparr>"
| "builder_with (WithConfigBundle bundle) b = b\<lparr>mb_config_bundle := Some bundle\<rparr>"
| "builder_with (WithOrigin origin) b = b\<lparr>mb_origin := origin\<rparr>"
| "builder_with (WithDigest digest) b = b\<lparr>mb_digest := Some digest\<rparr>"
| "builder_with (WithProjectionSemantics i s d) b =
     b\<lparr>mb_projection_semantics := Some \<lparr>tps_identity = i, tps_summary = s, tps_detail = d\<rparr>\<rparr>"
| "builder_with (WithExtraTsDecls decls) b = b\<lparr>mb_extra_ts_decls := decls\<rparr>"
| "builder_with (WithAccess access) b = b\<lparr>mb_access := Some access\<rparr>"
| "builder_with (WithSessionPolicy policy) b = b\<lparr>mb_session_policy := policy\<rparr>"
| "builder_with (WithCapability capability) b = b\<lparr>mb_capability := capability\<rparr>"
| "builder_with (WithEventSources sources) b = b\<lparr>mb_event_sources := sources\<rparr>"
| "builder_with (WithBackend backend) b = b\<lparr>mb_backend := backend\<rparr>"

definition build_metadata ::
  "tool_type \<Rightarrow> tool_type \<Rightarrow> tool_type \<Rightarrow> metadata_builder \<Rightarrow> tool_function_metadata" where
  "build_metadata open_t in_t out_t b =
     (from_types open_t in_t out_t (mb_name b) (mb_class_name b) (mb_description b) (mb_tags b)
        (mb_secret_requests b) (mb_origin b) (mb_extra_ts_decls b) (mb_access b))
     \<lparr>tfm_baml_decl := mb_baml_decl b, tfm_config := mb_config b,
      tfm_config_bundle := mb_config_bundle b, tfm_backend := mb_backend b,
      tfm_digest := mb_digest b, tfm_projection_semantics := mb_projection_semantics b,
      tfm_session_policy := mb_session_policy b, tfm_capability := mb_capability b,
      tfm_event_sources := mb_event_sources b\<rparr>"

subsection \<open>The exported form\<close>

record tool_function_metadata_export =
  tfx_name :: tool_name
  tfx_class_name :: string
  tfx_description :: string
  tfx_open_input_schema :: json
  tfx_input_schema :: json
  tfx_output_schema :: json
  tfx_open_input_type :: tool_type_spec
  tfx_input_type :: tool_type_spec
  tfx_output_type :: tool_type_spec
  tfx_baml_decl :: "string option"
  tfx_extra_ts_decls :: "string list"
  tfx_access :: "tool_access option"
  tfx_tags :: "string list"
  tfx_secret_requests :: "secret_request list"
  tfx_config :: "tool_config_metadata option"
  tfx_config_bundle :: "bundle_name option"
  tfx_origin :: tool_origin
  tfx_backend :: tool_backend
  tfx_digest :: "string option"
  tfx_projection_semantics :: "tool_projection_semantics option"
  tfx_session_policy :: session_policy
  tfx_capability :: tool_capability
  tfx_invocation_mode :: string
  tfx_event_sources :: "string list"
  tfx_coordination_baml :: "string option"

definition export_of_metadata :: "tool_function_metadata \<Rightarrow> tool_function_metadata_export" where
  "export_of_metadata m =
     \<lparr>tfx_name = tfm_name m, tfx_class_name = tfm_class_name m,
      tfx_description = tfm_description m, tfx_open_input_schema = tfm_open_input_schema m,
      tfx_input_schema = tfm_input_schema m, tfx_output_schema = tfm_output_schema m,
      tfx_open_input_type = tfm_open_input_type m, tfx_input_type = tfm_input_type m,
      tfx_output_type = tfm_output_type m, tfx_baml_decl = tfm_baml_decl m,
      tfx_extra_ts_decls = tfm_extra_ts_decls m, tfx_access = tfm_access m,
      tfx_tags = tfm_tags m, tfx_secret_requests = tfm_secret_requests m,
      tfx_config = tfm_config m, tfx_config_bundle = tfm_config_bundle m,
      tfx_origin = tfm_origin m, tfx_backend = tfm_backend m, tfx_digest = tfm_digest m,
      tfx_projection_semantics = tfm_projection_semantics m,
      tfx_session_policy = tfm_session_policy m, tfx_capability = tfm_capability m,
      tfx_invocation_mode = capability_invocation_mode (tfm_capability m),
      tfx_event_sources = tfm_event_sources m, tfx_coordination_baml = tfm_coordination_baml m\<rparr>"

definition metadata_of_export :: "tool_function_metadata_export \<Rightarrow> tool_function_metadata" where
  "metadata_of_export x =
     \<lparr>tfm_name = tfx_name x, tfm_class_name = tfx_class_name x,
      tfm_description = tfx_description x, tfm_open_input_schema = tfx_open_input_schema x,
      tfm_input_schema = tfx_input_schema x, tfm_output_schema = tfx_output_schema x,
      tfm_open_input_type = tfx_open_input_type x, tfm_input_type = tfx_input_type x,
      tfm_output_type = tfx_output_type x, tfm_baml_decl = tfx_baml_decl x,
      tfm_extra_ts_decls = tfx_extra_ts_decls x, tfm_access = tfx_access x,
      tfm_tags = tfx_tags x, tfm_secret_requests = tfx_secret_requests x,
      tfm_config = tfx_config x, tfm_config_bundle = tfx_config_bundle x,
      tfm_origin = tfx_origin x, tfm_backend = tfx_backend x, tfm_digest = tfx_digest x,
      tfm_projection_semantics = tfx_projection_semantics x,
      tfm_session_policy = tfx_session_policy x, tfm_capability = tfx_capability x,
      tfm_event_sources = tfx_event_sources x, tfm_coordination_baml = tfx_coordination_baml x\<rparr>"

subsection \<open>Facts\<close>

text \<open>
  the export of tool metadata is lossless: reconstructing metadata from its export gives the
  original, and re-exporting a reconstructed record changes only an invocation mode that did not
  follow from the capability.
\<close>

theorem export_lossless:
  "metadata_of_export (export_of_metadata m) = m
   \<and> export_of_metadata (metadata_of_export x)
     = x\<lparr>tfx_invocation_mode := capability_invocation_mode (tfx_capability x)\<rparr>"
  by (simp add: export_of_metadata_def metadata_of_export_def)

lemma collect_defaults_spec:
  assumes "collect_defaults props out = Some out'" "distinct (map fst props)"
  shows "obj_get out' k =
     (case Option.bind (map_of props k) (\<lambda>v. Option.bind (as_object v) (\<lambda>p. obj_get p ''default''))
      of Some d \<Rightarrow> Some d | None \<Rightarrow> obj_get out k)"
  using assms
proof (induction props out rule: collect_defaults.induct)
  case (1 out)
  then show ?case by simp
next
  case (2 k' v props out)
  from "2.prems" obtain p where p: "as_object v = Some p" by (auto split: option.splits)
  have fresh: "map_of props k' = None" using "2.prems"(2) by (simp add: map_of_eq_None_iff)
  show ?case
  proof (cases "obj_get p ''default''")
    case None
    with p "2.prems" "2.IH"(1) [OF p None] show ?thesis using fresh by auto
  next
    case (Some d)
    with p "2.prems" "2.IH"(2) [OF p Some] show ?thesis
      using fresh by (auto split: option.split)
  qed
qed

lemma json_get_as_object: "json_get j k = Option.bind (as_object j) (\<lambda>p. obj_get p k)"
  by (cases j) (simp_all add: json_get_def as_object_def)

lemma collect_defaults_None_iff:
  "collect_defaults props out = None \<longleftrightarrow> (\<exists>(k, v) \<in> set props. as_object v = None)"
  by (induction props out rule: collect_defaults.induct) (auto split: option.splits)

text \<open>
  a default configuration derived from a schema holds, for every property of the schema with
  a \<^verbatim>\<open>default\<close>, exactly that default, and no other key.
\<close>

theorem default_from_schema_spec:
  assumes "default_from_schema (JObject flds) = Some cfg"
    and "obj_get flds ''properties'' = Some (JObject props)"
    and "distinct (map fst props)"
  shows "json_get cfg k = Option.bind (obj_get props k) (\<lambda>v. json_get v ''default'')"
proof -
  from assms(1,2) obtain out where out: "collect_defaults props [] = Some out" "cfg = JObject out"
    by (auto simp: default_from_schema_def as_object_def bind_eq_Some_conv split: if_splits)
  show ?thesis
    using collect_defaults_spec [OF out(1) assms(3), of k] out(2)
    by (simp add: json_get_as_object obj_get_def as_object_def split: option.splits)
qed

theorem default_from_schema_spec_witness:
  "json_get (JObject [(''units'', JString ''metric'')]) ''units'' = Some (JString ''metric'')"
  using default_from_schema_spec
    [of "[(''properties'', JObject [(''units'', JObject [(''default'', JString ''metric'')]),
                                    (''key'', JObject [])])]"
        "JObject [(''units'', JString ''metric'')]"
        "[(''units'', JObject [(''default'', JString ''metric'')]), (''key'', JObject [])]" "''units''"]
  by (simp add: default_from_schema_def as_object_def obj_get_def json_get_def)

end
