(* ===== verification/Access_Policy.thy ===== *)
theory Access_Policy
  imports Tool_Metadata
begin

text \<open>
  The cluster-wide cap on tool access classes, \<^verbatim>\<open>crates/baml-rt-tools/src/access.rs\<close>.  The
  catalog of linked tools is the argument \<open>by_name\<close>.  The theorems characterise exactly which
  tools the cap refuses and which classes a configured value permits.
\<close>

datatype tool_access_policy = PermitOnly (permitted: "tool_access set")

definition permit_all :: tool_access_policy where
  "permit_all = PermitOnly (set access_all)"

definition deny_all :: tool_access_policy where
  "deny_all = PermitOnly {}"

definition is_unrestricted :: "tool_access_policy \<Rightarrow> bool" where
  "is_unrestricted p = (card (permitted p) = length access_all)"

fun parse_access_tokens :: "string list \<Rightarrow> tool_access set \<Rightarrow> tool_access set" where
  "parse_access_tokens [] acc = acc"
| "parse_access_tokens (token # tokens) acc =
     (let value = to_lowercase (trim token)
      in if value = ''read'' then parse_access_tokens tokens (insert Read acc)
         else if value = ''write'' then parse_access_tokens tokens (insert Write acc)
         else if value = ''delete'' then parse_access_tokens tokens (insert Delete acc)
         else parse_access_tokens tokens acc)"

definition parse_access_allowlist_from :: "string option \<Rightarrow> tool_access_policy" where
  "parse_access_allowlist_from value =
     (case value of
        None \<Rightarrow> permit_all
      | Some raw \<Rightarrow> PermitOnly (parse_access_tokens (split_on CHR '','' raw) {}))"

definition enforce_tool_access ::
  "(tool_name \<Rightarrow> tool_function_metadata option) \<Rightarrow> string \<Rightarrow> tool_access_policy \<Rightarrow> unit res" where
  "enforce_tool_access by_name tool_name policy =
     res_bind (tool_name_parse tool_name) (\<lambda>name.
       case by_name name of
         None \<Rightarrow> Ok ()
       | Some metadata \<Rightarrow>
           (case tfm_access metadata of
              None \<Rightarrow> Ok ()
            | Some access \<Rightarrow>
                if access \<notin> permitted policy
                then Err (InvalidArgument
                  (''Tool '' @ [CHR 0x27] @ tool_name @ [CHR 0x27] @ '' access '' @ [CHR 0x27]
                    @ access_str access @ [CHR 0x27]
                    @ '' is not allowed by BAML_TOOL_ACCESS_ALLOWLIST''))
                else Ok ()))"

lemma access_str_inject: "access_str a = access_str b \<longleftrightarrow> a = b"
  by (cases a; cases b) simp_all

lemma access_of_str:
  "access_str a = ''read'' \<longleftrightarrow> a = Read" "access_str a = ''write'' \<longleftrightarrow> a = Write"
  "access_str a = ''delete'' \<longleftrightarrow> a = Delete"
  by (cases a; simp)+

lemma parse_access_tokens_iff:
  "a \<in> parse_access_tokens tokens acc
   \<longleftrightarrow> a \<in> acc \<or> (\<exists>t \<in> set tokens. to_lowercase (trim t) = access_str a)"
proof (induction tokens acc rule: parse_access_tokens.induct)
  case (2 token tokens acc)
  show ?case
    using 2 by (cases a) (auto simp: Let_def)
qed simp

text \<open>
  a configured cap permits exactly the classes it spells: a class is permitted when one of the
  comma-separated tokens, trimmed and in any case, is its name; an unset variable permits all.
\<close>

theorem access_cap_spec:
  "a \<in> permitted (parse_access_allowlist_from v) \<longleftrightarrow>
     (case v of
        None \<Rightarrow> True
      | Some raw \<Rightarrow> \<exists>t \<in> set (split_on CHR '','' raw). to_lowercase (trim t) = access_str a)"
  by (cases a) (auto simp: parse_access_allowlist_from_def permit_all_def access_all_def
      parse_access_tokens_iff split: option.split)

text \<open>
  the cap refuses exactly the tools whose declared class is not permitted; a tool outside the
  catalog or without a declared class passes, and a malformed name is an error.
\<close>

theorem enforce_tool_access_ok_iff:
  "enforce_tool_access by_name n p = Ok () \<longleftrightarrow>
     (\<exists>t. tool_name_parse n = Ok t \<and>
        (case Option.bind (by_name t) tfm_access of None \<Rightarrow> True | Some a \<Rightarrow> a \<in> permitted p))"
  by (cases "tool_name_parse n")
     (auto simp: enforce_tool_access_def split: option.split if_splits)

lemma is_unrestricted_iff: "is_unrestricted p \<longleftrightarrow> permitted p = UNIV"
proof -
  have u: "UNIV = {Read, Write, Delete}" by (auto intro: tool_access.exhaust)
  have c: "card (UNIV :: tool_access set) = 3" unfolding u by simp
  have f: "finite (UNIV :: tool_access set)" unfolding u by simp
  then have "card (permitted p) = 3 \<longleftrightarrow> permitted p = UNIV"
    using c card_subset_eq [OF f subset_UNIV, of "permitted p"] by auto
  then show ?thesis by (simp add: is_unrestricted_def access_all_def numeral_3_eq_3)
qed

end
