(* ===== verification/Semiotic_Gate.thy ===== *)
theory Semiotic_Gate
  imports Complex_Main Tool_Names "HOL-Library.Char_ord" "HOL-Library.List_Lexorder" "HOL-Library.Product_Lexorder"
  "HOL-Library.Multiset"
begin

text \<open>
  The decision procedure of the semiotic gate, \<^verbatim>\<open>crates/baml-rt-semiotic/src\<close>: tiers
  (\<^verbatim>\<open>tier.rs\<close>), grounding artifacts (\<^verbatim>\<open>schema.rs\<close>), the trojan-phrase lint
  (\<^verbatim>\<open>trojan.rs\<close>, \<^verbatim>\<open>lint.rs\<close>), coverage (\<^verbatim>\<open>covers.rs\<close>), the ambiguity-aware policy
  (\<^verbatim>\<open>gate.rs\<close>) and its configuration (\<^verbatim>\<open>config.rs\<close>).  Weights are only compared with each
  other, and are rationals here.  The regular-expression engine is the argument \<open>re\<close>.
\<close>

subsection \<open>Tiers\<close>

datatype tier = TRead | TRoutine | TMutating | TIrreversible

fun tier_u8 :: "tier \<Rightarrow> nat" where
  "tier_u8 TRead = 0"
| "tier_u8 TRoutine = 1"
| "tier_u8 TMutating = 2"
| "tier_u8 TIrreversible = 3"

definition tier_from_u8 :: "nat \<Rightarrow> tier" where
  "tier_from_u8 v =
     (if v = 0 then TRead else if v = 1 then TRoutine else if v = 2 then TMutating
      else if v = 3 then TIrreversible else TMutating)"

record tool_tier_meta =
  ttm_access_level :: tool_access
  ttm_tags :: "string list"
  ttm_read_only_hint :: "bool option"
  ttm_destructive_hint :: "bool option"
  ttm_is_delegation :: bool

fun tier_of_tags :: "string list \<Rightarrow> tier option" where
  "tier_of_tags [] = None"
| "tier_of_tags (tag # tags) =
     (case Option.bind (strip_prefix ''semiotic:tier='' tag) (parse_uint 8) of
        Some n \<Rightarrow> Some (tier_from_u8 n)
      | None \<Rightarrow> tier_of_tags tags)"

definition classify_tier :: "tool_tier_meta \<Rightarrow> tier" where
  "classify_tier meta =
     (case tier_of_tags (ttm_tags meta) of
        Some t \<Rightarrow> t
      | None \<Rightarrow>
          if ttm_is_delegation meta then TMutating
          else if ttm_destructive_hint meta = Some True then TIrreversible
          else (case ttm_access_level meta of
                  Read \<Rightarrow> TRead | Write \<Rightarrow> TMutating | Delete \<Rightarrow> TIrreversible))"

subsection \<open>Artifacts\<close>

datatype template = AgenticExecution | Delegation | CodeGeneration | ConsequentialContent | Research

definition template_parse :: "string \<Rightarrow> template" where
  "template_parse s =
     (if s = ''delegation'' then Delegation
      else if s = ''code_generation'' then CodeGeneration
      else if s = ''consequential_content'' then ConsequentialContent
      else if s = ''research'' then Research
      else AgenticExecution)"

fun critical_nodes :: "template \<Rightarrow> string list" where
  "critical_nodes AgenticExecution = [''ACTION'', ''TARGET'', ''SCOPE'']"
| "critical_nodes Delegation = [''CRITERIA'', ''GOAL'']"
| "critical_nodes CodeGeneration = [''BEHAVIOR'', ''INTERFACE'']"
| "critical_nodes ConsequentialContent = [''AUDIENCE'', ''OBJECTIVE'', ''FACTS'']"
| "critical_nodes Research = [''SUBJECT'', ''SCOPE'']"

definition SIGN_WEIGHTS :: "(string \<times> rat) list" where
  "SIGN_WEIGHTS = [(''symbol'', 3/10), (''index'', 8/10), (''icon'', 9/10), (''verify'', 1), (''free'', 1)]"

definition sign_weight :: "string \<Rightarrow> rat" where
  "sign_weight sign = (case map_of SIGN_WEIGHTS sign of Some w \<Rightarrow> w | None \<Rightarrow> 0)"

datatype anchor_sign = Symbol | Index | Icon | Verify | Free

fun anchor_sign_str :: "anchor_sign \<Rightarrow> string" where
  "anchor_sign_str Symbol = ''symbol''"
| "anchor_sign_str Index = ''index''"
| "anchor_sign_str Icon = ''icon''"
| "anchor_sign_str Verify = ''verify''"
| "anchor_sign_str Free = ''free''"

definition anchor_sign_parse :: "string \<Rightarrow> anchor_sign option" where
  "anchor_sign_parse s =
     (if s = ''symbol'' then Some Symbol else if s = ''index'' then Some Index
      else if s = ''icon'' then Some Icon else if s = ''verify'' then Some Verify
      else if s = ''free'' then Some Free else None)"

record anchor =
  an_sign :: anchor_sign
  an_content :: string
  an_source :: string

record node =
  nd_name :: string
  nd_anchors :: "anchor list"
  nd_interpretations :: "string list"
  nd_trojan :: "string option"

definition has_disambig :: "node \<Rightarrow> bool" where
  "has_disambig n = list_ex (\<lambda>a. an_sign a \<in> {Icon, Index, Verify}) (nd_anchors n)"

definition strength :: "bool \<Rightarrow> node \<Rightarrow> rat" where
  "strength trojan_veto n =
     fold (\<lambda>a best.
             let w = (if trojan_veto \<and> nd_trojan n \<noteq> None \<and> an_sign a = Symbol \<and> \<not> has_disambig n
                      then 0 else sign_weight (anchor_sign_str (an_sign a)))
             in max best w)
          (nd_anchors n) 0"

definition has_sign :: "anchor_sign \<Rightarrow> node \<Rightarrow> bool" where
  "has_sign sign n = list_ex (\<lambda>a. an_sign a = sign) (nd_anchors n)"

record env_signals =
  env_environment :: string
  env_reversible :: bool
  env_external_visibility :: bool
  env_verb_class :: string

definition env_default :: env_signals where
  "env_default = \<lparr>env_environment = ''unknown'', env_reversible = True, env_external_visibility = False,
     env_verb_class = ''lookup''\<rparr>"

record postcondition =
  pc_cmd :: string
  pc_desc :: string

record parse_artifact =
  pa_instruction :: string
  pa_template :: string
  pa_nodes :: "node list"
  pa_env :: env_signals
  pa_covers :: "string list"
  pa_postconditions :: "postcondition list"

definition template_kind :: "parse_artifact \<Rightarrow> template" where
  "template_kind art = template_parse (pa_template art)"

definition art_node :: "parse_artifact \<Rightarrow> string \<Rightarrow> node option" where
  "art_node art name = find (\<lambda>n. nd_name n = name) (pa_nodes art)"

definition coerce_trojan :: "string option \<Rightarrow> string option" where
  "coerce_trojan v = (case v of Some s \<Rightarrow> if trim s \<noteq> [] then Some s else None | None \<Rightarrow> None)"

text \<open>The derived deserialiser is the argument \<open>de\<close>.\<close>

definition coerce_from_value :: "(json \<Rightarrow> parse_artifact option) \<Rightarrow> json \<Rightarrow> parse_artifact" where
  "coerce_from_value de v =
     (let art = (case de v of
           Some a \<Rightarrow> a
         | None \<Rightarrow> \<lparr>pa_instruction = [], pa_template = ''agentic_execution'', pa_nodes = [],
                     pa_env = env_default, pa_covers = [], pa_postconditions = []\<rparr>)
      in art\<lparr>pa_nodes := map (\<lambda>n. n\<lparr>nd_trojan := coerce_trojan (nd_trojan n)\<rparr>) (pa_nodes art)\<rparr>)"

subsection \<open>Trojan phrases\<close>

text \<open>
  \<open>re_find p t\<close> is \<^const>\<open>None\<close> when \<open>p\<close> does not compile, and otherwise the span of the first
  match in \<open>t\<close>; \<open>re_escape\<close> is \<^verbatim>\<open>regex::escape\<close>.
\<close>

record regex_engine =
  re_find :: "string \<Rightarrow> string \<Rightarrow> (nat \<times> nat) option option"
  re_escape :: "string \<Rightarrow> string"

definition TROJANS :: "string list" where
  "TROJANS = [''most recent'', ''the latest'', ''the right one'', ''inactive'', ''stale'', ''clean up'',
     ''cleanup'', ''tidy up'', ''the team'', ''the migration'', ''best'', ''soon'', ''asap'',
     ''production-ready'', ''small change'', ''the usual'', ''old'', ''unused'', ''duplicates'',
     ''outdated'', ''everyone'', ''the important ones'', ''recent'', ''active users'', ''temporary'',
     ''obsolete'']"

text \<open>A pattern literal is written with a tilde for every backslash.\<close>

definition pattern_lit :: "string \<Rightarrow> string" where
  "pattern_lit s = map (\<lambda>c. if c = CHR ''~'' then CHR 0x5C else c) s"

definition DEFUSERS :: string where
  "DEFUSERS = pattern_lit ''(?i)(~b(older|newer|more|less|greater)~s+than~b|~b~d+~s*(days?|hours?|weeks?|months?|years?|%|percent)~b|~bwhere~s+~w+~s*(=|<|>|!=)|~bdefined as~b|~bmeaning~b|~bi~.e~.|~bspecifically~b)''"

definition re_is_match :: "regex_engine \<Rightarrow> string \<Rightarrow> string \<Rightarrow> bool" where
  "re_is_match re p t = (case re_find re p t of Some (Some _) \<Rightarrow> True | _ \<Rightarrow> False)"

definition word_re :: "regex_engine \<Rightarrow> string \<Rightarrow> string" where
  "word_re re p = pattern_lit ''~b'' @ re_escape re p @ pattern_lit ''~b''"

definition detect :: "regex_engine \<Rightarrow> string \<Rightarrow> string list" where
  "detect re txt =
     (let t = to_lowercase txt;
          found = remdups_adj (sort (filter (\<lambda>p. re_is_match re (word_re re p) t) TROJANS));
          found' = filter (\<lambda>p. \<not> list_ex (\<lambda>q. p \<noteq> q \<and> str_contains q p) found) found
      in filter (\<lambda>p. case re_find re (word_re re p) t of
                       Some (Some (_, e)) \<Rightarrow> \<not> re_is_match re DEFUSERS (take 60 (drop e t))
                     | _ \<Rightarrow> False) found')"

definition lint_node :: "string \<Rightarrow> string list \<Rightarrow> node \<Rightarrow> node" where
  "lint_node txt detected n =
     (let n1 = (case nd_trojan n of
                  Some ph \<Rightarrow>
                    (let ph_l = to_lowercase ph
                     in if str_contains txt ph_l \<and> ph_l \<notin> set detected \<and> ph_l \<in> set TROJANS
                        then n\<lparr>nd_trojan := None\<rparr> else n)
                | None \<Rightarrow> n);
          sym = join '' '' (map (\<lambda>a. to_lowercase (an_content a))
                             (filter (\<lambda>a. an_sign a = Symbol) (nd_anchors n1)))
      in if nd_trojan n1 = None
         then (case find (\<lambda>ph. str_contains sym ph \<and> \<not> has_disambig n1) detected of
                 Some ph \<Rightarrow> n1\<lparr>nd_trojan := Some ph\<rparr>
               | None \<Rightarrow> n1)
         else n1)"

definition lint :: "regex_engine \<Rightarrow> parse_artifact \<Rightarrow> parse_artifact" where
  "lint re art =
     (let txt = to_lowercase (pa_instruction art)
      in art\<lparr>pa_nodes := map (lint_node txt (detect re txt)) (pa_nodes art)\<rparr>)"

subsection \<open>Coverage\<close>

definition call_text :: "(json \<Rightarrow> string option) \<Rightarrow> string \<Rightarrow> json \<Rightarrow> string" where
  "call_text ser tool_name args = tool_name @ '' '' @ (case ser args of Some s \<Rightarrow> s | None \<Rightarrow> [])"

definition covers_match ::
  "regex_engine \<Rightarrow> (json \<Rightarrow> string option) \<Rightarrow> string list \<Rightarrow> string \<Rightarrow> json \<Rightarrow> bool" where
  "covers_match re ser patterns tool_name args =
     (if patterns = [] then False
      else list_ex (\<lambda>pat.
             case re_find re pat (call_text ser tool_name args) of
               Some m \<Rightarrow> m \<noteq> None
             | None \<Rightarrow> str_contains (call_text ser tool_name args) pat) patterns)"

subsection \<open>The gate\<close>

datatype gate_action = Execute | ExecuteFlagged | Ask | QueueForHuman

record gate_decision =
  gd_action :: gate_action
  gd_tier :: nat
  gd_score :: rat
  gd_requests :: "string list"
  gd_reason :: string

definition ranked_requests :: "parse_artifact \<Rightarrow> string list \<Rightarrow> string list" where
  "ranked_requests art deficient =
     (let crit = critical_nodes (template_kind art)
      in sort_key (\<lambda>d. case art_node art d of
                         Some n \<Rightarrow> (nd_name n \<notin> set crit, - int (length (nd_interpretations n)))
                       | None \<Rightarrow> (True, 0)) deficient)"

record ambiguity_aware_gate =
  ag_need :: "tier \<Rightarrow> rat"
  ag_supp_floor :: "tier \<Rightarrow> rat"
  ag_require_verify_t3 :: bool

fun default_need :: "tier \<Rightarrow> rat" where
  "default_need TRead = 0"
| "default_need TRoutine = 3/10"
| "default_need TMutating = 8/10"
| "default_need TIrreversible = 8/10"

definition gate_default :: ambiguity_aware_gate where
  "gate_default = \<lparr>ag_need = default_need, ag_supp_floor = (\<lambda>_. 0), ag_require_verify_t3 = True\<rparr>"

definition significant :: "string list \<Rightarrow> node \<Rightarrow> bool" where
  "significant crit n \<longleftrightarrow> nd_name n \<in> set crit \<or> nd_trojan n \<noteq> None \<or> length (nd_interpretations n) > 1"

definition debug_list :: "string list \<Rightarrow> string" where
  "debug_list xs = ''['' @ join '', '' (map debug_str xs) @ '']''"

definition deficient_nodes :: "ambiguity_aware_gate \<Rightarrow> parse_artifact \<Rightarrow> tier \<Rightarrow> string list" where
  "deficient_nodes g art t =
     (let crit = critical_nodes (template_kind art);
          base = map nd_name (filter (\<lambda>n.
                   strength True n < (if significant crit n then ag_need g t else ag_supp_floor g t))
                   (pa_nodes art))
      in if t = TIrreversible \<and> ag_require_verify_t3 g \<and> template_kind art = AgenticExecution
            \<and> (case art_node art ''CRITERION'' of Some cn \<Rightarrow> \<not> has_sign Verify cn | None \<Rightarrow> False)
            \<and> ''CRITERION'' \<notin> set base
         then base @ [''CRITERION''] else base)"

definition decide :: "ambiguity_aware_gate \<Rightarrow> parse_artifact \<Rightarrow> tier \<Rightarrow> gate_decision" where
  "decide g art t =
     (let crit = critical_nodes (template_kind art);
          deficient = deficient_nodes g art t;
          score = fold (\<lambda>w acc. min acc w)
                    (map (strength True) (filter (significant crit) (pa_nodes art))) 1
      in if deficient = []
         then \<lparr>gd_action = (if tier_u8 t \<le> 1 then Execute else ExecuteFlagged), gd_tier = tier_u8 t,
               gd_score = score, gd_requests = [], gd_reason = []\<rparr>
         else \<lparr>gd_action = (if t = TIrreversible then QueueForHuman else Ask), gd_tier = tier_u8 t,
               gd_score = score, gd_requests = ranked_requests art deficient,
               gd_reason = ''deficient: '' @ debug_list deficient\<rparr>)"

subsection \<open>Configuration\<close>

datatype semiotic_mode = DryRun | Enforce

datatype semiotic_posture = PostureOff | PostureAudit | PostureEnforce

record semiotic_policy =
  sp_enabled :: bool
  sp_mode :: semiotic_mode
  sp_enforce_min_tier :: nat
  sp_require_postconditions_t3 :: bool
  sp_strict_citation_anchors :: bool

definition policy_default :: semiotic_policy where
  "policy_default = \<lparr>sp_enabled = False, sp_mode = DryRun, sp_enforce_min_tier = 2,
     sp_require_postconditions_t3 = True, sp_strict_citation_anchors = True\<rparr>"

record semiotic_config =
  sc_default :: semiotic_policy
  sc_overrides :: "(string \<times> semiotic_policy) list"

definition config_default :: semiotic_config where
  "config_default = \<lparr>sc_default = policy_default, sc_overrides = []\<rparr>"

definition should_enforce :: "semiotic_policy \<Rightarrow> nat \<Rightarrow> bool" where
  "should_enforce p t \<longleftrightarrow> sp_enabled p \<and> sp_mode p = Enforce \<and> t \<ge> sp_enforce_min_tier p"

definition posture :: "semiotic_policy \<Rightarrow> semiotic_posture" where
  "posture p =
     (if \<not> sp_enabled p then PostureOff
      else if sp_mode p = Enforce then PostureEnforce else PostureAudit)"

definition resolve_policy :: "semiotic_config \<Rightarrow> string option \<Rightarrow> semiotic_policy" where
  "resolve_policy c agent_package =
     (case Option.bind agent_package (map_of (sc_overrides c)) of
        Some p \<Rightarrow> p
      | None \<Rightarrow> sc_default c)"

text \<open>The UTF-8 bytes of the middle dot and the greater-or-equal sign of the summary label.\<close>

definition mid_dot :: string where
  "mid_dot = [CHR 0xC2, CHR 0xB7]"

definition ge_sign :: string where
  "ge_sign = [CHR 0xE2, CHR 0x89, CHR 0xA5]"

definition summary_label :: "semiotic_policy \<Rightarrow> string" where
  "summary_label p =
     join ('' '' @ mid_dot @ '' '')
       ([(case posture p of PostureOff \<Rightarrow> ''Off'' | PostureAudit \<Rightarrow> ''Audit'' | PostureEnforce \<Rightarrow> ''Enforce'')
          @ '' '' @ mid_dot @ '' tier'' @ ge_sign @ show_nat (sp_enforce_min_tier p)]
        @ (if sp_require_postconditions_t3 p then [''T3 postconditions''] else [])
        @ (if sp_strict_citation_anchors p then [''strict anchors''] else []))"

record effective_agent_policy =
  eap_agent_package :: string
  eap_has_override :: bool
  eap_policy :: semiotic_policy
  eap_posture :: semiotic_posture
  eap_summary :: string

record effective_system_policy =
  esp_policy :: semiotic_policy
  esp_posture :: semiotic_posture
  esp_summary :: string

definition effective_system :: "semiotic_config \<Rightarrow> effective_system_policy" where
  "effective_system c = \<lparr>esp_policy = sc_default c, esp_posture = posture (sc_default c),
     esp_summary = summary_label (sc_default c)\<rparr>"

definition effective_agents :: "semiotic_config \<Rightarrow> string list \<Rightarrow> effective_agent_policy list" where
  "effective_agents c discovered =
     (let packages = fold (\<lambda>key ps. if key \<in> set ps then ps else ps @ [key])
                       (map fst (sc_overrides c)) discovered
      in map (\<lambda>pkg.
           (let p = resolve_policy c (Some pkg)
            in \<lparr>eap_agent_package = pkg, eap_has_override = (map_of (sc_overrides c) pkg \<noteq> None),
                eap_policy = p, eap_posture = posture p, eap_summary = summary_label p\<rparr>))
         (remdups_adj (sort packages)))"

subsection \<open>Strength of a node\<close>

definition grounded :: "node \<Rightarrow> bool" where
  "grounded n = list_ex (\<lambda>a. an_sign a \<noteq> Symbol) (nd_anchors n)"

lemma sign_weight_str [simp]:
  "sign_weight (anchor_sign_str s) =
     (case s of Symbol \<Rightarrow> 3/10 | Index \<Rightarrow> 8/10 | Icon \<Rightarrow> 9/10 | Verify \<Rightarrow> 1 | Free \<Rightarrow> 1)"
  by (cases s) (simp_all add: sign_weight_def SIGN_WEIGHTS_def)

lemma fold_max_ge:
  fixes f :: "'a \<Rightarrow> 'b :: linorder"
  shows "k \<le> fold (\<lambda>a best. max best (f a)) xs b \<longleftrightarrow> k \<le> b \<or> list_ex (\<lambda>a. k \<le> f a) xs"
  by (induction xs arbitrary: b) (auto simp: le_max_iff_disj)

lemma strength_strong: "8/10 \<le> strength True n \<longleftrightarrow> grounded n"
  by (simp add: strength_def Let_def fold_max_ge grounded_def list_ex_iff)
     (auto split: anchor_sign.splits)

lemma strength_nonneg: "0 \<le> strength True n"
  by (simp add: strength_def Let_def fold_max_ge)

lemma default_gate_simps [simp]:
  "ag_need gate_default = default_need" "ag_supp_floor gate_default t = 0"
  "ag_require_verify_t3 gate_default"
  by (simp_all add: gate_default_def)

lemma tier_ge_2: "2 \<le> tier_u8 t \<longleftrightarrow> t = TMutating \<or> t = TIrreversible"
  by (cases t) simp_all

lemma mset_ranked_requests [simp]: "mset (ranked_requests art ds) = mset ds"
  by (simp add: ranked_requests_def)

lemma ranked_requests_Nil [simp]: "ranked_requests art ds = [] \<longleftrightarrow> ds = []"
  using mset_ranked_requests [of art ds] by (metis mset_zero_iff)

lemma set_ranked_requests [simp]: "set (ranked_requests art ds) = set ds"
  by (simp add: ranked_requests_def)

lemma decide_requests_iff [simp]: "gd_requests (decide g art t) = [] \<longleftrightarrow> deficient_nodes g art t = []"
  by (simp add: decide_def Let_def)

lemma decide_requests_set [simp]: "set (gd_requests (decide g art t)) = set (deficient_nodes g art t)"
  by (simp add: decide_def Let_def)

lemma decide_queue_requests: "gd_action (decide g art t) = QueueForHuman \<Longrightarrow> gd_requests (decide g art t) \<noteq> []"
  by (auto simp: decide_def Let_def split: if_splits)

lemma deficient_default:
  assumes "2 \<le> tier_u8 t"
  shows "set (deficient_nodes gate_default art t) =
     {nd_name n | n. n \<in> set (pa_nodes art) \<and> significant (critical_nodes (template_kind art)) n
                      \<and> \<not> grounded n}
     \<union> (if t = TIrreversible \<and> template_kind art = AgenticExecution
           \<and> (\<exists>cn. art_node art ''CRITERION'' = Some cn \<and> \<not> has_sign Verify cn)
        then {''CRITERION''} else {})"
proof -
  have need: "default_need t = 8/10" using assms by (auto simp: tier_ge_2)
  have s: "strength True n < (if significant c n then 8/10 else 0) \<longleftrightarrow> significant c n \<and> \<not> grounded n" for c n
    using strength_nonneg [of n] by (auto simp: strength_strong [symmetric] not_le)
  let ?base = "map nd_name (filter (\<lambda>n. significant (critical_nodes (template_kind art)) n \<and> \<not> grounded n)
    (pa_nodes art))"
  have base: "set ?base = {nd_name n | n. n \<in> set (pa_nodes art)
      \<and> significant (critical_nodes (template_kind art)) n \<and> \<not> grounded n}"
    by auto
  have crit: "(case art_node art ''CRITERION'' of Some cn \<Rightarrow> \<not> has_sign Verify cn | None \<Rightarrow> False)
      \<longleftrightarrow> (\<exists>cn. art_node art ''CRITERION'' = Some cn \<and> \<not> has_sign Verify cn)"
    by (simp split: option.split)
  have "deficient_nodes gate_default art t =
     (if t = TIrreversible \<and> template_kind art = AgenticExecution
         \<and> (\<exists>cn. art_node art ''CRITERION'' = Some cn \<and> \<not> has_sign Verify cn)
         \<and> ''CRITERION'' \<notin> set ?base
      then ?base @ [''CRITERION''] else ?base)"
    unfolding deficient_nodes_def Let_def default_gate_simps need s crit by simp
  then show ?thesis
    unfolding base [symmetric] by (simp only: set_append if_distrib [of set] split: if_split) auto
qed

text \<open>
  C37: what the gate demands of a mutating or irreversible call: it raises no request exactly when
  every node of the artifact that is critical for the template or ambiguous has an anchor stronger
  than a symbol, and, for an irreversible agentic execution, the criterion node (if any) carries a
  verification anchor.
\<close>

theorem gate_pass_iff:
  assumes "2 \<le> tier_u8 t"
  shows "gd_requests (decide gate_default art t) = [] \<longleftrightarrow>
     list_all (\<lambda>n. significant (critical_nodes (template_kind art)) n \<longrightarrow> grounded n) (pa_nodes art)
     \<and> (t = TIrreversible \<and> template_kind art = AgenticExecution \<longrightarrow>
          (\<forall>cn. art_node art ''CRITERION'' = Some cn \<longrightarrow> has_sign Verify cn))"
proof -
  have "gd_requests (decide gate_default art t) = [] \<longleftrightarrow> set (deficient_nodes gate_default art t) = {}"
    by simp
  then show ?thesis
    unfolding deficient_default [OF assms] by (auto simp: list_all_iff)
qed

definition node_of :: "string \<Rightarrow> anchor_sign \<Rightarrow> string \<Rightarrow> node" where
  "node_of name sign content = \<lparr>nd_name = name,
     nd_anchors = [\<lparr>an_sign = sign, an_content = content, an_source = ''user''\<rparr>],
     nd_interpretations = [], nd_trojan = None\<rparr>"

definition art_of :: "string \<Rightarrow> node list \<Rightarrow> parse_artifact" where
  "art_of instruction nodes = \<lparr>pa_instruction = instruction, pa_template = ''agentic_execution'',
     pa_nodes = nodes, pa_env = env_default, pa_covers = [''*''],
     pa_postconditions = [\<lparr>pc_cmd = ''true'', pc_desc = []\<rparr>]\<rparr>"

theorem gate_pass_iff_witness:
  "gd_requests (decide gate_default (art_of ''archive'' [node_of ''ACTION'' Icon ''set deleted_at'']) TIrreversible) = []"
  using gate_pass_iff [of TIrreversible "art_of ''archive'' [node_of ''ACTION'' Icon ''set deleted_at'']"]
  by (simp add: art_of_def node_of_def grounded_def art_node_def)

text \<open>
  the gate judges only the nodes an artifact has: an artifact that names no node at all, and so
  grounds none of the critical nodes of its template, meets the requirements at every tier with the
  full score.
\<close>

theorem empty_artifact_passes:
  "decide gate_default (art_of instruction []) t =
     \<lparr>gd_action = (if tier_u8 t \<le> 1 then Execute else ExecuteFlagged), gd_tier = tier_u8 t,
      gd_score = 1, gd_requests = [], gd_reason = []\<rparr>"
  by (simp add: decide_def deficient_nodes_def Let_def art_of_def art_node_def)

text \<open>
  requests are complete and ranked: they are exactly the deficient nodes, each as often as it is
  deficient, with the nodes critical for the template before all others.
\<close>

theorem ranked_requests_spec:
  "mset (ranked_requests art ds) = mset ds
   \<and> sorted_wrt (\<lambda>a b. (\<exists>n. art_node art b = Some n \<and> nd_name n \<in> set (critical_nodes (template_kind art)))
                       \<longrightarrow> (\<exists>n. art_node art a = Some n \<and> nd_name n \<in> set (critical_nodes (template_kind art))))
       (ranked_requests art ds)"
proof
  let ?crit = "set (critical_nodes (template_kind art))"
  let ?key = "\<lambda>d. case art_node art d of
       Some n \<Rightarrow> (nd_name n \<notin> ?crit, - int (length (nd_interpretations n))) | None \<Rightarrow> (True, 0)"
  show "mset (ranked_requests art ds) = mset ds" by (simp add: ranked_requests_def)
  have "sorted_wrt (\<lambda>a b. ?key a \<le> ?key b) (ranked_requests art ds)"
    using sorted_sort_key [of ?key ds] by (simp add: ranked_requests_def sorted_map)
  then show "sorted_wrt (\<lambda>a b. (\<exists>n. art_node art b = Some n \<and> nd_name n \<in> ?crit)
      \<longrightarrow> (\<exists>n. art_node art a = Some n \<and> nd_name n \<in> ?crit)) (ranked_requests art ds)"
    by (rule sorted_wrt_mono_rel [rotated]) (auto simp: less_eq_prod_def split: option.splits)
qed

theorem ranked_requests_spec_witness:
  "ranked_requests (art_of [] [node_of ''OBJECT'' Symbol [], node_of ''SCOPE'' Symbol []]) [''OBJECT'', ''SCOPE'']
     = [''SCOPE'', ''OBJECT'']
   \<and> mset (ranked_requests (art_of [] [node_of ''OBJECT'' Symbol [], node_of ''SCOPE'' Symbol []]) [''OBJECT'', ''SCOPE''])
     = mset [''OBJECT'', ''SCOPE'']"
  using ranked_requests_spec [of "art_of [] [node_of ''OBJECT'' Symbol [], node_of ''SCOPE'' Symbol []]"
      "[''OBJECT'', ''SCOPE'']"]
  by (simp add: ranked_requests_def art_node_def art_of_def node_of_def template_kind_def
      template_parse_def less_eq_prod_def)

subsection \<open>The lint\<close>

lemma str_contains_join:
  "x \<in> set xs \<Longrightarrow> str_contains x p \<Longrightarrow> str_contains (join sep xs) p"
proof (induction sep xs rule: join.induct)
  case (3 sep y z zs)
  show ?case
  proof (cases "x = y")
    case True
    with 3 obtain a b where "y = a @ p @ b" by (auto simp: str_contains_iff)
    then have "join sep (y # z # zs) = a @ p @ (b @ sep @ join sep (z # zs))" by simp
    then show ?thesis unfolding str_contains_iff by blast
  next
    case False
    with 3 obtain a b where "join sep (z # zs) = a @ p @ b" by (auto simp: str_contains_iff)
    then have "join sep (y # z # zs) = (y @ sep @ a) @ p @ b" by simp
    then show ?thesis unfolding str_contains_iff by blast
  qed
qed simp_all

lemma lint_node_facts [simp]:
  "nd_name (lint_node txt ds n) = nd_name n" "nd_anchors (lint_node txt ds n) = nd_anchors n"
  by (auto simp: lint_node_def Let_def split: option.splits)

lemma lint_node_grounded [simp]: "grounded (lint_node txt ds n) = grounded n"
  by (simp add: grounded_def)

lemma grounded_disambig: "has_disambig n \<Longrightarrow> grounded n"
  by (force simp: grounded_def has_disambig_def list_ex_iff)

lemma lint_node_flags:
  assumes "a \<in> set (nd_anchors n)" "an_sign a = Symbol" "ph \<in> set ds"
    and "str_contains (to_lowercase (an_content a)) ph" "\<not> has_disambig n"
  shows "nd_trojan (lint_node txt ds n) \<noteq> None"
proof -
  define sym where "sym = join '' '' (map (\<lambda>a. to_lowercase (an_content a))
    (filter (\<lambda>a. an_sign a = Symbol) (nd_anchors n)))"
  have "str_contains sym ph"
    unfolding sym_def using assms(1,2,4) by (intro str_contains_join [where x = "to_lowercase (an_content a)"]) auto
  then have f: "find (\<lambda>ph. str_contains sym ph \<and> \<not> has_disambig n) ds \<noteq> None"
    using assms(3,5) by (auto simp: find_None_iff)
  have "has_disambig (n\<lparr>nd_trojan := t\<rparr>) = has_disambig n" for t by (simp add: has_disambig_def)
  with f show ?thesis
    by (auto simp: lint_node_def Let_def sym_def [symmetric] split: option.splits)
qed

text \<open>
  the lint finds trojan phrases the artifact does not declare: a node that quotes a phrase
  detected in the instruction and is anchored by symbols only is held at tiers two and three,
  whatever the artifact claims about it.
\<close>

theorem lint_holds_trojan:
  assumes "2 \<le> tier_u8 t" "n \<in> set (pa_nodes art)" "a \<in> set (nd_anchors n)" "\<not> grounded n"
    and "ph \<in> set (detect re (to_lowercase (pa_instruction art)))"
    and "str_contains (to_lowercase (an_content a)) ph"
  shows "nd_name n \<in> set (gd_requests (decide gate_default (lint re art) t))"
proof -
  let ?ds = "detect re (to_lowercase (pa_instruction art))"
  let ?n = "lint_node (to_lowercase (pa_instruction art)) ?ds n"
  have "an_sign a = Symbol" using assms(3,4) by (auto simp: grounded_def list_ex_iff)
  then have "nd_trojan ?n \<noteq> None"
    using lint_node_flags [OF assms(3) _ assms(5,6)] grounded_disambig assms(4) by blast
  then have "significant crit ?n" for crit by (simp add: significant_def)
  moreover have "?n \<in> set (pa_nodes (lint re art))" using assms(2) by (simp add: lint_def Let_def)
  ultimately show ?thesis
    using assms(4) unfolding decide_requests_set deficient_default [OF assms(1)]
    by (intro UnI1 CollectI exI [of _ ?n]) simp
qed

definition witness_re :: regex_engine where
  "witness_re = \<lparr>re_find = (\<lambda>p t. Some (if p = pattern_lit ''~bstale~b'' then Some (7, 12) else None)),
     re_escape = (\<lambda>p. p)\<rparr>"

lemma witness_detect: "detect witness_re ''delete stale rows'' = [''stale'']"
  by (simp add: detect_def witness_re_def re_is_match_def word_re_def TROJANS_def pattern_lit_def
      DEFUSERS_def Let_def)

theorem lint_holds_trojan_witness:
  "''OBJECT'' \<in> set (gd_requests (decide gate_default
      (lint witness_re (art_of ''delete stale rows'' [node_of ''OBJECT'' Symbol ''stale rows''])) TMutating))"
  using lint_holds_trojan [of TMutating "node_of ''OBJECT'' Symbol ''stale rows''"
      "art_of ''delete stale rows'' [node_of ''OBJECT'' Symbol ''stale rows'']"
      "\<lparr>an_sign = Symbol, an_content = ''stale rows'', an_source = ''user''\<rparr>" "''stale''" witness_re]
  by (simp add: art_of_def node_of_def grounded_def to_lowercase_def lower_char_def
      is_ascii_uppercase_def witness_detect str_contains_def)

end
