(* ===== verification/Semiotic_Stores.thy ===== *)
theory Semiotic_Stores
  imports Semiotic_Gate
begin

text \<open>
  The process-wide stores of the semiotic gate: grounding artifacts and pending postconditions
  (\<^verbatim>\<open>store.rs\<close>), the last gate outcome (\<^verbatim>\<open>gate_outcome.rs\<close>), tier-3 authorizations
  (\<^verbatim>\<open>pending_auth.rs\<close>), recent denials (\<^verbatim>\<open>denied_recent.rs\<close>) and the configuration
  (\<^verbatim>\<open>global.rs\<close>), all keyed by the runtime scope, and the postcondition runner
  (\<^verbatim>\<open>postcondition.rs\<close>).  Time is in milliseconds and an argument of every operation that reads
  the clock.  The stores that put a value and take it once share the locale \<open>scoped_slot\<close>.
\<close>

subsection \<open>Scopes\<close>

datatype runtime_scope =
    MessageScope (context_id: string) (agent_id: string) (message_id: string)
  | TaskScope (context_id: string) (agent_id: string) (message_id: string) (task_id: string)

definition task_id_opt :: "runtime_scope \<Rightarrow> string option" where
  "task_id_opt s = (case s of MessageScope _ _ _ \<Rightarrow> None | TaskScope _ _ _ t \<Rightarrow> Some t)"

definition scope_key :: "runtime_scope \<Rightarrow> string" where
  "scope_key s = agent_id s @ '':'' @ (case task_id_opt s of Some t \<Rightarrow> t | None \<Rightarrow> [])"

subsection \<open>Records and state\<close>

record grounding_record =
  gr_artifact :: parse_artifact
  gr_submitted_at :: nat
  gr_consumed :: bool
  gr_plan_step_id :: "string option"

record pending_postconditions =
  pp_postconditions :: "postcondition list"
  pp_tier :: nat
  pp_cwd :: "string option"

datatype gate_reason_code =
    TierBelowGate | NoArtifact | StaleArtifact | CoversMismatch | DeficientNodes | NoPostconditions
  | RequirementsMet | Tier3Authorization | DryRunRecorded | InternalError

fun reason_str :: "gate_reason_code \<Rightarrow> string" where
  "reason_str TierBelowGate = ''tier_below_gate''"
| "reason_str NoArtifact = ''no_artifact''"
| "reason_str StaleArtifact = ''stale_artifact''"
| "reason_str CoversMismatch = ''covers_mismatch''"
| "reason_str DeficientNodes = ''deficient_nodes''"
| "reason_str NoPostconditions = ''no_postconditions''"
| "reason_str RequirementsMet = ''requirements_met''"
| "reason_str Tier3Authorization = ''tier3_authorization''"
| "reason_str DryRunRecorded = ''dry_run_recorded''"
| "reason_str InternalError = ''internal_error''"

record gate_outcome =
  go_tool_name :: string
  go_tier :: nat
  go_decision :: string
  go_reason_code :: string
  go_deficient_nodes :: "string list"
  go_postcondition_passed :: "bool option"
  go_gate_authorization :: "bool option"
  go_telemetry_verdict :: "string option"
  go_secs_since_denial :: "nat option"

definition gate_outcome_new ::
  "string \<Rightarrow> nat \<Rightarrow> string \<Rightarrow> gate_reason_code \<Rightarrow> string list \<Rightarrow> gate_outcome" where
  "gate_outcome_new tool_name tier decision reason deficient =
     \<lparr>go_tool_name = tool_name, go_tier = tier, go_decision = decision,
      go_reason_code = reason_str reason, go_deficient_nodes = deficient,
      go_postcondition_passed = None, go_gate_authorization = None, go_telemetry_verdict = None,
      go_secs_since_denial = None\<rparr>"

record pending_auth =
  au_tool_name :: string
  au_args_fingerprint :: string
  au_granted :: bool

record denied_call =
  dc_at :: nat
  dc_tool_class :: string
  dc_tier :: nat
  dc_tokens :: "string set"

record semiotic_state =
  ss_config :: semiotic_config
  ss_grounding :: "string \<rightharpoonup> grounding_record"
  ss_pending :: "string \<rightharpoonup> pending_postconditions"
  ss_outcomes :: "string \<rightharpoonup> gate_outcome"
  ss_denied :: "string \<rightharpoonup> denied_call list"
  ss_auth :: "string \<rightharpoonup> pending_auth"

definition state_init :: semiotic_state where
  "state_init = \<lparr>ss_config = config_default, ss_grounding = Map.empty, ss_pending = Map.empty,
     ss_outcomes = Map.empty, ss_denied = Map.empty, ss_auth = Map.empty\<rparr>"

definition set_global_semiotic_config :: "semiotic_config \<Rightarrow> semiotic_state \<Rightarrow> semiotic_state" where
  "set_global_semiotic_config c st = st\<lparr>ss_config := c\<rparr>"

definition resolve_semiotic_policy :: "string option \<Rightarrow> semiotic_state \<Rightarrow> semiotic_policy" where
  "resolve_semiotic_policy agent_package st = resolve_policy (ss_config st) agent_package"

subsection \<open>Grounding artifacts\<close>

definition submit_grounding ::
  "nat \<Rightarrow> runtime_scope \<Rightarrow> parse_artifact \<Rightarrow> string option \<Rightarrow> semiotic_state \<Rightarrow> semiotic_state" where
  "submit_grounding now scope artifact plan_step_id st =
     st\<lparr>ss_grounding := (ss_grounding st)(scope_key scope \<mapsto>
          \<lparr>gr_artifact = artifact, gr_submitted_at = now, gr_consumed = False,
           gr_plan_step_id = plan_step_id\<rparr>)\<rparr>"

definition get_live :: "nat \<Rightarrow> runtime_scope \<Rightarrow> nat \<Rightarrow> semiotic_state \<Rightarrow> parse_artifact option" where
  "get_live now scope max_age st =
     (case ss_grounding st (scope_key scope) of
        None \<Rightarrow> None
      | Some rec \<Rightarrow>
          if gr_consumed rec \<or> now - gr_submitted_at rec > max_age then None
          else Some (gr_artifact rec))"

definition register_pending_postconditions ::
  "runtime_scope \<Rightarrow> pending_postconditions \<Rightarrow> semiotic_state \<Rightarrow> semiotic_state" where
  "register_pending_postconditions scope pp st =
     st\<lparr>ss_pending := (ss_pending st)(scope_key scope \<mapsto> pp)\<rparr>"

definition take_pending_postconditions ::
  "runtime_scope \<Rightarrow> semiotic_state \<Rightarrow> pending_postconditions option \<times> semiotic_state" where
  "take_pending_postconditions scope st =
     (ss_pending st (scope_key scope), st\<lparr>ss_pending := (ss_pending st)(scope_key scope := None)\<rparr>)"

definition consume :: "runtime_scope \<Rightarrow> semiotic_state \<Rightarrow> semiotic_state" where
  "consume scope st =
     (case ss_grounding st (scope_key scope) of
        None \<Rightarrow> st
      | Some rec \<Rightarrow>
          st\<lparr>ss_grounding := (ss_grounding st)(scope_key scope \<mapsto> rec\<lparr>gr_consumed := True\<rparr>)\<rparr>)"

subsection \<open>Outcomes\<close>

definition record_gate_outcome :: "runtime_scope \<Rightarrow> gate_outcome \<Rightarrow> semiotic_state \<Rightarrow> semiotic_state" where
  "record_gate_outcome scope out st = st\<lparr>ss_outcomes := (ss_outcomes st)(scope_key scope \<mapsto> out)\<rparr>"

definition take_gate_outcome :: "runtime_scope \<Rightarrow> semiotic_state \<Rightarrow> gate_outcome option \<times> semiotic_state" where
  "take_gate_outcome scope st =
     (ss_outcomes st (scope_key scope), st\<lparr>ss_outcomes := (ss_outcomes st)(scope_key scope := None)\<rparr>)"

subsection \<open>Authorizations\<close>

datatype resume_action = NoPending | Granted | Denied

definition is_gate_denial :: "string \<Rightarrow> bool" where
  "is_gate_denial user_text =
     (let t = to_lowercase (trim user_text)
      in if t = [] then False
         else starts_with t ''[gate-deny]'' \<or> t = ''deny'' \<or> t = ''reject''
              \<or> starts_with t ''deny '' \<or> starts_with t ''reject '')"

definition fingerprint :: "(json \<Rightarrow> string option) \<Rightarrow> string \<Rightarrow> json \<Rightarrow> string" where
  "fingerprint ser tool_name args = tool_name @ '':'' @ (case ser args of Some s \<Rightarrow> s | None \<Rightarrow> [])"

definition set_pending ::
  "(json \<Rightarrow> string option) \<Rightarrow> runtime_scope \<Rightarrow> string \<Rightarrow> json \<Rightarrow> semiotic_state \<Rightarrow> semiotic_state" where
  "set_pending ser scope tool_name args st =
     st\<lparr>ss_auth := (ss_auth st)(scope_key scope \<mapsto>
          \<lparr>au_tool_name = tool_name, au_args_fingerprint = fingerprint ser tool_name args,
           au_granted = False\<rparr>)\<rparr>"

definition resolve_on_resume ::
  "runtime_scope \<Rightarrow> string \<Rightarrow> semiotic_state \<Rightarrow> resume_action \<times> semiotic_state" where
  "resolve_on_resume scope user_text st =
     (case ss_auth st (scope_key scope) of
        None \<Rightarrow> (NoPending, st)
      | Some entry \<Rightarrow>
          if is_gate_denial user_text
          then (Denied, st\<lparr>ss_auth := (ss_auth st)(scope_key scope := None)\<rparr>)
          else (Granted,
                st\<lparr>ss_auth := (ss_auth st)(scope_key scope \<mapsto> entry\<lparr>au_granted := True\<rparr>)\<rparr>))"

definition grant_on_resume :: "runtime_scope \<Rightarrow> semiotic_state \<Rightarrow> semiotic_state" where
  "grant_on_resume scope st = snd (resolve_on_resume scope ''approve'' st)"

definition is_granted ::
  "(json \<Rightarrow> string option) \<Rightarrow> runtime_scope \<Rightarrow> string \<Rightarrow> json \<Rightarrow> semiotic_state \<Rightarrow> bool \<times> semiotic_state" where
  "is_granted ser scope tool_name args st =
     (case ss_auth st (scope_key scope) of
        None \<Rightarrow> (False, st)
      | Some entry \<Rightarrow>
          if au_tool_name entry \<noteq> tool_name \<or> au_args_fingerprint entry \<noteq> fingerprint ser tool_name args
          then (False, st)
          else if \<not> au_granted entry then (False, st)
          else (True, st\<lparr>ss_auth := (ss_auth st)(scope_key scope := None)\<rparr>))"

subsection \<open>Recent denials\<close>

definition DENIED_TTL :: nat where
  "DENIED_TTL = 30 * 60 * 1000"

definition MAX_DENIED :: nat where
  "MAX_DENIED = 8"

datatype telemetry_verdict = FrictionDenial nat | PreventedError string nat

definition tool_class :: "string \<Rightarrow> string" where
  "tool_class tool_name =
     (if tool_name = ''bash'' \<or> tool_name = ''Bash'' then ''bash''
      else case strip_prefix ''mcp__'' tool_name of
             Some rest \<Rightarrow>
               ''mcp:'' @ (case find_sub ''__'' rest of Some i \<Rightarrow> take i rest | None \<Rightarrow> rest)
           | None \<Rightarrow> ''other'')"

definition token_char :: "char \<Rightarrow> bool" where
  "token_char c \<longleftrightarrow> is_ascii_alphanumeric c \<or> c \<in> {CHR ''_'', CHR ''.'', CHR ''/'', CHR '':'', CHR ''-''}"

fun split_tokens :: "string \<Rightarrow> string list" where
  "split_tokens [] = [[]]"
| "split_tokens (c # cs) =
     (if \<not> token_char c then [] # split_tokens cs
      else (case split_tokens cs of [] \<Rightarrow> [[c]] | p # ps \<Rightarrow> (c # p) # ps))"

definition norm_tokens :: "string \<Rightarrow> string set" where
  "norm_tokens txt = set (filter (\<lambda>s. s \<noteq> []) (split_tokens (to_lowercase txt)))"

definition jaccard :: "string set \<Rightarrow> string set \<Rightarrow> rat" where
  "jaccard a b =
     (if a = {} \<or> b = {} then 0 else of_nat (card (a \<inter> b)) / of_nat (card (a \<union> b)))"

definition record_denied ::
  "(json \<Rightarrow> string option) \<Rightarrow> nat \<Rightarrow> runtime_scope \<Rightarrow> string \<Rightarrow> json \<Rightarrow> nat \<Rightarrow> semiotic_state
   \<Rightarrow> semiotic_state" where
  "record_denied ser now scope tool_name args tier st =
     (let items = (case ss_denied st (scope_key scope) of Some xs \<Rightarrow> xs | None \<Rightarrow> []);
          live = filter (\<lambda>i. now - dc_at i < DENIED_TTL) items;
          kept = (if length live \<ge> MAX_DENIED then tl live else live)
      in st\<lparr>ss_denied := (ss_denied st)(scope_key scope \<mapsto>
           kept @ [\<lparr>dc_at = now, dc_tool_class = tool_class tool_name, dc_tier = tier,
                    dc_tokens = norm_tokens (call_text ser tool_name args)\<rparr>])\<rparr>)"

text \<open>The scan for the best match: the first index of the highest positive score.\<close>

fun best_match ::
  "string \<Rightarrow> string set \<Rightarrow> nat \<Rightarrow> denied_call list \<Rightarrow> rat \<times> nat option \<Rightarrow> rat \<times> nat option" where
  "best_match tc toks idx [] best = best"
| "best_match tc toks idx (i # is) (best_score, best_idx) =
     best_match tc toks (Suc idx) is
       (if dc_tool_class i \<noteq> tc then (best_score, best_idx)
        else let score = jaccard toks (dc_tokens i)
             in if score > best_score then (score, Some idx) else (best_score, best_idx))"

definition match_executed ::
  "(json \<Rightarrow> string option) \<Rightarrow> nat \<Rightarrow> runtime_scope \<Rightarrow> string \<Rightarrow> json \<Rightarrow> nat \<Rightarrow> semiotic_state
   \<Rightarrow> telemetry_verdict option \<times> semiotic_state" where
  "match_executed ser now scope tool_name args tier st =
     (let key = scope_key scope;
          toks = norm_tokens (call_text ser tool_name args);
          tc = tool_class tool_name
      in case ss_denied st key of
           None \<Rightarrow> (None, st)
         | Some items \<Rightarrow>
             (let live = filter (\<lambda>i. now - dc_at i < DENIED_TTL) items;
                  st' = st\<lparr>ss_denied := (ss_denied st)(key \<mapsto> live)\<rparr>
              in case best_match tc toks 0 live (0, None) of
                   (score, None) \<Rightarrow> (None, st')
                 | (score, Some idx) \<Rightarrow>
                     if score < 35/100 then (None, st')
                     else (let denied = live ! idx;
                               elapsed = (now - dc_at denied) div 1000;
                               st'' = st\<lparr>ss_denied := (ss_denied st)(key \<mapsto> take idx live @ drop (Suc idx) live)\<rparr>
                           in (Some (if score \<ge> 95/100 then FrictionDenial elapsed
                                     else PreventedError (if score \<ge> 70/100 then ''minor'' else ''major'') elapsed),
                               st''))))"

definition diff_executed_against_denied ::
  "(json \<Rightarrow> string option) \<Rightarrow> string \<Rightarrow> json \<Rightarrow> string \<Rightarrow> json \<Rightarrow> telemetry_verdict option" where
  "diff_executed_against_denied ser denied_tool denied_args executed_tool executed_args =
     (if tool_class denied_tool \<noteq> tool_class executed_tool then None
      else (let score = jaccard (norm_tokens (call_text ser denied_tool denied_args))
                          (norm_tokens (call_text ser executed_tool executed_args))
            in if score < 35/100 then None
               else if score \<ge> 95/100 then Some (FrictionDenial 0)
               else Some (PreventedError (if score \<ge> 70/100 then ''minor'' else ''major'') 0)))"

subsection \<open>Postconditions\<close>

text \<open>What running a shell command gives; the exit code is absent when a signal ended it.\<close>

datatype proc_result =
    SpawnFailed string
  | Exited "int option" string string
  | TimedOut
  | WaitFailed string

datatype postcondition_kind = PcPass | PcAssertionFailed | PcEnvError

record postcondition_result =
  pr_desc :: string
  pr_ok :: bool
  pr_kind :: postcondition_kind
  pr_detail :: "string option"

record postcondition_run =
  prun_results :: "postcondition_result list"
  prun_passed :: bool
  prun_assertion_failures :: nat
  prun_env_errors :: nat

definition foreign_path_roots :: "string \<Rightarrow> bool" where
  "foreign_path_roots cmd \<longleftrightarrow> str_contains cmd ''/etc/'' \<or> str_contains cmd ''/usr/''
     \<or> str_contains cmd ''/var/'' \<or> str_contains cmd ''..''"

definition show_int :: "int \<Rightarrow> string" where
  "show_int i = (if i < 0 then ''-'' @ show_nat (nat (- i)) else show_nat (nat i))"

definition run_one ::
  "(string \<Rightarrow> string option \<Rightarrow> proc_result) \<Rightarrow> string \<Rightarrow> string option
   \<Rightarrow> bool \<times> postcondition_kind \<times> string option" where
  "run_one sh cmd cwd =
     (case sh cmd cwd of
        SpawnFailed e \<Rightarrow> (False, PcEnvError, Some (''spawn failed: '' @ e))
      | TimedOut \<Rightarrow> (False, PcEnvError, Some ''timed out after 30s'')
      | WaitFailed e \<Rightarrow> (False, PcEnvError, Some (''wait failed: '' @ e))
      | Exited status out err \<Rightarrow>
          (let detail = take 200 (trim (if out = [] then err else out));
               exit = (case status of Some c \<Rightarrow> c | None \<Rightarrow> -1);
               shown = (if detail = [] then ''exit '' @ show_int exit else detail)
           in if status = Some 0 then (True, PcPass, None)
              else if exit = 126 \<or> exit = 127 \<or> foreign_path_roots cmd
              then (False, PcEnvError, Some shown)
              else (False, PcAssertionFailed, Some shown)))"

fun run_pcs ::
  "(string \<Rightarrow> string option \<Rightarrow> proc_result) \<Rightarrow> string option \<Rightarrow> postcondition list
   \<Rightarrow> postcondition_result list \<Rightarrow> nat \<Rightarrow> nat \<Rightarrow> postcondition_result list \<times> nat \<times> nat" where
  "run_pcs sh cwd [] results fails envs = (results, fails, envs)"
| "run_pcs sh cwd (pc # pcs) results fails envs =
     (if trim (pc_cmd pc) = [] then run_pcs sh cwd pcs results fails envs
      else case run_one sh (pc_cmd pc) cwd of
             (ok, kind, detail) \<Rightarrow>
               run_pcs sh cwd pcs
                 (results @ [\<lparr>pr_desc = (if pc_desc pc = [] then pc_cmd pc else pc_desc pc),
                              pr_ok = ok, pr_kind = kind, pr_detail = detail\<rparr>])
                 (if \<not> ok \<and> kind = PcAssertionFailed then Suc fails else fails)
                 (if \<not> ok \<and> kind = PcEnvError then Suc envs else envs))"

definition run_postconditions ::
  "(string \<Rightarrow> string option \<Rightarrow> proc_result) \<Rightarrow> postcondition list \<Rightarrow> string option \<Rightarrow> postcondition_run" where
  "run_postconditions sh pcs cwd =
     (case run_pcs sh cwd pcs [] 0 0 of
        (results, fails, envs) \<Rightarrow>
          \<lparr>prun_results = results, prun_passed = (fails = 0 \<and> envs = 0),
           prun_assertion_failures = fails, prun_env_errors = envs\<rparr>)"

subsection \<open>Slots\<close>

locale scoped_slot =
  fixes put :: "runtime_scope \<Rightarrow> 'v \<Rightarrow> 'st \<Rightarrow> 'st"
    and tak :: "runtime_scope \<Rightarrow> 'st \<Rightarrow> 'v option \<times> 'st"
  assumes take_put:
      "fst (tak sc (put sc' v st)) = (if scope_key sc = scope_key sc' then Some v else fst (tak sc st))"
    and take_take:
      "fst (tak sc (snd (tak sc' st))) = (if scope_key sc = scope_key sc' then None else fst (tak sc st))"
begin

lemma take_put_same: "fst (tak sc (put sc v st)) = Some v"
  by (simp add: take_put)

lemma take_once: "fst (tak sc (snd (tak sc st))) = None"
  by (simp add: take_take)

lemma last_put_wins: "fst (tak sc (put sc v (put sc u st))) = Some v"
  by (simp add: take_put)

lemma put_other_scope: "scope_key sc \<noteq> scope_key sc' \<Longrightarrow> fst (tak sc (put sc' v st)) = fst (tak sc st)"
  by (simp add: take_put)

end

interpretation outcomes: scoped_slot record_gate_outcome take_gate_outcome
  by unfold_locales (simp_all add: record_gate_outcome_def take_gate_outcome_def)

interpretation pending: scoped_slot register_pending_postconditions take_pending_postconditions
  by unfold_locales (simp_all add: register_pending_postconditions_def take_pending_postconditions_def)

subsection \<open>Artifacts are live until used\<close>

lemma get_live_submit:
  "get_live now' sc ttl (submit_grounding now sc' art p st) =
     (if scope_key sc = scope_key sc' then (if now' - now > ttl then None else Some art)
      else get_live now' sc ttl st)"
  by (simp add: get_live_def submit_grounding_def)

lemma get_live_consume:
  "get_live now sc ttl (consume sc' st) =
     (if scope_key sc = scope_key sc' then None else get_live now sc ttl st)"
  by (auto simp: get_live_def consume_def split: option.splits)

text \<open>
  grounding is keyed by agent and task only.  Calls outside a task have no task, so what was
  grounded in one conversation of an agent counts for its calls in every other conversation.
\<close>

theorem grounding_shared_across_contexts:
  "get_live now (MessageScope c2 a m2) ttl (submit_grounding now (MessageScope c1 a m1) art p st) = Some art"
  by (simp add: get_live_submit scope_key_def task_id_opt_def)

subsection \<open>Authorizations\<close>

lemma is_granted_True:
  assumes "is_granted ser sc tool args st = (True, st')"
  shows "\<exists>e. ss_auth st (scope_key sc) = Some e \<and> au_granted e \<and> au_tool_name e = tool
     \<and> au_args_fingerprint e = fingerprint ser tool args
     \<and> st' = st\<lparr>ss_auth := (ss_auth st)(scope_key sc := None)\<rparr>"
  using assms by (auto simp: is_granted_def split: option.splits if_splits)

lemma is_granted_False: "is_granted ser sc tool args st = (False, st') \<Longrightarrow> st' = st"
  by (auto simp: is_granted_def split: option.splits if_splits)

text \<open>
  an authorization is for one call and is used once: it is honoured exactly when a pending
  entry for this tool and these arguments (in their serialised form) was granted, honouring it
  removes it, so that asking again is refused, and an ungranted or different entry stays as it is.
\<close>

theorem authorization_one_shot:
  "(fst (is_granted ser sc tool args st) \<longleftrightarrow>
      (\<exists>e. ss_auth st (scope_key sc) = Some e \<and> au_granted e \<and> au_tool_name e = tool
         \<and> au_args_fingerprint e = fingerprint ser tool args))
   \<and> fst (is_granted ser sc tool' args' (set_pending ser sc tool args st)) = False
   \<and> (let (g, st') = is_granted ser sc tool args st in
        if g then fst (is_granted ser sc tool' args' st') = False else st' = st)"
  by (auto simp: is_granted_def set_pending_def split: option.splits)



subsection \<open>Postconditions\<close>

lemma run_one_ok: "fst (run_one sh cmd cwd) \<longleftrightarrow> (\<exists>out err. sh cmd cwd = Exited (Some 0) out err)"
  by (auto simp: run_one_def Let_def split: proc_result.splits)

lemma run_one_kind:
  "run_one sh cmd cwd = (ok, kind, detail) \<Longrightarrow> \<not> ok \<Longrightarrow> kind = PcAssertionFailed \<or> kind = PcEnvError"
  by (auto simp: run_one_def Let_def split: proc_result.splits if_splits)

lemma run_pcs_zero:
  "run_pcs sh cwd pcs rs f e = (rs', f', e') \<Longrightarrow>
   f' = 0 \<and> e' = 0 \<longleftrightarrow>
   f = 0 \<and> e = 0 \<and> list_all (\<lambda>pc. trim (pc_cmd pc) = [] \<or> fst (run_one sh (pc_cmd pc) cwd)) pcs"
proof (induction sh cwd pcs rs f e rule: run_pcs.induct)
  case (2 sh cwd pc pcs rs f e)
  show ?case
  proof (cases "trim (pc_cmd pc) = []")
    case True
    with 2 show ?thesis by simp
  next
    case False
    obtain ok kind detail where r: "run_one sh (pc_cmd pc) cwd = (ok, kind, detail)" by (metis prod_cases3)
    have ih: "f' = 0 \<and> e' = 0 \<longleftrightarrow>
        (if \<not> ok \<and> kind = PcAssertionFailed then Suc f else f) = 0
        \<and> (if \<not> ok \<and> kind = PcEnvError then Suc e else e) = 0
        \<and> list_all (\<lambda>pc. trim (pc_cmd pc) = [] \<or> fst (run_one sh (pc_cmd pc) cwd)) pcs"
      by (rule "2.IH" (2) [OF False r [symmetric] refl]) (use "2.prems" False r in simp)
    show ?thesis
      unfolding ih using False r run_one_kind [OF r] by (cases ok) auto
  qed
qed auto

text \<open>
  verification passes exactly when every postcondition that has a command ran to exit status
  zero; a command that could not start, timed out, was killed or failed for any reason fails it.
\<close>

theorem postconditions_pass_iff:
  "prun_passed (run_postconditions sh pcs cwd) \<longleftrightarrow>
     list_all (\<lambda>pc. trim (pc_cmd pc) = [] \<or> (\<exists>out err. sh (pc_cmd pc) cwd = Exited (Some 0) out err)) pcs"
proof -
  obtain rs f e where r: "run_pcs sh cwd pcs [] 0 0 = (rs, f, e)" by (metis prod_cases3)
  then show ?thesis
    using run_pcs_zero [OF r] by (simp add: run_postconditions_def run_one_ok)
qed

subsection \<open>Denials\<close>

lemma best_match_ge:
  "best_match tc toks k is (b, bi) = (s, i) \<Longrightarrow>
   b \<le> s \<and> (bi \<noteq> None \<longrightarrow> i \<noteq> None) \<and> (b < s \<longrightarrow> i \<noteq> None)
   \<and> (\<forall>d \<in> set is. dc_tool_class d = tc \<longrightarrow> jaccard toks (dc_tokens d) \<le> s)"
proof (induction "is" arbitrary: k b bi)
  case (Cons d "is")
  show ?case
  proof (cases "dc_tool_class d = tc \<and> jaccard toks (dc_tokens d) > b")
    case True
    with Cons.prems have "best_match tc toks (Suc k) is (jaccard toks (dc_tokens d), Some k) = (s, i)" by simp
    from Cons.IH [OF this] True show ?thesis by auto
  next
    case False
    with Cons.prems have "best_match tc toks (Suc k) is (b, bi) = (s, i)" by (auto simp: Let_def split: if_splits)
    from Cons.IH [OF this] False show ?thesis by fastforce
  qed
qed simp

lemma jaccard_self: "finite a \<Longrightarrow> a \<noteq> {} \<Longrightarrow> jaccard a a = 1"
  by (simp add: jaccard_def)

lemma record_denied_bound:
  "length (the (ss_denied (record_denied ser now sc tool args t st) (scope_key sc)))
     \<le> max MAX_DENIED (length (case ss_denied st (scope_key sc) of Some xs \<Rightarrow> xs | None \<Rightarrow> []))"
proof -
  let ?items = "case ss_denied st (scope_key sc) of Some xs \<Rightarrow> xs | None \<Rightarrow> []"
  define l where "l = length (filter (\<lambda>i. now - dc_at i < DENIED_TTL) ?items)"
  have "l \<le> length ?items" unfolding l_def by (rule length_filter_le)
  then show ?thesis
    by (auto simp: record_denied_def Let_def MAX_DENIED_def l_def [symmetric] max_def)
qed

text \<open>
  retrying a denied call unchanged is reported as friction: within the time window, whatever
  other denials were recorded before, the executed call is matched with score one and classified as
  a friction denial.
\<close>

theorem denied_retry_friction:
  assumes "norm_tokens (call_text ser tool args) \<noteq> {}" "now' - now < DENIED_TTL"
  shows "\<exists>secs. fst (match_executed ser now' sc tool args t' (record_denied ser now sc tool args t st))
           = Some (FrictionDenial secs)"
proof -
  let ?toks = "norm_tokens (call_text ser tool args)"
  define st1 where "st1 = record_denied ser now sc tool args t st"
  obtain xs where xs: "ss_denied st1 (scope_key sc) = Some (xs @ [\<lparr>dc_at = now,
      dc_tool_class = tool_class tool, dc_tier = t, dc_tokens = ?toks\<rparr>])" (is "_ = Some (xs @ [?d])")
    by (simp add: st1_def record_denied_def Let_def)
  define live where "live = filter (\<lambda>i. now' - dc_at i < DENIED_TTL) (xs @ [?d])"
  obtain s i where b: "best_match (tool_class tool) ?toks 0 live (0, None) = (s, i)" by fastforce
  have "?d \<in> set live" using assms(2) by (simp add: live_def)
  then have "1 \<le> s"
    using best_match_ge [OF b] jaccard_self [of ?toks] assms(1) by (fastforce simp: norm_tokens_def)
  moreover from this obtain k where "i = Some k" using best_match_ge [OF b] by fastforce
  ultimately show ?thesis
    using xs b unfolding st1_def [symmetric] live_def by (auto simp: match_executed_def Let_def)
qed

theorem denied_retry_friction_witness:
  "\<exists>secs. fst (match_executed (\<lambda>_. None) 2000 (MessageScope ''c'' ''a'' ''m'') ''bash'' JNull 2
     (record_denied (\<lambda>_. None) 1000 (MessageScope ''c'' ''a'' ''m'') ''bash'' JNull 2 state_init))
   = Some (FrictionDenial secs)"
proof (rule denied_retry_friction)
  have "''bash'' \<in> norm_tokens (call_text (\<lambda>_. None) ''bash'' JNull)"
    by code_simp
  then show "norm_tokens (call_text (\<lambda>_. None) ''bash'' JNull) \<noteq> {}" by blast
qed (simp add: DENIED_TTL_def)

end
