(* ===== verification/Effect_Bus.thy ===== *)
theory Effect_Bus
  imports Semiotic_Stores
begin

text \<open>
  The effect bus, \<^verbatim>\<open>crates/baml-rt-core/src/bus.rs\<close>: effect events and their start tokens, the
  envelope bus, and the bus that also counts the effects in flight per context.  Subscribers are
  functions over a world \<open>'m\<close>; a subscriber that the code spawns on a task of its own is queued in the
  bus.  The theorems relate the saturating counters to the number of unfinished effects and show
  what a failing subscriber does.
\<close>

subsection \<open>Events\<close>

datatype outcome = Success | Failure

datatype effect_kind = KTool | KLlm | KA2a

record tool_effect_metadata =
  tem_tool_name :: string
  tem_function_name :: "string option"
  tem_args :: json
  tem_metadata :: json
  tem_delegation_target :: "string option"
  tem_tool_backend :: "string option"
  tem_tool_digest :: "string option"

datatype tool_name_resolution = FromManifest string | FromPayload string | NotApplicable

definition as_tool_name :: "tool_name_resolution \<Rightarrow> string option" where
  "as_tool_name r = (case r of FromManifest s \<Rightarrow> Some s | FromPayload s \<Rightarrow> Some s | NotApplicable \<Rightarrow> None)"

record llm_effect_metadata =
  lem_client :: string
  lem_model :: string
  lem_function_name :: string
  lem_prompt :: json
  lem_metadata :: json
  lem_tool_name :: tool_name_resolution

definition tool_has_message_id :: "tool_effect_metadata \<Rightarrow> bool" where
  "tool_has_message_id m \<longleftrightarrow> Option.bind (json_get (tem_metadata m) ''message_id'') as_str \<noteq> None"

definition llm_has_message_id :: "llm_effect_metadata \<Rightarrow> bool" where
  "llm_has_message_id m \<longleftrightarrow> Option.bind (json_get (lem_metadata m) ''message_id'') as_str \<noteq> None"

datatype a2a_liveness_role = RoleCommand | RoleEffect

datatype planning_supersession_kind = ReplacedBy | RefinedBy

record a2a_effect_metadata =
  aem_agent_id :: string
  aem_method :: string
  aem_request_id :: "string option"
  aem_liveness_role :: a2a_liveness_role
  aem_metadata :: json

datatype session_step_op =
    StepOpen
  | StepSendDone string string string
  | StepSearchRead string string nat nat
  | StepPageRead string nat nat

datatype llm_usage = Known nat nat nat "nat option" | UsageUnknown

datatype context_history_settlement_kind = ChatStream | HostDispatch

type_synonym citation = string

datatype effect_event =
    ToolStarted string tool_effect_metadata
  | ToolCompleted string tool_effect_metadata nat outcome "json option"
  | LlmStarted string llm_effect_metadata
  | LlmCompleted string llm_effect_metadata "llm_usage option" "json option" nat outcome "string option"
  | A2aStarted string a2a_effect_metadata
  | A2aCompleted string a2a_effect_metadata nat outcome
  | IntentResolved string string string string "citation list" "planning_supersession_kind option" "nat option"
  | PlanGenerated string string string string json "planning_supersession_kind option" "nat option"
  | PlanStepStatusChanged string string string string string "string option" string "citation list" "nat option"
  | ToolStreamChunk string json
  | ToolSessionStep string string string session_step_op "string option"
  | ContextHistorySettled string string context_history_settlement_kind "string option"

fun event_kind :: "effect_event \<Rightarrow> effect_kind" where
  "event_kind (ToolStarted _ _) = KTool"
| "event_kind (ToolCompleted _ _ _ _ _) = KTool"
| "event_kind (ToolStreamChunk _ _) = KTool"
| "event_kind (ToolSessionStep _ _ _ _ _) = KTool"
| "event_kind (LlmStarted _ _) = KLlm"
| "event_kind (LlmCompleted _ _ _ _ _ _ _) = KLlm"
| "event_kind (A2aStarted _ _) = KA2a"
| "event_kind (A2aCompleted _ _ _ _) = KA2a"
| "event_kind (ContextHistorySettled _ _ _ _) = KA2a"
| "event_kind (IntentResolved _ _ _ _ _ _ _) = KA2a"
| "event_kind (PlanGenerated _ _ _ _ _ _ _) = KA2a"
| "event_kind (PlanStepStatusChanged _ _ _ _ _ _ _ _ _) = KA2a"

fun event_context_id :: "effect_event \<Rightarrow> string" where
  "event_context_id (ToolStarted c _) = c"
| "event_context_id (ToolCompleted c _ _ _ _) = c"
| "event_context_id (ToolStreamChunk c _) = c"
| "event_context_id (ToolSessionStep c _ _ _ _) = c"
| "event_context_id (LlmStarted c _) = c"
| "event_context_id (LlmCompleted c _ _ _ _ _ _) = c"
| "event_context_id (A2aStarted c _) = c"
| "event_context_id (A2aCompleted c _ _ _) = c"
| "event_context_id (ContextHistorySettled c _ _ _) = c"
| "event_context_id (IntentResolved c _ _ _ _ _ _) = c"
| "event_context_id (PlanGenerated c _ _ _ _ _ _) = c"
| "event_context_id (PlanStepStatusChanged c _ _ _ _ _ _ _ _) = c"

subsection \<open>Effects in flight\<close>

definition sat_inc :: "32 word \<Rightarrow> 32 word" where
  "sat_inc w = (if w = - 1 then w else w + 1)"

definition sat_dec :: "32 word \<Rightarrow> 32 word" where
  "sat_dec w = (if w = 0 then 0 else w - 1)"

record in_flight_counts =
  ifc_tool :: "32 word"
  ifc_llm :: "32 word"
  ifc_a2a :: "32 word"
  ifc_a2a_command :: "32 word"

definition in_flight_default :: in_flight_counts where
  "in_flight_default = \<lparr>ifc_tool = 0, ifc_llm = 0, ifc_a2a = 0, ifc_a2a_command = 0\<rparr>"

definition in_flight_any :: "in_flight_counts \<Rightarrow> bool" where
  "in_flight_any e \<longleftrightarrow> ifc_tool e > 0 \<or> ifc_llm e > 0 \<or> ifc_a2a e > 0 \<or> ifc_a2a_command e > 0"

definition has_progress_effects :: "in_flight_counts \<Rightarrow> bool" where
  "has_progress_effects e \<longleftrightarrow> ifc_tool e > 0 \<or> ifc_llm e > 0 \<or> ifc_a2a e > 0"

fun adjust_counts :: "effect_event \<Rightarrow> in_flight_counts \<Rightarrow> in_flight_counts" where
  "adjust_counts (ToolStarted _ _) e = e\<lparr>ifc_tool := sat_inc (ifc_tool e)\<rparr>"
| "adjust_counts (LlmStarted _ _) e = e\<lparr>ifc_llm := sat_inc (ifc_llm e)\<rparr>"
| "adjust_counts (A2aStarted _ m) e =
     (case aem_liveness_role m of
        RoleCommand \<Rightarrow> e\<lparr>ifc_a2a_command := sat_inc (ifc_a2a_command e)\<rparr>
      | RoleEffect \<Rightarrow> e\<lparr>ifc_a2a := sat_inc (ifc_a2a e)\<rparr>)"
| "adjust_counts (ToolCompleted _ _ _ _ _) e = e\<lparr>ifc_tool := sat_dec (ifc_tool e)\<rparr>"
| "adjust_counts (LlmCompleted _ _ _ _ _ _ _) e = e\<lparr>ifc_llm := sat_dec (ifc_llm e)\<rparr>"
| "adjust_counts (A2aCompleted _ m _ _) e =
     (case aem_liveness_role m of
        RoleCommand \<Rightarrow> e\<lparr>ifc_a2a_command := sat_dec (ifc_a2a_command e)\<rparr>
      | RoleEffect \<Rightarrow> e\<lparr>ifc_a2a := sat_dec (ifc_a2a e)\<rparr>)"
| "adjust_counts _ e = e"

subsection \<open>Subscribers, envelopes and the bus\<close>

datatype effect_subscriber_tier = Awaitable | Background

record 'm effect_subscriber =
  es_name :: string
  es_on_effect :: "effect_event \<Rightarrow> 'm \<Rightarrow> unit res \<times> 'm"
  es_tier :: effect_subscriber_tier

record bus_command =
  cmd_name :: string
  cmd_metadata :: json
  cmd_input :: json

record domain_event =
  de_name :: string
  de_metadata :: json
  de_output :: json
  de_terminal :: bool

datatype payload = PCommand bus_command | PDomainEvent domain_event | PEffect effect_event

record envelope =
  env_scope :: "runtime_scope option"
  env_correlation_id :: "string option"
  env_timestamp_ms :: nat
  env_payload :: payload

text \<open>A stream is an unbounded channel: what was sent, and whether its receiver is gone.\<close>

record bus_channel =
  ch_items :: "envelope list"
  ch_closed :: bool

record 'm bus_with_effects =
  bus_subscribers :: "(envelope \<Rightarrow> 'm \<Rightarrow> unit res \<times> 'm) list"
  bus_streams :: "bus_channel list"
  bus_counts :: "string \<Rightarrow> in_flight_counts option"
  bus_effect_subscribers :: "'m effect_subscriber list"
  bus_spawned :: "('m effect_subscriber \<times> effect_event) list"
  bus_world :: 'm

definition bus_new :: "'m \<Rightarrow> 'm bus_with_effects" where
  "bus_new w = \<lparr>bus_subscribers = [], bus_streams = [], bus_counts = Map.empty,
                bus_effect_subscribers = [], bus_spawned = [], bus_world = w\<rparr>"

definition subscribe_effect :: "'m effect_subscriber \<Rightarrow> 'm bus_with_effects \<Rightarrow> 'm bus_with_effects" where
  "subscribe_effect s b = b\<lparr>bus_effect_subscribers := bus_effect_subscribers b @ [s]\<rparr>"

definition subscribe ::
  "(envelope \<Rightarrow> 'm \<Rightarrow> unit res \<times> 'm) \<Rightarrow> 'm bus_with_effects \<Rightarrow> 'm bus_with_effects" where
  "subscribe s b = b\<lparr>bus_subscribers := bus_subscribers b @ [s]\<rparr>"

definition bus_stream :: "'m bus_with_effects \<Rightarrow> 'm bus_with_effects" where
  "bus_stream b = b\<lparr>bus_streams := bus_streams b @ [\<lparr>ch_items = [], ch_closed = False\<rparr>]\<rparr>"

fun notify_envelope ::
  "(envelope \<Rightarrow> 'm \<Rightarrow> unit res \<times> 'm) list \<Rightarrow> envelope \<Rightarrow> 'm \<Rightarrow> unit res \<times> 'm" where
  "notify_envelope [] env w = (Ok (), w)"
| "notify_envelope (s # ss) env w =
     (case s env w of (Inl e, w') \<Rightarrow> (Err e, w') | (Inr _, w') \<Rightarrow> notify_envelope ss env w')"

definition channel_send :: "envelope \<Rightarrow> bus_channel \<Rightarrow> bus_channel" where
  "channel_send env ch = (if ch_closed ch then ch else ch\<lparr>ch_items := ch_items ch @ [env]\<rparr>)"

definition bus_emit :: "envelope \<Rightarrow> 'm bus_with_effects \<Rightarrow> unit res \<times> 'm bus_with_effects" where
  "bus_emit env b =
     (case notify_envelope (bus_subscribers b) env (bus_world b) of
        (Inl e, w) \<Rightarrow> (Err e, b\<lparr>bus_world := w\<rparr>)
      | (Inr _, w) \<Rightarrow>
          (Ok (), b\<lparr>bus_world := w,
                    bus_streams := filter (\<lambda>ch. \<not> ch_closed ch) (map (channel_send env) (bus_streams b))\<rparr>))"

fun notify_effect :: "'m effect_subscriber list \<Rightarrow> effect_event \<Rightarrow> 'm \<Rightarrow> 'm" where
  "notify_effect [] ev w = w"
| "notify_effect (s # ss) ev w = notify_effect ss ev (snd (es_on_effect s ev w))"

definition count_effect ::
  "effect_event \<Rightarrow> (string \<Rightarrow> in_flight_counts option) \<Rightarrow> (string \<Rightarrow> in_flight_counts option)" where
  "count_effect ev counts =
     (let c = event_context_id ev;
          e = adjust_counts ev (case counts c of Some x \<Rightarrow> x | None \<Rightarrow> in_flight_default)
      in counts(c := (if in_flight_any e then Some e else None)))"

definition runs_tiered :: "effect_event \<Rightarrow> bool" where
  "runs_tiered ev =
     (case ev of LlmCompleted _ _ _ _ _ _ _ \<Rightarrow> True | ContextHistorySettled _ _ _ _ \<Rightarrow> True | _ \<Rightarrow> False)"

definition process_effect_inner :: "effect_event \<Rightarrow> 'm bus_with_effects \<Rightarrow> 'm bus_with_effects" where
  "process_effect_inner ev b =
     (let b1 = b\<lparr>bus_counts := count_effect ev (bus_counts b)\<rparr>;
          subs = bus_effect_subscribers b
      in if runs_tiered ev
         then b1\<lparr>bus_spawned := bus_spawned b
                    @ map (\<lambda>s. (s, ev)) (filter (\<lambda>s. es_tier s = Background) subs),
                 bus_world := notify_effect (filter (\<lambda>s. es_tier s = Awaitable) subs) ev (bus_world b)\<rparr>
         else b1\<lparr>bus_world := notify_effect subs ev (bus_world b)\<rparr>)"

text \<open>\<^verbatim>\<open>process_effect\<close> wraps the call in telemetry and always returns \<^verbatim>\<open>Ok\<close>.\<close>

definition emit ::
  "nat \<Rightarrow> string option \<Rightarrow> effect_event \<Rightarrow> 'm bus_with_effects \<Rightarrow> unit res \<times> 'm bus_with_effects" where
  "emit now corr ev b =
     bus_emit \<lparr>env_scope = None, env_correlation_id = corr, env_timestamp_ms = now, env_payload = PEffect ev\<rparr>
       (process_effect_inner ev b)"

definition in_flight :: "string \<Rightarrow> 'm bus_with_effects \<Rightarrow> in_flight_counts" where
  "in_flight c b = (case bus_counts b c of Some e \<Rightarrow> e | None \<Rightarrow> in_flight_default)"

text \<open>A spawned subscriber runs at any later moment.\<close>

definition run_spawned_subscriber :: "'m bus_with_effects \<Rightarrow> 'm bus_with_effects" where
  "run_spawned_subscriber b =
     (case bus_spawned b of
        [] \<Rightarrow> b
      | (s, ev) # rest \<Rightarrow> b\<lparr>bus_spawned := rest, bus_world := snd (es_on_effect s ev (bus_world b))\<rparr>)"

subsection \<open>Emitters and start tokens\<close>

type_synonym 'b emitter = "effect_event \<Rightarrow> 'b \<Rightarrow> unit res \<times> 'b"

datatype 'a start_token = StartToken string 'a

definition start_tool ::
  "'b emitter \<Rightarrow> string \<Rightarrow> tool_effect_metadata \<Rightarrow> 'b \<Rightarrow> tool_effect_metadata start_token res \<times> 'b" where
  "start_tool em c m b =
     (case em (ToolStarted c m) b of
        (Inl e, b') \<Rightarrow> (Err e, b') | (Inr _, b') \<Rightarrow> (Ok (StartToken c m), b'))"

definition start_llm ::
  "'b emitter \<Rightarrow> string \<Rightarrow> llm_effect_metadata \<Rightarrow> 'b \<Rightarrow> llm_effect_metadata start_token res \<times> 'b" where
  "start_llm em c m b =
     (case em (LlmStarted c m) b of
        (Inl e, b') \<Rightarrow> (Err e, b') | (Inr _, b') \<Rightarrow> (Ok (StartToken c m), b'))"

definition start_a2a ::
  "'b emitter \<Rightarrow> string \<Rightarrow> a2a_effect_metadata \<Rightarrow> 'b \<Rightarrow> a2a_effect_metadata start_token res \<times> 'b" where
  "start_a2a em c m b =
     (case em (A2aStarted c m) b of
        (Inl e, b') \<Rightarrow> (Err e, b') | (Inr _, b') \<Rightarrow> (Ok (StartToken c m), b'))"

fun complete_tool ::
  "'b emitter \<Rightarrow> tool_effect_metadata start_token \<Rightarrow> nat \<Rightarrow> outcome \<Rightarrow> json option \<Rightarrow> 'b \<Rightarrow> unit res \<times> 'b" where
  "complete_tool em (StartToken c m) d out res b = em (ToolCompleted c m d out res) b"

definition extract_tool_name :: "json \<Rightarrow> string option" where
  "extract_tool_name p =
     (case as_object p of
        None \<Rightarrow> None
      | Some obj \<Rightarrow>
          (case Option.bind (obj_get obj ''tool_name'') as_str of
             Some n \<Rightarrow> Some n
           | None \<Rightarrow>
               (case Option.bind (Option.bind (obj_get obj ''step'') (\<lambda>s. json_get s ''tool_name'')) as_str of
                  Some n \<Rightarrow> Some n
                | None \<Rightarrow>
                    (case obj of
                       [(k, inner)] \<Rightarrow> Option.bind (json_get inner ''tool_name'') as_str
                     | _ \<Rightarrow> None))))"

fun complete_llm ::
  "'b emitter \<Rightarrow> llm_effect_metadata start_token \<Rightarrow> llm_usage option \<Rightarrow> json option \<Rightarrow> nat \<Rightarrow> outcome
   \<Rightarrow> string option \<Rightarrow> 'b \<Rightarrow> unit res \<times> 'b" where
  "complete_llm em (StartToken c m) usage res d out reason b =
     (let m' = (case (lem_tool_name m, Option.bind res extract_tool_name) of
                  (NotApplicable, Some n) \<Rightarrow> m\<lparr>lem_tool_name := FromPayload n\<rparr>
                | _ \<Rightarrow> m)
      in em (LlmCompleted c m' usage res d out reason) b)"

fun complete_a2a ::
  "'b emitter \<Rightarrow> a2a_effect_metadata start_token \<Rightarrow> nat \<Rightarrow> outcome \<Rightarrow> 'b \<Rightarrow> unit res \<times> 'b" where
  "complete_a2a em (StartToken c m) d out b = em (A2aCompleted c m d out) b"

definition emit_context_history_settled ::
  "'b emitter \<Rightarrow> string \<Rightarrow> string \<Rightarrow> context_history_settlement_kind \<Rightarrow> string option \<Rightarrow> 'b \<Rightarrow> 'b" where
  "emit_context_history_settled em c a k f b = snd (em (ContextHistorySettled c a k f) b)"

subsection \<open>Counters\<close>

lemma unat_sat_inc: "unat (sat_inc w) = (if w = - 1 then unat w else unat w + 1)"
proof (cases "w = - 1")
  case False
  then have "1 + w \<noteq> 0" by (metis add_eq_0_iff)
  then show ?thesis using False by (simp add: sat_inc_def unatSuc add.commute [of w 1])
qed (simp add: sat_inc_def)

lemma unat_sat_dec: "unat (sat_dec w) = unat w - 1"
  by (simp add: sat_dec_def unat_minus_one)

lemma full_iff: "(w :: 32 word) = - 1 \<longleftrightarrow> unat w = 2 ^ 32 - 1"
  using word_unat_eq_iff [of w "- 1"] by (simp add: unsigned_minus_1_eq_mask mask_eq_exp_minus_1)

text \<open>The four counters of a context, and the events that raise and lower them.\<close>

datatype flight = InTool | InLlm | InA2a | InCommand

fun flight_count :: "flight \<Rightarrow> in_flight_counts \<Rightarrow> 32 word" where
  "flight_count InTool e = ifc_tool e"
| "flight_count InLlm e = ifc_llm e"
| "flight_count InA2a e = ifc_a2a e"
| "flight_count InCommand e = ifc_a2a_command e"

fun begins :: "flight \<Rightarrow> string \<Rightarrow> effect_event \<Rightarrow> bool" where
  "begins k c (ToolStarted c' _) \<longleftrightarrow> k = InTool \<and> c' = c"
| "begins k c (LlmStarted c' _) \<longleftrightarrow> k = InLlm \<and> c' = c"
| "begins k c (A2aStarted c' m) \<longleftrightarrow>
     c' = c \<and> k = (case aem_liveness_role m of RoleCommand \<Rightarrow> InCommand | RoleEffect \<Rightarrow> InA2a)"
| "begins k c _ \<longleftrightarrow> False"

fun completes :: "flight \<Rightarrow> string \<Rightarrow> effect_event \<Rightarrow> bool" where
  "completes k c (ToolCompleted c' _ _ _ _) \<longleftrightarrow> k = InTool \<and> c' = c"
| "completes k c (LlmCompleted c' _ _ _ _ _ _) \<longleftrightarrow> k = InLlm \<and> c' = c"
| "completes k c (A2aCompleted c' m _ _) \<longleftrightarrow>
     c' = c \<and> k = (case aem_liveness_role m of RoleCommand \<Rightarrow> InCommand | RoleEffect \<Rightarrow> InA2a)"
| "completes k c _ \<longleftrightarrow> False"

definition unfinished :: "flight \<Rightarrow> string \<Rightarrow> 'm bus_with_effects \<Rightarrow> nat" where
  "unfinished k c b = unat (flight_count k (in_flight c b))"

lemma any_iff: "in_flight_any e \<longleftrightarrow> (\<exists>k. flight_count k e \<noteq> 0)"
proof -
  have "(\<exists>k. flight_count k e \<noteq> 0) \<longleftrightarrow> flight_count InTool e \<noteq> 0 \<or> flight_count InLlm e \<noteq> 0
      \<or> flight_count InA2a e \<noteq> 0 \<or> flight_count InCommand e \<noteq> 0"
    by (metis flight.exhaust)
  then show ?thesis by (simp add: in_flight_any_def word_gt_0)
qed

lemma default_count [simp]: "flight_count k in_flight_default = 0"
  by (cases k) (simp_all add: in_flight_default_def)

lemma adjust_count:
  "flight_count k (adjust_counts ev e) =
     (if begins k (event_context_id ev) ev then sat_inc (flight_count k e)
      else if completes k (event_context_id ev) ev then sat_dec (flight_count k e) else flight_count k e)"
  by (cases ev; cases k) (auto split: a2a_liveness_role.split)

lemma begins_context: "begins k c ev \<Longrightarrow> event_context_id ev = c"
  by (cases ev) auto

lemma completes_context: "completes k c ev \<Longrightarrow> event_context_id ev = c"
  by (cases ev) auto

lemma bus_emit_counts [simp]: "bus_counts (snd (bus_emit env b)) = bus_counts b"
  by (auto simp: bus_emit_def split: prod.split sum.split)

lemma emit_counts [simp]: "bus_counts (snd (emit now corr ev b)) = count_effect ev (bus_counts b)"
  by (simp add: emit_def process_effect_inner_def Let_def)

lemma count_after:
  "flight_count k (case count_effect ev counts c of Some e \<Rightarrow> e | None \<Rightarrow> in_flight_default) =
     (let n = flight_count k (case counts c of Some e \<Rightarrow> e | None \<Rightarrow> in_flight_default)
      in if begins k c ev then sat_inc n else if completes k c ev then sat_dec n else n)"
proof (cases "event_context_id ev = c")
  case True
  let ?e = "adjust_counts ev (case counts c of Some e \<Rightarrow> e | None \<Rightarrow> in_flight_default)"
  have "flight_count k (case count_effect ev counts c of Some e \<Rightarrow> e | None \<Rightarrow> in_flight_default)
      = flight_count k ?e"
    using True any_iff [of ?e] by (simp add: count_effect_def Let_def)
  with True show ?thesis by (simp add: adjust_count Let_def)
next
  case False
  then have "\<not> begins k c ev" "\<not> completes k c ev"
    using begins_context completes_context by blast+
  with False show ?thesis by (simp add: count_effect_def Let_def)
qed

lemma unat_sat_inc_min: "unat (sat_inc w) = min (unat w + 1) (2 ^ 32 - 1)"
proof -
  have b: "unat w < 2 ^ 32" using unsigned_less [of w] by simp
  show ?thesis
  proof (cases "w = - 1")
    case True
    then have "unat w = 2 ^ 32 - 1" using full_iff by blast
    then show ?thesis using True by (simp add: unat_sat_inc)
  next
    case False
    then have "unat w \<noteq> 2 ^ 32 - 1" using full_iff by blast
    with b have "unat w + 1 \<le> 2 ^ 32 - 1" by linarith
    then show ?thesis using False by (simp only: unat_sat_inc if_False min.absorb1)
  qed
qed

lemma unfinished_emit:
  "unfinished k c (snd (emit now corr ev b)) =
     (if begins k c ev then min (unfinished k c b + 1) (2 ^ 32 - 1)
      else if completes k c ev then unfinished k c b - 1 else unfinished k c b)"
  by (simp add: unfinished_def in_flight_def count_after Let_def unat_sat_dec unat_sat_inc_min)

text \<open>
  The ledger of a run: how many effects of a kind a context has begun and not completed, counted
  with unbounded numbers; a completion without a start is ignored.
\<close>

fun ledger :: "flight \<Rightarrow> string \<Rightarrow> effect_event list \<Rightarrow> nat \<Rightarrow> nat" where
  "ledger k c [] n = n"
| "ledger k c (ev # evs) n =
     ledger k c evs (if begins k c ev then n + 1 else if completes k c ev then n - 1 else n)"

abbreviation emit_all :: "nat \<Rightarrow> string option \<Rightarrow> effect_event list \<Rightarrow> 'm bus_with_effects \<Rightarrow> 'm bus_with_effects" where
  "emit_all now corr \<equiv> run_steps (\<lambda>ev b. snd (emit now corr ev b))"

lemma emit_all_ledger:
  "unfinished k c b + length evs < 2 ^ 32 \<Longrightarrow>
   unfinished k c (emit_all now corr evs b) = ledger k c evs (unfinished k c b)"
proof (induction evs arbitrary: b)
  case (Cons ev evs)
  let ?b = "snd (emit now corr ev b)"
  have "unfinished k c ?b =
      (if begins k c ev then unfinished k c b + 1
       else if completes k c ev then unfinished k c b - 1 else unfinished k c b)"
    using Cons.prems by (simp add: unfinished_emit)
  moreover from this have "unfinished k c ?b + length evs < 2 ^ 32"
    using Cons.prems by (simp split: if_splits)
  ultimately show ?case using Cons.IH [of ?b] by simp
qed simp

definition counts_canonical :: "'m bus_with_effects \<Rightarrow> bool" where
  "counts_canonical b \<longleftrightarrow> (\<forall>c e. bus_counts b c = Some e \<longrightarrow> in_flight_any e)"

lemma canonical_emit: "counts_canonical b \<Longrightarrow> counts_canonical (snd (emit now corr ev b))"
  by (auto simp: counts_canonical_def count_effect_def Let_def)

lemma canonical_emit_all: "counts_canonical b \<Longrightarrow> counts_canonical (emit_all now corr evs b)"
  by (induction evs arbitrary: b) (simp_all add: canonical_emit)

lemma canonical_absent:
  "counts_canonical b \<Longrightarrow> bus_counts b c = None \<longleftrightarrow> (\<forall>k. unfinished k c b = 0)"
  unfolding counts_canonical_def unfinished_def in_flight_def
  by (cases "bus_counts b c") (auto simp: any_iff unat_eq_zero)

text \<open>
  C10: the saturating 32-bit counters of the bus implement the unbounded ledger.  On any run of at
  most \<open>2\<^sup>3\<^sup>2 - 1\<close> effects from a fresh bus, with any subscribers and whatever they return, each
  counter of each context is the number of effects begun and not completed, and the context has an
  entry exactly when some effect of it is unfinished.
\<close>

theorem in_flight_refines_ledger:
  assumes "length evs < 2 ^ 32" "bus_counts b = Map.empty"
  shows "unfinished k c (emit_all now corr evs b) = ledger k c evs 0
    \<and> (bus_counts (emit_all now corr evs b) c = None \<longleftrightarrow> (\<forall>k. ledger k c evs 0 = 0))"
proof -
  have z: "unfinished k c b = 0" for k
    using assms(2) by (simp add: unfinished_def in_flight_def)
  then have l: "unfinished k c (emit_all now corr evs b) = ledger k c evs 0" for k
    using emit_all_ledger [of k c b evs now corr] assms(1) by simp
  moreover have "counts_canonical b" using assms(2) by (simp add: counts_canonical_def)
  ultimately show ?thesis using canonical_absent [OF canonical_emit_all] by metis
qed

definition probe_metadata :: tool_effect_metadata where
  "probe_metadata = \<lparr>tem_tool_name = ''support/calculate'', tem_function_name = None, tem_args = JNull,
     tem_metadata = JObject [], tem_delegation_target = None, tem_tool_backend = None, tem_tool_digest = None\<rparr>"

theorem in_flight_refines_ledger_witness:
  "unfinished InTool ''c'' (emit_all 0 None [ToolStarted ''c'' probe_metadata, ToolStarted ''c'' probe_metadata,
     ToolCompleted ''c'' probe_metadata 5 Success None] (bus_new ())) = 1"
  using in_flight_refines_ledger
    [of "[ToolStarted ''c'' probe_metadata, ToolStarted ''c'' probe_metadata,
          ToolCompleted ''c'' probe_metadata 5 Success None]" "bus_new ()" InTool "''c''" 0 None]
  by (simp add: bus_new_def)

subsection \<open>Failing subscribers\<close>

lemma emit_result:
  "fst (emit now corr ev b) =
     fst (notify_envelope (bus_subscribers b)
       \<lparr>env_scope = None, env_correlation_id = corr, env_timestamp_ms = now, env_payload = PEffect ev\<rparr>
       (bus_world (process_effect_inner ev b)))"
  by (auto simp: emit_def bus_emit_def process_effect_inner_def Let_def split: prod.split sum.split)

text \<open>
  an effect whose start is refused stays in flight.  The bus counts a start before it tells its
  envelope subscribers; when one of them fails the caller gets an error and no token, so it can never
  complete the effect and the context is one effect busier for ever.
\<close>

theorem refused_start_stays_in_flight:
  assumes "fst (start_tool (emit now corr) c m b) = Err e" "unfinished InTool c b + 1 < 2 ^ 32"
  shows "unfinished InTool c (snd (start_tool (emit now corr) c m b)) = unfinished InTool c b + 1"
proof -
  have "snd (start_tool (emit now corr) c m b) = snd (emit now corr (ToolStarted c m) b)"
    by (auto simp: start_tool_def split: prod.split sum.split)
  then show ?thesis using assms(2) by (simp add: unfinished_emit)
qed

theorem refused_start_stays_in_flight_witness:
  "let b = subscribe (\<lambda>env w. (Err (BamlRuntime ''down''), w)) (bus_new ());
       b' = snd (start_tool (emit 0 None) ''c'' probe_metadata b)
   in fst (start_tool (emit 0 None) ''c'' probe_metadata b) = Err (BamlRuntime ''down'')
      \<and> unfinished InTool ''c'' b' = 1"
proof -
  let ?b = "subscribe (\<lambda>env w. (Err (BamlRuntime ''down''), w)) (bus_new ())"
  have z: "unfinished InTool ''c'' ?b = 0"
    by (simp add: unfinished_def in_flight_def subscribe_def bus_new_def)
  have e: "fst (start_tool (emit 0 None) ''c'' probe_metadata ?b) = Err (BamlRuntime ''down'')"
    by (simp add: start_tool_def emit_def bus_emit_def process_effect_inner_def subscribe_def bus_new_def
        runs_tiered_def)
  show ?thesis using refused_start_stays_in_flight [OF e] z e by simp
qed

subsection \<open>Emitters that count\<close>

text \<open>
  What a client of an emitter relies on: tool effects are counted per context.  A client that
  starts an effect and completes the token it got leaves the count as it found it.
\<close>

locale effect_liveness =
  fixes em :: "'b emitter"
    and tools :: "string \<Rightarrow> 'b \<Rightarrow> nat"
  assumes started:
      "tools c b + 1 < 2 ^ 32 \<Longrightarrow> tools c' (snd (em (ToolStarted c m) b)) = tools c' b + (if c' = c then 1 else 0)"
    and completed:
      "tools c' (snd (em (ToolCompleted c m d out res) b)) = tools c' b - (if c' = c then 1 else 0)"
begin

lemma bracket_neutral:
  assumes "tools c b + 1 < 2 ^ 32" "start_tool em c m b = (Ok tok, b1)"
  shows "tools c' (snd (complete_tool em tok d out res b1)) = tools c' b"
proof -
  have "tok = StartToken c m" "b1 = snd (em (ToolStarted c m) b)"
    using assms(2) by (auto simp: start_tool_def split: prod.splits sum.splits)
  then show ?thesis using started [OF assms(1), of c' m] completed by simp
qed

end

interpretation bus_live: effect_liveness "emit now corr" "unfinished InTool"
proof
  show "unfinished InTool c' (snd (emit now corr (ToolStarted c m) b)) = unfinished InTool c' b + (if c' = c then 1 else 0)"
    if "unfinished InTool c b + 1 < 2 ^ 32" for c c' m and b :: "'m bus_with_effects"
    using that by (auto simp: unfinished_emit)
  show "unfinished InTool c' (snd (emit now corr (ToolCompleted c m d out res) b)) =
      unfinished InTool c' b - (if c' = c then 1 else 0)" for c c' m d out res and b :: "'m bus_with_effects"
    by (auto simp: unfinished_emit)
qed

end
