(* ===== verification/Tool_Session.thy ===== *)
theory Tool_Session
  imports Tool_Metadata
begin

text \<open>
  Tool sessions: the FSM primitives of \<^verbatim>\<open>crates/baml-rt-tools/src/tool_fsm.rs\<close> and the
  in-process sessions of \<^verbatim>\<open>tools.rs\<close> (\<^verbatim>\<open>OneShotSession\<close>, \<^verbatim>\<open>MultiSendSession\<close>, and the
  handlers that open them).  A tool's own code acts on a world \<open>'w\<close>; a session threads it.  The
  trait \<^verbatim>\<open>ToolSession\<close> is the locale \<open>tool_session\<close> over a table of operations, interpreted
  on the sessions the code builds.
\<close>

subsection \<open>Failures and steps\<close>

datatype tool_failure_kind = InvalidInput | ToolFailed | NotAuthorized | RateLimited | Cancelled | Unknown

record tool_failure =
  tf_kind :: tool_failure_kind
  tf_message :: string
  tf_retryability :: retryability
  tf_classified :: classified_tool_error

datatype session_phase = SessionOpen | SessionClosed

definition is_closed :: "session_phase \<Rightarrow> bool" where
  "is_closed p = (case p of SessionClosed \<Rightarrow> True | SessionOpen \<Rightarrow> False)"

definition failure_of_code ::
  "tool_failure_kind \<Rightarrow> string \<Rightarrow> error_disposition \<Rightarrow> string \<Rightarrow> tool_failure" where
  "failure_of_code kind c disposition message =
     (let classified = \<lparr>cte_code = c, cte_disposition = disposition, cte_message = message,
                        cte_hint = None, cte_retry_after_ms = None\<rparr>
      in \<lparr>tf_kind = kind, tf_message = message, tf_retryability = host_retryability classified,
          tf_classified = classified\<rparr>)"

definition invalid_input :: "string \<Rightarrow> tool_failure" where
  "invalid_input message = failure_of_code InvalidInput ''invalid_input'' LlmCorrectable message"

definition execution_failed :: "string \<Rightarrow> tool_failure" where
  "execution_failed message = failure_of_code ToolFailed ''execution_failed'' Fatal message"

definition tool_failure_kind_from :: "baml_error \<Rightarrow> tool_failure_kind" where
  "tool_failure_kind_from err =
     (case err of
        InvalidArgument _ \<Rightarrow> InvalidInput
      | InvalidArgumentWithSource _ _ \<Rightarrow> InvalidInput
      | QuickJs _ \<Rightarrow> ToolFailed
      | QuickJsWithSource _ _ \<Rightarrow> ToolFailed
      | ToolExecution _ \<Rightarrow> ToolFailed
      | ToolClassified c \<Rightarrow>
          (case cte_disposition c of
             HostRetriable \<Rightarrow> RateLimited
           | LlmCorrectable \<Rightarrow> InvalidInput
           | InformAndContinue \<Rightarrow> ToolFailed
           | Fatal \<Rightarrow> ToolFailed)
      | _ \<Rightarrow> Unknown)"

definition failure_from_classified :: "classified_tool_error \<Rightarrow> baml_error \<Rightarrow> tool_failure" where
  "failure_from_classified classified err =
     \<lparr>tf_kind = tool_failure_kind_from err, tf_message = cte_message classified,
      tf_retryability = host_retryability classified, tf_classified = classified\<rparr>"

definition failure_from_error :: "baml_error \<Rightarrow> tool_failure" where
  "failure_from_error err = failure_from_classified (from_baml_error err) err"

definition from_error_in_session ::
  "tool_execution_classifier option \<Rightarrow> baml_error \<Rightarrow> tool_failure" where
  "from_error_in_session classifier err =
     failure_from_classified (classify_for_session classifier err) err"

definition tool_failure_to_baml_tool_execution_error :: "tool_failure \<Rightarrow> baml_error" where
  "tool_failure_to_baml_tool_execution_error f = ToolClassified (tf_classified f)"

datatype tool_session_error = Transport baml_error | ToolErr tool_failure

datatype tool_step =
    StepStreaming json
  | StepSuspended json
  | StepDone "json option"
  | StepError tool_failure

definition map_session_error :: "tool_session_error \<Rightarrow> baml_error" where
  "map_session_error e =
     (case e of Transport err \<Rightarrow> err | ToolErr f \<Rightarrow> tool_failure_to_baml_tool_execution_error f)"

subsection \<open>Contexts, executors and input merging\<close>

record session_context =
  ctx_session_id :: string
  ctx_tool_name :: tool_name
  ctx_context_id :: string
  ctx_agent_id :: string
  ctx_config :: "json option"
  ctx_config_version :: "nat option"
  ctx_task_id :: "string option"
  ctx_execution_classifier :: "tool_execution_classifier option"

type_synonym 'w tool_executor = "json \<Rightarrow> 'w \<Rightarrow> json res \<times> 'w"

fun insert_all :: "(string \<times> json) list \<Rightarrow> (string \<times> json) list \<Rightarrow> (string \<times> json) list" where
  "insert_all base [] = base"
| "insert_all base ((k, v) # refine) = insert_all (obj_insert k v base) refine"

definition merge_input :: "json \<Rightarrow> json \<Rightarrow> json" where
  "merge_input merged input =
     (case (merged, input) of
        (JObject base, JObject refine) \<Rightarrow> JObject (insert_all base refine)
      | _ \<Rightarrow> merged)"

subsection \<open>One-shot sessions\<close>

record 'w one_shot_session =
  os_ctx :: session_context
  os_executor :: "'w tool_executor"
  os_send_input :: "json option"
  os_state :: session_phase

definition one_shot_new :: "session_context \<Rightarrow> 'w tool_executor \<Rightarrow> 'w one_shot_session" where
  "one_shot_new ctx ex = \<lparr>os_ctx = ctx, os_executor = ex, os_send_input = None, os_state = SessionOpen\<rparr>"

definition one_shot_send ::
  "json \<Rightarrow> 'w one_shot_session \<Rightarrow> (tool_session_error, unit) result \<times> 'w one_shot_session" where
  "one_shot_send input s =
     (if os_send_input s \<noteq> None
      then (Err (ToolErr (invalid_input ''Tool session already has input'')), s)
      else (Ok (), s\<lparr>os_send_input := Some input\<rparr>))"

definition one_shot_read ::
  "json \<Rightarrow> 'w one_shot_session \<Rightarrow> 'w
   \<Rightarrow> (tool_session_error, tool_step) result \<times> 'w one_shot_session \<times> 'w" where
  "one_shot_read input s w =
     (if is_closed (os_state s) then (Ok (StepDone None), s, w)
      else (case os_send_input s of
              None \<Rightarrow>
                (Err (ToolErr (invalid_input
                   (''Tool session '' @ ctx_session_id (os_ctx s) @ '' has no input''))), s, w)
            | Some send_input \<Rightarrow>
                (let s' = s\<lparr>os_send_input := None\<rparr>;
                     (r, w') = os_executor s (merge_input send_input input) w
                 in (case r of
                       Inr value \<Rightarrow> (Ok (StepDone (Some value)), s', w')
                     | Inl err \<Rightarrow>
                         (Ok (StepError
                            (from_error_in_session (ctx_execution_classifier (os_ctx s)) err)), s', w')))))"

definition one_shot_close :: "'w one_shot_session \<Rightarrow> 'w one_shot_session" where
  "one_shot_close s = s\<lparr>os_state := SessionClosed\<rparr>"

subsection \<open>Multi-send sessions\<close>

record 'w multi_send_session =
  ms_ctx :: session_context
  ms_executor :: "'w tool_executor"
  ms_last_send :: "json option"

definition multi_send_new :: "session_context \<Rightarrow> 'w tool_executor \<Rightarrow> 'w multi_send_session" where
  "multi_send_new ctx ex = \<lparr>ms_ctx = ctx, ms_executor = ex, ms_last_send = None\<rparr>"

definition multi_send_send :: "json \<Rightarrow> 'w multi_send_session \<Rightarrow> 'w multi_send_session" where
  "multi_send_send input s = s\<lparr>ms_last_send := Some input\<rparr>"

definition multi_send_read ::
  "json \<Rightarrow> 'w multi_send_session \<Rightarrow> 'w \<Rightarrow> (tool_session_error, tool_step) result \<times> 'w" where
  "multi_send_read input s w =
     (let merged = (case ms_last_send s of Some v \<Rightarrow> v | None \<Rightarrow> JObject []);
          (r, w') = ms_executor s (merge_input merged input) w
      in (case r of
            Inr value \<Rightarrow> (Ok (StepDone (Some value)), w')
          | Inl err \<Rightarrow>
              (Err (ToolErr (from_error_in_session (ctx_execution_classifier (ms_ctx s)) err)), w')))"

subsection \<open>Dynamic dispatch\<close>

text \<open>A \<^verbatim>\<open>dyn ToolSession\<close> is a session value with the table of its operations.\<close>

record ('s, 'w) session_vtable =
  vt_send :: "json \<Rightarrow> 's \<Rightarrow> 'w \<Rightarrow> (tool_session_error, unit) result \<times> 's \<times> 'w"
  vt_read :: "json \<Rightarrow> 's \<Rightarrow> 'w \<Rightarrow> (tool_session_error, tool_step) result \<times> 's \<times> 'w"
  vt_finish :: "'s \<Rightarrow> 'w \<Rightarrow> (tool_session_error, unit) result \<times> 's \<times> 'w"
  vt_abort :: "string option \<Rightarrow> 's \<Rightarrow> 'w \<Rightarrow> (tool_session_error, unit) result \<times> 's \<times> 'w"

datatype 'w host_session =
    HostOneShot "'w one_shot_session"
  | HostMultiSend "'w multi_send_session"

fun host_send ::
  "json \<Rightarrow> 'w host_session \<Rightarrow> 'w \<Rightarrow> (tool_session_error, unit) result \<times> 'w host_session \<times> 'w" where
  "host_send input (HostOneShot s) w =
     (case one_shot_send input s of (r, s') \<Rightarrow> (r, HostOneShot s', w))"
| "host_send input (HostMultiSend s) w = (Ok (), HostMultiSend (multi_send_send input s), w)"

fun host_read ::
  "json \<Rightarrow> 'w host_session \<Rightarrow> 'w
   \<Rightarrow> (tool_session_error, tool_step) result \<times> 'w host_session \<times> 'w" where
  "host_read input (HostOneShot s) w =
     (case one_shot_read input s w of (r, s', w') \<Rightarrow> (r, HostOneShot s', w'))"
| "host_read input (HostMultiSend s) w =
     (case multi_send_read input s w of (r, w') \<Rightarrow> (r, HostMultiSend s, w'))"

fun host_close :: "'w host_session \<Rightarrow> 'w \<Rightarrow> (tool_session_error, unit) result \<times> 'w host_session \<times> 'w" where
  "host_close (HostOneShot s) w = (Ok (), HostOneShot (one_shot_close s), w)"
| "host_close (HostMultiSend s) w = (Ok (), HostMultiSend s, w)"

definition host_vtable :: "('w host_session, 'w) session_vtable" where
  "host_vtable = \<lparr>vt_send = host_send, vt_read = host_read, vt_finish = host_close,
                  vt_abort = (\<lambda>reason. host_close)\<rparr>"

subsection \<open>Handlers of typed tools\<close>

text \<open>
  A typed tool: the derived deserialisers and serialiser of its types and its own code are the
  arguments.  A failed deserialisation carries the message of the JSON library.
\<close>

record ('i, 'o, 'w) typed_tool =
  tt_de_open :: "json \<Rightarrow> (string, unit) result"
  tt_de_input :: "json \<Rightarrow> (string, 'i) result"
  tt_ser_output :: "'o \<Rightarrow> (string, json) result"
  tt_execute :: "session_context \<Rightarrow> 'i \<Rightarrow> 'w \<Rightarrow> 'o res \<times> 'w"

definition deserialize_tool_input :: "(json \<Rightarrow> (string, 'i) result) \<Rightarrow> json \<Rightarrow> 'i res" where
  "deserialize_tool_input de v = (case de v of Inl e \<Rightarrow> Err (Json e) | Inr x \<Rightarrow> Ok x)"

definition serialize_tool_output :: "('o \<Rightarrow> (string, json) result) \<Rightarrow> 'o \<Rightarrow> json res" where
  "serialize_tool_output ser v = (case ser v of Inl e \<Rightarrow> Err (Json e) | Inr x \<Rightarrow> Ok x)"

definition validate_open_input :: "(json \<Rightarrow> (string, unit) result) \<Rightarrow> json \<Rightarrow> unit res" where
  "validate_open_input de open_input =
     (case de open_input of
        Inr _ \<Rightarrow> Ok ()
      | Inl msg \<Rightarrow>
          if str_contains msg ''expected unit'' \<and>
             (open_input = JNull \<or> as_object open_input = Some [])
          then Ok () else Err (InvalidOpenInput msg))"

definition empty_open_input :: json where
  "empty_open_input = JObject []"

definition executor_adapter :: "('i, 'o, 'w) typed_tool \<Rightarrow> session_context \<Rightarrow> 'w tool_executor" where
  "executor_adapter t ctx input w =
     (case deserialize_tool_input (tt_de_input t) input of
        Inl err \<Rightarrow> (Err err, w)
      | Inr parsed \<Rightarrow>
          (case tt_execute t ctx parsed w of
             (Inl err, w') \<Rightarrow> (Err err, w')
           | (Inr output, w') \<Rightarrow> (serialize_tool_output (tt_ser_output t) output, w')))"

definition open_one_shot ::
  "('i, 'o, 'w) typed_tool \<Rightarrow> session_context \<Rightarrow> json \<Rightarrow> 'w host_session res" where
  "open_one_shot t ctx open_input =
     res_bind (validate_open_input (tt_de_open t) open_input) (\<lambda>_.
       Ok (HostOneShot (one_shot_new ctx (executor_adapter t ctx))))"

definition open_multi_send ::
  "('i, 'o, 'w) typed_tool \<Rightarrow> session_context \<Rightarrow> json \<Rightarrow> 'w host_session res" where
  "open_multi_send t ctx open_input =
     res_bind (validate_open_input (tt_de_open t) open_input) (\<lambda>_.
       Ok (HostMultiSend (multi_send_new ctx (executor_adapter t ctx))))"

text \<open>
  \<^verbatim>\<open>describe_invocation\<close> of the one-shot and multi-send handlers built from async functions;
  the typed descriptions of the inputs are arguments (\<^const>\<open>None\<close> when deserialisation fails).
\<close>

definition describe_invocation_async ::
  "(json \<Rightarrow> string option) \<Rightarrow> (json \<Rightarrow> string option) \<Rightarrow> tool_name \<Rightarrow> json \<Rightarrow> string" where
  "describe_invocation_async describe_open describe_send name content =
     (let step = (case json_get content ''step'' of Some s \<Rightarrow> s | None \<Rightarrow> content);
          tool_name = display_tool_name name
      in (case Option.bind (json_get step ''op'') as_str of
            None \<Rightarrow> ''using '' @ tool_name
          | Some sop \<Rightarrow>
              if sop = ''Open'' then
                (case Option.bind (json_get step ''input'') describe_open of
                   Some s \<Rightarrow> if s = [] then ''using '' @ tool_name else s
                 | None \<Rightarrow> ''using '' @ tool_name)
              else if sop = ''Send'' then
                (case Option.bind (json_get step ''input'') describe_send of
                   Some s \<Rightarrow> s
                 | None \<Rightarrow> tool_name @ '': send'')
              else if sop \<in> {''SearchRead'', ''PageRead'', ''Finish'', ''Abort''} then []
              else tool_name @ '': '' @ sop))"

subsection \<open>The session interface\<close>

locale tool_session =
  fixes vt :: "('s, 'w) session_vtable"
  assumes send_pure: "snd (snd (vt_send vt input s w)) = w"
    and finish_ok: "\<exists>s'. vt_finish vt s w = (Ok (), s', w)"
    and abort_ok: "\<exists>s'. vt_abort vt reason s w = (Ok (), s', w)"
    and read_terminal:
      "fst (vt_read vt input s w) = Ok step \<Longrightarrow> (\<exists>v. step = StepDone v) \<or> (\<exists>f. step = StepError f)"

datatype session_op = OpSend json | OpRead json | OpFinish | OpAbort "string option"

datatype op_result =
    RSend "(tool_session_error, unit) result"
  | RRead "(tool_session_error, tool_step) result"
  | RClose "(tool_session_error, unit) result"

fun apply_op :: "('s, 'w) session_vtable \<Rightarrow> session_op \<Rightarrow> 's \<Rightarrow> 'w \<Rightarrow> op_result \<times> 's \<times> 'w" where
  "apply_op vt (OpSend i) s w = (case vt_send vt i s w of (r, x) \<Rightarrow> (RSend r, x))"
| "apply_op vt (OpRead i) s w = (case vt_read vt i s w of (r, x) \<Rightarrow> (RRead r, x))"
| "apply_op vt OpFinish s w = (case vt_finish vt s w of (r, x) \<Rightarrow> (RClose r, x))"
| "apply_op vt (OpAbort reason) s w = (case vt_abort vt reason s w of (r, x) \<Rightarrow> (RClose r, x))"

fun run_ops ::
  "('s, 'w) session_vtable \<Rightarrow> session_op list \<Rightarrow> 's \<Rightarrow> 'w \<Rightarrow> op_result list \<times> 's \<times> 'w" where
  "run_ops vt [] s w = ([], s, w)"
| "run_ops vt (p # ps) s w =
     (case apply_op vt p s w of (r, s', w') \<Rightarrow>
        (case run_ops vt ps s' w' of (rs, x) \<Rightarrow> (r # rs, x)))"

fun is_read :: "session_op \<Rightarrow> bool" where
  "is_read (OpRead _) = True"
| "is_read _ = False"

context tool_session
begin

lemma apply_op_world: "\<not> is_read p \<Longrightarrow> snd (snd (apply_op vt p s w)) = w"
proof (cases p)
  case (OpSend i)
  then show ?thesis using send_pure [of i s w] by (simp add: case_prod_beta)
next
  case OpFinish
  then show ?thesis using finish_ok [of s w] by auto
next
  case (OpAbort reason)
  then show ?thesis using abort_ok [of reason s w] by auto
qed simp

lemma run_without_read: "list_all (\<lambda>p. \<not> is_read p) ps \<Longrightarrow> snd (snd (run_ops vt ps s w)) = w"
proof (induction ps arbitrary: s w)
  case (Cons p ps)
  then show ?case using apply_op_world [of p s w]
    by (cases "apply_op vt p s w") (auto simp: case_prod_beta)
qed simp

end

interpretation host: tool_session host_vtable
proof
  show "snd (snd (vt_send host_vtable input s w)) = w" for input s and w :: 'w
    by (cases s) (simp_all add: host_vtable_def case_prod_beta)
  show "\<exists>s'. vt_finish host_vtable s w = (Ok (), s', w)" for s and w :: 'w
    by (cases s) (simp_all add: host_vtable_def)
  show "\<exists>s'. vt_abort host_vtable reason s w = (Ok (), s', w)" for reason s and w :: 'w
    by (cases s) (simp_all add: host_vtable_def)
  show "(\<exists>v. step = StepDone v) \<or> (\<exists>f. step = StepError f)"
    if "fst (vt_read host_vtable input s w) = Ok step" for input s and w :: 'w and step
    using that
    by (cases s) (auto simp: host_vtable_def one_shot_read_def multi_send_read_def Let_def
        case_prod_beta split: if_splits option.splits sum.splits)
qed

subsection \<open>Facts about in-process sessions\<close>

lemma from_error_in_session_facts [simp]:
  "tf_classified (from_error_in_session cl err) = classify_for_session cl err"
  "tf_message (from_error_in_session cl err) = cte_message (classify_for_session cl err)"
  "tf_retryability (from_error_in_session cl err) = host_retryability (classify_for_session cl err)"
  by (simp_all add: from_error_in_session_def failure_from_classified_def)

lemma host_vtable_simps [simp]:
  "vt_send host_vtable = host_send" "vt_read host_vtable = host_read"
  "vt_finish host_vtable = host_close" "vt_abort host_vtable reason = host_close"
  by (simp_all add: host_vtable_def)

lemma merge_input_null [simp]: "merge_input v JNull = v"
  by (simp add: merge_input_def split: json.split)

lemma obj_get_insert_all:
  "distinct (map fst refine) \<Longrightarrow>
   obj_get (insert_all base refine) k =
     (case obj_get refine k of Some v \<Rightarrow> Some v | None \<Rightarrow> obj_get base k)"
proof (induction base refine rule: insert_all.induct)
  case (2 base k' v refine)
  have cons: "obj_get ((k', v) # refine) k = (if k = k' then Some v else obj_get refine k)"
    by (simp add: obj_get_def)
  from 2 have "obj_get refine k' = None" by (simp add: obj_get_def map_of_eq_None_iff)
  with 2 show ?case by (auto simp: cons split: option.split)
qed (simp add: obj_get_def)

lemma one_shot_read_closed:
  "os_state s = SessionClosed \<Longrightarrow> one_shot_read input s w = (Ok (StepDone None), s, w)"
  by (simp add: one_shot_read_def is_closed_def)

lemma one_shot_closed_step:
  "os_state s = SessionClosed \<Longrightarrow>
   \<exists>r s'. apply_op host_vtable p (HostOneShot s) w = (r, HostOneShot s', w) \<and> os_state s' = SessionClosed"
  by (cases p)
     (auto simp: host_vtable_def one_shot_send_def one_shot_read_closed one_shot_close_def)

lemma one_shot_closed_run:
  "os_state s = SessionClosed \<Longrightarrow> snd (snd (run_ops host_vtable ps (HostOneShot s) w)) = w"
proof (induction ps arbitrary: s w)
  case (Cons p ps)
  obtain r s' where "apply_op host_vtable p (HostOneShot s) w = (r, HostOneShot s', w)"
    "os_state s' = SessionClosed" using one_shot_closed_step [OF Cons.prems] by blast
  with Cons.IH [of s' w] show ?case by (simp add: case_prod_beta)
qed simp

lemma run_ops_append:
  "run_ops vt (ps @ qs) s w =
     (case run_ops vt ps s w of (rs, s', w') \<Rightarrow>
        (case run_ops vt qs s' w' of (rs', x) \<Rightarrow> (rs @ rs', x)))"
  by (induction ps arbitrary: s w) (simp_all add: case_prod_beta)

lemma one_shot_stays:
  "\<exists>rs s' w'. run_ops host_vtable ps (HostOneShot s) w = (rs, HostOneShot s', w')"
proof (induction ps arbitrary: s w)
  case (Cons p ps)
  have "\<exists>r s' w'. apply_op host_vtable p (HostOneShot s) w = (r, HostOneShot s', w')"
    by (cases p) (auto simp: host_vtable_def case_prod_beta)
  then obtain r s' w' where "apply_op host_vtable p (HostOneShot s) w = (r, HostOneShot s', w')"
    by blast
  with Cons.IH [of s' w'] show ?case by auto
qed simp

text \<open>
  a closed one-shot session never runs its tool again: after a finish or an abort, whatever
  happened before, no sequence of further operations reaches the tool's code.
\<close>

theorem one_shot_closed_inert:
  assumes "run_ops host_vtable (before @ [close]) (HostOneShot s) w = (rs, s', w')"
    and "close = OpFinish \<or> close = OpAbort reason"
  shows "snd (snd (run_ops host_vtable after s' w')) = w'"
proof -
  obtain rs0 s0 w0 where b: "run_ops host_vtable before (HostOneShot s) w = (rs0, HostOneShot s0, w0)"
    using one_shot_stays [of before s w] by blast
  with assms have "s' = HostOneShot (one_shot_close s0)"
    by (auto simp: run_ops_append host_vtable_def)
  then show ?thesis by (simp add: one_shot_closed_run one_shot_close_def)
qed

definition witness_name :: tool_name where
  "witness_name = \<lparr>tn_bundle = BundleName ''support'', tn_local = LocalToolName ''calculate''\<rparr>"

definition witness_ctx :: session_context where
  "witness_ctx = \<lparr>ctx_session_id = ''s1'', ctx_tool_name = witness_name, ctx_context_id = ''c'',
     ctx_agent_id = ''a'', ctx_config = None, ctx_config_version = None, ctx_task_id = None,
     ctx_execution_classifier = None\<rparr>"

definition logging_executor :: "json list tool_executor" where
  "logging_executor v l = (Ok JNull, l @ [v])"

theorem one_shot_closed_inert_witness:
  "snd (snd (run_ops host_vtable [OpSend JNull, OpRead JNull]
      (HostOneShot (one_shot_close (one_shot_new witness_ctx logging_executor))) [])) = []"
  using one_shot_closed_inert
    [of "[]" OpFinish "one_shot_new witness_ctx logging_executor" "[]" "[RClose (Ok ())]"
        "HostOneShot (one_shot_close (one_shot_new witness_ctx logging_executor))" "[]" None
        "[OpSend JNull, OpRead JNull]"]
  by (simp add: host_vtable_def)

fun accepted :: "op_result \<Rightarrow> bool" where
  "accepted (RSend (Inr _)) = True"
| "accepted _ = False"

definition pending_input :: "'w one_shot_session \<Rightarrow> nat" where
  "pending_input s = (if os_send_input s = None then 0 else 1)"

lemma one_shot_step_budget:
  assumes "\<And>a l. snd (os_executor s a l) = l @ [a]"
    and "apply_op host_vtable p (HostOneShot s) l = (r, s', l')"
  shows "\<exists>t. s' = HostOneShot t \<and> os_executor t = os_executor s
     \<and> length l' + pending_input t \<le> length l + pending_input s + (if accepted r then 1 else 0)"
  using assms
  by (cases p)
     (auto simp: host_vtable_def one_shot_send_def one_shot_read_def one_shot_close_def
       pending_input_def Let_def case_prod_beta split: if_splits option.splits sum.splits)

lemma one_shot_run_budget:
  assumes "\<And>a l. snd (os_executor s a l) = l @ [a]"
    and "run_ops host_vtable ps (HostOneShot s) l = (rs, s', l')"
  shows "length l' \<le> length l + pending_input s + length (filter accepted rs)"
  using assms
proof (induction ps arbitrary: s l rs)
  case (Cons p ps)
  obtain r s1 l1 where a: "apply_op host_vtable p (HostOneShot s) l = (r, s1, l1)"
    by (metis prod_cases3)
  obtain t where t: "s1 = HostOneShot t" "os_executor t = os_executor s"
    "length l1 + pending_input t \<le> length l + pending_input s + (if accepted r then 1 else 0)"
    using one_shot_step_budget [OF Cons.prems(1) a] by blast
  obtain rs' where rs: "run_ops host_vtable ps (HostOneShot t) l1 = (rs', s', l')" "rs = r # rs'"
    using Cons.prems(2) a t(1) by (auto simp: case_prod_beta prod_eq_iff)
  have "length l' \<le> length l1 + pending_input t + length (filter accepted rs')"
    using Cons.IH [OF _ rs(1)] t(2) Cons.prems(1) by simp
  with t(3) rs(2) show ?case by (simp split: if_splits)
qed simp

text \<open>
  a one-shot session executes its tool at most once per accepted input.  For an executor
  that logs its calls, no interleaving of sends, reads, finishes and aborts makes more calls than
  it had sends accepted.
\<close>

theorem one_shot_at_most_once:
  assumes "\<And>a l. snd (ex a l) = l @ [a]"
    and "run_ops host_vtable ps (HostOneShot (one_shot_new ctx ex)) [] = (rs, s', calls)"
  shows "length calls \<le> length (filter accepted rs)"
  using one_shot_run_budget [OF _ assms(2)] assms(1)
  by (simp add: one_shot_new_def pending_input_def)

theorem one_shot_at_most_once_witness:
  "length [JNull] \<le> length (filter accepted
     [RSend (Ok ()), RRead (Ok (StepDone (Some JNull)))])"
  using one_shot_at_most_once
    [of logging_executor "[OpSend JNull, OpRead JNull]" witness_ctx
        "[RSend (Ok ()), RRead (Ok (StepDone (Some JNull)))]"
        "HostOneShot (one_shot_new witness_ctx logging_executor)" "[JNull]"]
  by (simp add: host_vtable_def one_shot_send_def one_shot_read_def one_shot_new_def
      logging_executor_def is_closed_def merge_input_def)

end
