(* ===== verification/Tool_Registry.thy ===== *)
theory Tool_Registry
  imports Tool_Session
begin

text \<open>
  The tool registry of \<^verbatim>\<open>crates/baml-rt-tools/src/tools.rs\<close>: registration under the manifest
  allowlist, sessions, single-shot execution and the typed session handle.  Handlers are records
  of their trait methods; a fresh session id is an argument of every operation that draws one.
  Registry operations run one at a time, as the registry's locks make them.
\<close>

subsection \<open>State\<close>

record ('s, 'w) tool_handler =
  th_metadata :: tool_function_metadata
  th_classify_execution_error :: tool_execution_classifier
  th_open_session :: "session_context \<Rightarrow> json \<Rightarrow> 'w \<Rightarrow> 's res \<times> 'w"
  th_describe_invocation :: "json \<Rightarrow> string"
  th_describe_result_value :: "json \<Rightarrow> string option"
  th_describe_archive_action :: "string \<Rightarrow> json \<Rightarrow> string option"
  th_describe_open_action :: "string option"

definition th_capability :: "('s, 'w) tool_handler \<Rightarrow> tool_capability" where
  "th_capability h = tfm_capability (th_metadata h)"

record tool_bundle_metadata =
  tbm_name :: bundle_name
  tbm_description :: string
  tbm_config_schema :: "json option"
  tbm_secret_requests :: "secret_request list"

type_synonym config_resolver = "bundle_name \<Rightarrow> (json \<times> nat) option res"

record ('s, 'w) tool_registry =
  reg_tools :: "(tool_name \<times> tool_function_metadata \<times> ('s, 'w) tool_handler) list"
  reg_bundles :: "(bundle_name \<times> tool_bundle_metadata) list"
  reg_allowlist :: "tool_name list option"
  reg_config_resolver :: "config_resolver option"
  reg_sessions :: "string \<rightharpoonup> 's"
  reg_session_config_version :: "string \<rightharpoonup> nat"

definition registry_new :: "('s, 'w) tool_registry" where
  "registry_new = \<lparr>reg_tools = [], reg_bundles = [], reg_allowlist = None, reg_config_resolver = None,
     reg_sessions = Map.empty, reg_session_config_version = Map.empty\<rparr>"

definition set_allowlist ::
  "tool_name list \<Rightarrow> ('s, 'w) tool_registry \<Rightarrow> ('s, 'w) tool_registry" where
  "set_allowlist al r = r\<lparr>reg_allowlist := Some al\<rparr>"

fun parse_all :: "string list \<Rightarrow> tool_name list res" where
  "parse_all [] = Ok []"
| "parse_all (n # ns) = res_bind (tool_name_parse n) (\<lambda>t. res_bind (parse_all ns) (\<lambda>ts. Ok (t # ts)))"

definition set_allowlist_from_strings ::
  "string list \<Rightarrow> ('s, 'w) tool_registry \<Rightarrow> unit res \<times> ('s, 'w) tool_registry" where
  "set_allowlist_from_strings names r =
     (case parse_all names of Inl e \<Rightarrow> (Err e, r) | Inr ts \<Rightarrow> (Ok (), set_allowlist ts r))"

definition clear_allowlist :: "('s, 'w) tool_registry \<Rightarrow> ('s, 'w) tool_registry" where
  "clear_allowlist r = r\<lparr>reg_allowlist := None\<rparr>"

definition set_config_resolver ::
  "config_resolver option \<Rightarrow> ('s, 'w) tool_registry \<Rightarrow> ('s, 'w) tool_registry" where
  "set_config_resolver resolver r = r\<lparr>reg_config_resolver := resolver\<rparr>"

subsection \<open>Registration\<close>

definition quoted :: "string \<Rightarrow> string" where
  "quoted s = [CHR 0x27] @ s @ [CHR 0x27]"

definition not_in_allowlist :: "tool_name \<Rightarrow> ('s, 'w) tool_registry \<Rightarrow> bool" where
  "not_in_allowlist n r = (case reg_allowlist r of None \<Rightarrow> False | Some al \<Rightarrow> n \<notin> set al)"

definition not_declared_error :: "tool_name \<Rightarrow> baml_error" where
  "not_declared_error n = InvalidArgument
     (''Tool '' @ quoted (display_tool_name n) @ '' is not declared in the manifest allowlist'')"

definition already_registered_error :: "tool_name \<Rightarrow> baml_error" where
  "already_registered_error n = InvalidArgument
     (''Tool '' @ quoted (display_tool_name n) @ '' is already registered'')"

definition insert_tool ::
  "tool_name \<Rightarrow> tool_function_metadata \<Rightarrow> ('s, 'w) tool_handler
   \<Rightarrow> ('s, 'w) tool_registry \<Rightarrow> ('s, 'w) tool_registry" where
  "insert_tool n m h r = r\<lparr>reg_tools := (n, m, h) # reg_tools r\<rparr>"

text \<open>
  A \<^verbatim>\<open>BamlTool\<close> type enters by its associated items: its name, the bundle name of its bundle
  type, the derived types and the session code that \<^verbatim>\<open>ToolWrapper\<close> delegates to.
\<close>

definition create_tool_handler ::
  "string \<Rightarrow> bundle_name res \<Rightarrow> tool_type \<Rightarrow> tool_type \<Rightarrow> tool_type \<Rightarrow> string \<Rightarrow> string
   \<Rightarrow> session_policy \<Rightarrow> tool_capability \<Rightarrow> (tool_function_metadata \<Rightarrow> ('s, 'w) tool_handler)
   \<Rightarrow> (tool_function_metadata \<times> ('s, 'w) tool_handler) res" where
  "create_tool_handler t_name t_bundle open_t in_t out_t class_name description policy capability wrap =
     res_bind (tool_name_parse t_name) (\<lambda>name.
     res_bind t_bundle (\<lambda>expected.
       if tn_bundle name \<noteq> expected
       then Err (InvalidArgument
         (''Tool '' @ quoted (display_tool_name name) @ '' bundle '' @ quoted (bundle_str (tn_bundle name))
           @ '' does not match Bundle type '' @ quoted (bundle_str expected)))
       else (let metadata = build_metadata open_t in_t out_t
                   (builder_with (WithCapability capability)
                     (builder_with (WithSessionPolicy policy)
                       (metadata_builder_new name class_name description)))
             in Ok (metadata, wrap metadata))))"

definition register ::
  "(tool_function_metadata \<times> ('s, 'w) tool_handler) res \<Rightarrow> ('s, 'w) tool_registry
   \<Rightarrow> unit res \<times> ('s, 'w) tool_registry" where
  "register created r =
     (case created of
        Inl e \<Rightarrow> (Err e, r)
      | Inr (metadata, handler) \<Rightarrow>
          (let name = tfm_name metadata
           in if not_in_allowlist name r then (Err (not_declared_error name), r)
              else if map_of (reg_tools r) name \<noteq> None then (Err (already_registered_error name), r)
              else (Ok (), insert_tool name metadata handler r)))"

definition register_dynamic ::
  "tool_function_metadata \<Rightarrow> ('s, 'w) tool_handler \<Rightarrow> ('s, 'w) tool_registry
   \<Rightarrow> unit res \<times> ('s, 'w) tool_registry" where
  "register_dynamic metadata handler r =
     (let name = tfm_name metadata
      in if tfm_origin metadata = Host \<and> not_in_allowlist name r
         then (Err (not_declared_error name), r)
         else if map_of (reg_tools r) name \<noteq> None then (Err (already_registered_error name), r)
         else (Ok (), insert_tool name metadata handler r))"

fun register_functions ::
  "bundle_name \<Rightarrow> ('s, 'w) tool_handler list \<Rightarrow> ('s, 'w) tool_registry
   \<Rightarrow> unit res \<times> ('s, 'w) tool_registry" where
  "register_functions b [] r = (Ok (), r)"
| "register_functions b (handler # hs) r =
     (let metadata = th_metadata handler; name = tfm_name metadata
      in if tn_bundle name \<noteq> b
         then (Err (InvalidArgument (''Tool '' @ quoted (display_tool_name name)
                 @ '' does not match bundle '' @ quoted (bundle_str b))), r)
         else if tfm_origin metadata = Host \<and> not_in_allowlist name r
         then (Err (not_declared_error name), r)
         else if map_of (reg_tools r) name \<noteq> None then (Err (already_registered_error name), r)
         else register_functions b hs (insert_tool name metadata handler r))"

definition register_bundle ::
  "tool_bundle_metadata \<Rightarrow> ('s, 'w) tool_handler list \<Rightarrow> ('s, 'w) tool_registry
   \<Rightarrow> unit res \<times> ('s, 'w) tool_registry" where
  "register_bundle bundle_meta hs r =
     (if map_of (reg_bundles r) (tbm_name bundle_meta) \<noteq> None
      then (Err (InvalidArgument (''Bundle '' @ quoted (bundle_str (tbm_name bundle_meta))
              @ '' is already registered'')), r)
      else (case register_functions (tbm_name bundle_meta) hs r of
              (Inl e, r') \<Rightarrow> (Err e, r')
            | (Inr _, r') \<Rightarrow>
                (Ok (), r'\<lparr>reg_bundles := (tbm_name bundle_meta, bundle_meta) # reg_bundles r'\<rparr>)))"

subsection \<open>Queries\<close>

definition get_metadata_by_name ::
  "tool_name \<Rightarrow> ('s, 'w) tool_registry \<Rightarrow> tool_function_metadata option" where
  "get_metadata_by_name n r = map_option fst (map_of (reg_tools r) n)"

definition get_metadata :: "string \<Rightarrow> ('s, 'w) tool_registry \<Rightarrow> tool_function_metadata option" where
  "get_metadata name r =
     (case tool_name_parse name of Inl _ \<Rightarrow> None | Inr t \<Rightarrow> get_metadata_by_name t r)"

definition get_handler :: "string \<Rightarrow> ('s, 'w) tool_registry \<Rightarrow> ('s, 'w) tool_handler option" where
  "get_handler name r =
     (case tool_name_parse name of Inl _ \<Rightarrow> None | Inr t \<Rightarrow> map_option snd (map_of (reg_tools r) t))"

definition describe_invocation_for ::
  "string \<Rightarrow> json \<Rightarrow> ('s, 'w) tool_registry \<Rightarrow> string option" where
  "describe_invocation_for name content r =
     map_option (\<lambda>h. th_describe_invocation h content) (get_handler name r)"

definition describe_archive_action_for ::
  "string \<Rightarrow> string \<Rightarrow> json \<Rightarrow> ('s, 'w) tool_registry \<Rightarrow> string option" where
  "describe_archive_action_for name sop input r =
     Option.bind (get_handler name r) (\<lambda>h. th_describe_archive_action h sop input)"

definition describe_result_for ::
  "string \<Rightarrow> json \<Rightarrow> ('s, 'w) tool_registry \<Rightarrow> string option" where
  "describe_result_for name output r =
     Option.bind (get_handler name r) (\<lambda>h. th_describe_result_value h output)"

definition describe_open_for :: "string \<Rightarrow> ('s, 'w) tool_registry \<Rightarrow> string option" where
  "describe_open_for name r = Option.bind (get_handler name r) th_describe_open_action"

definition extract_tool_name_from_payload :: "json \<Rightarrow> string option" where
  "extract_tool_name_from_payload content =
     (case as_object content of
        None \<Rightarrow> None
      | Some obj \<Rightarrow>
          (case Option.bind (obj_get obj ''tool_name'') as_str of
             Some name \<Rightarrow> Some name
           | None \<Rightarrow>
               (case obj of
                  [(_, inner)] \<Rightarrow> Option.bind (json_get inner ''tool_name'') as_str
                | _ \<Rightarrow> None)))"

definition describe_invocation :: "json \<Rightarrow> ('s, 'w) tool_registry \<Rightarrow> string option" where
  "describe_invocation content r =
     Option.bind (extract_tool_name_from_payload content) (\<lambda>n. describe_invocation_for n content r)"

definition describe_invocation_with_hint ::
  "string option \<Rightarrow> json \<Rightarrow> ('s, 'w) tool_registry \<Rightarrow> string" where
  "describe_invocation_with_hint tool_name_hint content r =
     (case Option.bind tool_name_hint (\<lambda>n. describe_invocation_for n content r) of
        Some d \<Rightarrow> d
      | None \<Rightarrow> (case describe_invocation content r of Some d \<Rightarrow> d | None \<Rightarrow> []))"

definition list_tools :: "('s, 'w) tool_registry \<Rightarrow> string list" where
  "list_tools r = map (\<lambda>e. display_tool_name (fst e)) (reg_tools r)"

definition all_metadata :: "('s, 'w) tool_registry \<Rightarrow> tool_function_metadata list" where
  "all_metadata r = map (\<lambda>e. fst (snd e)) (reg_tools r)"

definition export_metadata :: "('s, 'w) tool_registry \<Rightarrow> tool_function_metadata list" where
  "export_metadata r = filter (\<lambda>m. tfm_origin m = Host) (all_metadata r)"

definition export_metadata_records ::
  "('s, 'w) tool_registry \<Rightarrow> tool_function_metadata_export list" where
  "export_metadata_records r = map export_of_metadata (export_metadata r)"

definition validate_allowlist_registered :: "('s, 'w) tool_registry \<Rightarrow> unit res" where
  "validate_allowlist_registered r =
     (case reg_allowlist r of
        None \<Rightarrow> Ok ()
      | Some al \<Rightarrow>
          (let missing = map display_tool_name (filter (\<lambda>n. map_of (reg_tools r) n = None) al)
           in if missing \<noteq> []
              then Err (InvalidArgument (''Manifest tools missing from registry: '' @ join '', '' missing))
              else Ok ()))"

subsection \<open>Sessions\<close>

definition resolve_config ::
  "config_resolver option \<Rightarrow> tool_function_metadata \<Rightarrow> json option \<times> nat option" where
  "resolve_config resolver metadata =
     (case (resolver, tfm_config metadata, tfm_config_bundle metadata) of
        (Some f, Some config_meta, Some bundle) \<Rightarrow>
          (case f bundle of
             Inr (Some (v, ver)) \<Rightarrow> (Some v, Some ver)
           | _ \<Rightarrow> (Some (tcm_default config_meta), Some 0))
      | _ \<Rightarrow> (map_option tcm_default (tfm_config metadata), None))"

definition open_context ::
  "string \<Rightarrow> tool_function_metadata \<Rightarrow> ('s, 'w) tool_handler \<Rightarrow> string \<Rightarrow> string \<Rightarrow> string option
   \<Rightarrow> ('s, 'w) tool_registry \<Rightarrow> session_context" where
  "open_context sid metadata handler context_id agent_id task_id r =
     (let (config, config_version) = resolve_config (reg_config_resolver r) metadata
      in \<lparr>ctx_session_id = sid, ctx_tool_name = tfm_name metadata, ctx_context_id = context_id,
          ctx_agent_id = agent_id, ctx_config = config, ctx_config_version = config_version,
          ctx_task_id = task_id,
          ctx_execution_classifier = Some (th_classify_execution_error handler)\<rparr>)"

definition open_session_scoped ::
  "string \<Rightarrow> string \<Rightarrow> json \<Rightarrow> string \<Rightarrow> string \<Rightarrow> string option
   \<Rightarrow> ('s, 'w) tool_registry \<Rightarrow> 'w \<Rightarrow> string res \<times> ('s, 'w) tool_registry \<times> 'w" where
  "open_session_scoped sid name open_input context_id agent_id task_id r w =
     (case tool_name_parse name of
        Inl e \<Rightarrow> (Err e, r, w)
      | Inr parsed \<Rightarrow>
          (case map_of (reg_tools r) parsed of
             None \<Rightarrow>
               (Err (FunctionNotFound (''Tool '' @ quoted (display_tool_name parsed) @ '' not found'')), r, w)
           | Some (metadata, handler) \<Rightarrow>
               if tfm_origin metadata = Host \<and> not_in_allowlist parsed r
               then (Err (not_declared_error parsed), r, w)
               else
                 (let ctx = open_context sid metadata handler context_id agent_id task_id r
                  in (case th_open_session handler ctx open_input w of
                        (Inl e, w') \<Rightarrow> (Err e, r, w')
                      | (Inr session, w') \<Rightarrow>
                          (Ok sid,
                           r\<lparr>reg_sessions := (reg_sessions r)(sid \<mapsto> session),
                             reg_session_config_version :=
                               (case ctx_config_version ctx of
                                  Some ver \<Rightarrow> (reg_session_config_version r)(sid \<mapsto> ver)
                                | None \<Rightarrow> reg_session_config_version r)\<rparr>,
                           w')))))"

definition open_session ::
  "string \<Rightarrow> string \<Rightarrow> json \<Rightarrow> string \<Rightarrow> string \<Rightarrow> ('s, 'w) tool_registry \<Rightarrow> 'w
   \<Rightarrow> string res \<times> ('s, 'w) tool_registry \<times> 'w" where
  "open_session sid name open_input context_id agent_id r w =
     open_session_scoped sid name open_input context_id agent_id None r w"

definition session_not_found :: "string \<Rightarrow> baml_error" where
  "session_not_found sid = SessionLifecycle (ToolSessionNotFound sid)"

definition map_err :: "(tool_session_error, 'a) result \<Rightarrow> 'a res" where
  "map_err x = (case x of Inl e \<Rightarrow> Err (map_session_error e) | Inr v \<Rightarrow> Ok v)"

definition session_send ::
  "('s, 'w) session_vtable \<Rightarrow> string \<Rightarrow> json \<Rightarrow> ('s, 'w) tool_registry \<Rightarrow> 'w
   \<Rightarrow> unit res \<times> ('s, 'w) tool_registry \<times> 'w" where
  "session_send vt sid input r w =
     (case reg_sessions r sid of
        None \<Rightarrow> (Err (session_not_found sid), r, w)
      | Some s \<Rightarrow>
          (case vt_send vt input s w of (x, s', w') \<Rightarrow>
             (map_err x, r\<lparr>reg_sessions := (reg_sessions r)(sid \<mapsto> s')\<rparr>, w')))"

definition session_read ::
  "('s, 'w) session_vtable \<Rightarrow> string \<Rightarrow> json \<Rightarrow> ('s, 'w) tool_registry \<Rightarrow> 'w
   \<Rightarrow> tool_step res \<times> ('s, 'w) tool_registry \<times> 'w" where
  "session_read vt sid input r w =
     (case reg_sessions r sid of
        None \<Rightarrow> (Err (session_not_found sid), r, w)
      | Some s \<Rightarrow>
          (case vt_read vt input s w of (x, s', w') \<Rightarrow>
             (map_err x, r\<lparr>reg_sessions := (reg_sessions r)(sid \<mapsto> s')\<rparr>, w')))"

definition remove_session :: "string \<Rightarrow> ('s, 'w) tool_registry \<Rightarrow> ('s, 'w) tool_registry" where
  "remove_session sid r =
     r\<lparr>reg_sessions := (reg_sessions r)(sid := None),
       reg_session_config_version := (reg_session_config_version r)(sid := None)\<rparr>"

definition session_finish ::
  "('s, 'w) session_vtable \<Rightarrow> string \<Rightarrow> ('s, 'w) tool_registry \<Rightarrow> 'w
   \<Rightarrow> unit res \<times> ('s, 'w) tool_registry \<times> 'w" where
  "session_finish vt sid r w =
     (case reg_sessions r sid of
        None \<Rightarrow> (Ok (), remove_session sid r, w)
      | Some s \<Rightarrow>
          (case vt_finish vt s w of (x, s', w') \<Rightarrow> (map_err x, remove_session sid r, w')))"

definition session_abort ::
  "('s, 'w) session_vtable \<Rightarrow> string \<Rightarrow> string option \<Rightarrow> ('s, 'w) tool_registry \<Rightarrow> 'w
   \<Rightarrow> unit res \<times> ('s, 'w) tool_registry \<times> 'w" where
  "session_abort vt sid reason r w =
     (case reg_sessions r sid of
        None \<Rightarrow> (Ok (), remove_session sid r, w)
      | Some s \<Rightarrow>
          (case vt_abort vt reason s w of (x, s', w') \<Rightarrow> (map_err x, remove_session sid r, w')))"

definition get_config_version_for_session :: "string \<Rightarrow> ('s, 'w) tool_registry \<Rightarrow> nat option" where
  "get_config_version_for_session sid r = reg_session_config_version r sid"

definition execute_step ::
  "('s, 'w) session_vtable \<Rightarrow> string \<Rightarrow> tool_step res \<times> ('s, 'w) tool_registry \<times> 'w
   \<Rightarrow> json res \<times> ('s, 'w) tool_registry \<times> 'w" where
  "execute_step vt sid x =
     (case x of
        (Inl e, r, w) \<Rightarrow> (Err e, r, w)
      | (Inr step, r, w) \<Rightarrow>
          (let finish = (\<lambda>v. case session_finish vt sid r w of
                           (Inl e, r', w') \<Rightarrow> (Err e, r', w')
                         | (Inr _, r', w') \<Rightarrow> (Ok v, r', w'))
           in (case step of
                 StepStreaming v \<Rightarrow> finish v
               | StepSuspended v \<Rightarrow> finish v
               | StepDone v \<Rightarrow> finish (case v of Some y \<Rightarrow> y | None \<Rightarrow> JNull)
               | StepError f \<Rightarrow>
                   (case session_abort vt sid (Some (tf_message f)) r w of
                      (Inl e, r', w') \<Rightarrow> (Err e, r', w')
                    | (Inr _, r', w') \<Rightarrow> (Err (map_session_error (ToolErr f)), r', w')))))"

definition execute ::
  "('s, 'w) session_vtable \<Rightarrow> string \<Rightarrow> string \<Rightarrow> json \<Rightarrow> string \<Rightarrow> string
   \<Rightarrow> ('s, 'w) tool_registry \<Rightarrow> 'w \<Rightarrow> json res \<times> ('s, 'w) tool_registry \<times> 'w" where
  "execute vt sid name args context_id agent_id r w =
     (case tool_name_parse name of
        Inl e \<Rightarrow> (Err e, r, w)
      | Inr parsed \<Rightarrow>
          (case map_of (reg_tools r) parsed of
             None \<Rightarrow>
               (Err (FunctionNotFound (''Tool '' @ quoted (display_tool_name parsed) @ '' not found'')), r, w)
           | Some (_, handler) \<Rightarrow>
               if th_capability handler \<noteq> OneShot
               then (Err (InvalidArgument (''Tool '' @ quoted (display_tool_name parsed)
                       @ '' requires a streaming session; use open_session'')), r, w)
               else
                 (case open_session sid (display_tool_name parsed) empty_open_input context_id agent_id r w of
                    (Inl e, r1, w1) \<Rightarrow> (Err e, r1, w1)
                  | (Inr i, r1, w1) \<Rightarrow>
                      (case session_send vt i args r1 w1 of
                         (Inl e, r2, w2) \<Rightarrow> (Err e, r2, w2)
                       | (Inr _, r2, w2) \<Rightarrow> execute_step vt i (session_read vt i JNull r2 w2)))))"

subsection \<open>Typed session handles\<close>

text \<open>
  The state of a handle is a type parameter in the code.  A method takes its handle by value: when
  the method returns, the handle it was called on is dropped.  Dropping a handle that is not
  closed spawns a task that aborts its session; a method returns the tasks it spawned.
\<close>

datatype handle_state = AwaitingInput | Ready | Closed

record session_handle =
  hd_id :: string
  hd_state :: handle_state

datatype session_advance =
    AdvStreaming json session_handle
  | AdvSuspended json session_handle
  | AdvDone "json option" session_handle
  | AdvError tool_failure session_handle

definition state_is_closed :: "handle_state \<Rightarrow> bool" where
  "state_is_closed st = (case st of AwaitingInput \<Rightarrow> False | Ready \<Rightarrow> False | Closed \<Rightarrow> True)"

definition drop_handle :: "session_handle \<Rightarrow> string list" where
  "drop_handle h = (if state_is_closed (hd_state h) then [] else [hd_id h])"

fun run_spawned ::
  "('s, 'w) session_vtable \<Rightarrow> string list \<Rightarrow> ('s, 'w) tool_registry \<Rightarrow> 'w
   \<Rightarrow> ('s, 'w) tool_registry \<times> 'w" where
  "run_spawned vt [] r w = (r, w)"
| "run_spawned vt (sid # sids) r w =
     (case session_abort vt sid (Some ''session dropped'') r w of (_, r', w') \<Rightarrow> run_spawned vt sids r' w')"

definition handle_open ::
  "string \<Rightarrow> string \<Rightarrow> json \<Rightarrow> string \<Rightarrow> string \<Rightarrow> ('s, 'w) tool_registry \<Rightarrow> 'w
   \<Rightarrow> session_handle res \<times> ('s, 'w) tool_registry \<times> 'w" where
  "handle_open sid name open_input context_id agent_id r w =
     (case open_session sid name open_input context_id agent_id r w of
        (Inl e, x) \<Rightarrow> (Err e, x)
      | (Inr i, x) \<Rightarrow> (Ok \<lparr>hd_id = i, hd_state = AwaitingInput\<rparr>, x))"

definition handle_send ::
  "('s, 'w) session_vtable \<Rightarrow> session_handle \<Rightarrow> json \<Rightarrow> ('s, 'w) tool_registry \<Rightarrow> 'w
   \<Rightarrow> session_handle res \<times> string list \<times> ('s, 'w) tool_registry \<times> 'w" where
  "handle_send vt h input r w =
     (case session_send vt (hd_id h) input r w of
        (Inl e, x) \<Rightarrow> (Err e, drop_handle h, x)
      | (Inr _, x) \<Rightarrow> (Ok \<lparr>hd_id = hd_id h, hd_state = Ready\<rparr>, drop_handle h, x))"

definition handle_read ::
  "('s, 'w) session_vtable \<Rightarrow> session_handle \<Rightarrow> json \<Rightarrow> ('s, 'w) tool_registry \<Rightarrow> 'w
   \<Rightarrow> session_advance res \<times> string list \<times> ('s, 'w) tool_registry \<times> 'w" where
  "handle_read vt h input r w =
     (let i = hd_id h; ready = \<lparr>hd_id = i, hd_state = Ready\<rparr>; closed = \<lparr>hd_id = i, hd_state = Closed\<rparr>
      in (case session_read vt i input r w of
            (Inl e, x) \<Rightarrow> (Err e, drop_handle h, x)
          | (Inr step, r', w') \<Rightarrow>
              (case step of
                 StepDone v \<Rightarrow>
                   (case session_finish vt i r' w' of
                      (Inl e, x) \<Rightarrow> (Err e, drop_handle h, x)
                    | (Inr _, x) \<Rightarrow> (Ok (AdvDone v closed), drop_handle h, x))
               | StepError f \<Rightarrow>
                   (case session_abort vt i (Some (tf_message f)) r' w' of
                      (Inl e, x) \<Rightarrow> (Err e, drop_handle h, x)
                    | (Inr _, x) \<Rightarrow> (Ok (AdvError f closed), drop_handle h, x))
               | StepStreaming v \<Rightarrow> (Ok (AdvStreaming v ready), drop_handle h, r', w')
               | StepSuspended v \<Rightarrow> (Ok (AdvSuspended v ready), drop_handle h, r', w'))))"

definition handle_finish ::
  "('s, 'w) session_vtable \<Rightarrow> session_handle \<Rightarrow> ('s, 'w) tool_registry \<Rightarrow> 'w
   \<Rightarrow> session_handle res \<times> string list \<times> ('s, 'w) tool_registry \<times> 'w" where
  "handle_finish vt h r w =
     (case session_finish vt (hd_id h) r w of
        (Inl e, x) \<Rightarrow> (Err e, drop_handle h, x)
      | (Inr _, x) \<Rightarrow> (Ok \<lparr>hd_id = hd_id h, hd_state = Closed\<rparr>, drop_handle h, x))"

definition handle_abort ::
  "('s, 'w) session_vtable \<Rightarrow> session_handle \<Rightarrow> string option \<Rightarrow> ('s, 'w) tool_registry \<Rightarrow> 'w
   \<Rightarrow> session_handle res \<times> string list \<times> ('s, 'w) tool_registry \<times> 'w" where
  "handle_abort vt h reason r w =
     (case session_abort vt (hd_id h) reason r w of
        (Inl e, x) \<Rightarrow> (Err e, drop_handle h, x)
      | (Inr _, x) \<Rightarrow> (Ok \<lparr>hd_id = hd_id h, hd_state = Closed\<rparr>, drop_handle h, x))"

subsection \<open>Closing\<close>

lemma remove_session_facts [simp]:
  "reg_sessions (remove_session sid r) sid = None"
  "reg_session_config_version (remove_session sid r) sid = None"
  "reg_tools (remove_session sid r) = reg_tools r"
  by (simp_all add: remove_session_def)

lemma session_finish_reg [simp]: "fst (snd (session_finish vt sid r w)) = remove_session sid r"
  by (simp add: session_finish_def case_prod_beta split: option.split)

lemma session_abort_reg [simp]: "fst (snd (session_abort vt sid reason r w)) = remove_session sid r"
  by (simp add: session_abort_def case_prod_beta split: option.split)

lemma send_missing: "reg_sessions r sid = None \<Longrightarrow> session_send vt sid i r w = (Err (session_not_found sid), r, w)"
  by (simp add: session_send_def)

lemma read_missing: "reg_sessions r sid = None \<Longrightarrow> session_read vt sid i r w = (Err (session_not_found sid), r, w)"
  by (simp add: session_read_def)

text \<open>
  a finished or aborted session is gone, whatever its close operation returned: later sends
  and reads fail with \<^verbatim>\<open>tool_session_not_found\<close> without touching registry or tool, its
  configuration version is forgotten, and closing it again succeeds without effect.
\<close>

theorem closed_session_gone:
  "(let r' = fst (snd (session_finish vt sid r w)) in
      r' = fst (snd (session_abort vt sid reason r w))
      \<and> session_send vt sid i r' v = (Err (session_not_found sid), r', v)
      \<and> session_read vt sid i r' v = (Err (session_not_found sid), r', v)
      \<and> get_config_version_for_session sid r' = None
      \<and> session_finish vt sid r' v = (Ok (), r', v)
      \<and> session_abort vt sid reason r' v = (Ok (), r', v))"
  by (simp add: Let_def send_missing read_missing get_config_version_for_session_def)
     (simp add: session_finish_def session_abort_def remove_session_def)

context tool_session
begin

lemma session_finish_eq:
  "session_finish vt sid r w = (Ok (), remove_session sid r, w)"
proof (cases "reg_sessions r sid")
  case (Some s)
  then show ?thesis using finish_ok [of s w] by (auto simp: session_finish_def map_err_def)
qed (simp add: session_finish_def)

lemma session_abort_eq:
  "session_abort vt sid reason r w = (Ok (), remove_session sid r, w)"
proof (cases "reg_sessions r sid")
  case (Some s)
  then show ?thesis using abort_ok [of reason s w] by (auto simp: session_abort_def map_err_def)
qed (simp add: session_abort_def)

lemma execute_step_eq:
  "execute_step vt sid (Inr (StepDone v), r, w) =
     (Ok (case v of Some y \<Rightarrow> y | None \<Rightarrow> JNull), remove_session sid r, w)"
  "execute_step vt sid (Inr (StepError f), r, w) =
     (Err (ToolClassified (tf_classified f)), remove_session sid r, w)"
  by (simp_all add: execute_step_def session_finish_eq session_abort_eq
      map_session_error_def tool_failure_to_baml_tool_execution_error_def)

end

subsection \<open>Opening\<close>

lemma open_session_scoped_Ok:
  assumes "tool_name_parse name = Inr t" "map_of (reg_tools r) t = Some (m, h)"
    and "tfm_origin m = Host \<longrightarrow> \<not> not_in_allowlist t r"
    and "th_open_session h (open_context sid m h c a k r) i w = (Inr s, w')"
  shows "open_session_scoped sid name i c a k r w =
     (Ok sid,
      r\<lparr>reg_sessions := (reg_sessions r)(sid \<mapsto> s),
        reg_session_config_version :=
          (case snd (resolve_config (reg_config_resolver r) m) of
             Some ver \<Rightarrow> (reg_session_config_version r)(sid \<mapsto> ver)
           | None \<Rightarrow> reg_session_config_version r)\<rparr>, w')"
  using assms by (simp add: open_session_scoped_def Let_def open_context_def case_prod_beta)

text \<open>
  C27: the manifest allowlist is a gate on use and not only on registration: a host tool that the
  allowlist does not declare cannot be opened or executed even if it is registered, and the
  attempt leaves the registry and the world of the tools untouched.
\<close>

theorem undeclared_tool_never_runs:
  assumes "tool_name_parse name = Ok t" "map_of (reg_tools r) t = Some (m, h)"
    and "tfm_origin m = Host" "reg_allowlist r = Some al" "t \<notin> set al"
  shows "open_session_scoped sid name i c a k r w = (Err (not_declared_error t), r, w)
    \<and> snd (execute vt sid name args c a r w) = (r, w)
    \<and> \<not> is_ok (fst (execute vt sid name args c a r w))"
proof (intro conjI)
  have no: "not_in_allowlist t r" using assms by (simp add: not_in_allowlist_def)
  show "open_session_scoped sid name i c a k r w = (Err (not_declared_error t), r, w)"
    using assms no by (simp add: open_session_scoped_def)
  have "open_session sid (display_tool_name t) empty_open_input c a r w = (Err (not_declared_error t), r, w)"
    using assms(2,3) no parse_display [OF parse_valid [OF assms(1)]]
    by (simp add: open_session_def open_session_scoped_def)
  with assms(1,2) show "snd (execute vt sid name args c a r w) = (r, w)"
    and "\<not> is_ok (fst (execute vt sid name args c a r w))"
    by (simp_all add: execute_def)
qed

text \<open>
  C26: a single-shot execution is exactly one run of the tool: for a registered and declared
  one-shot tool, \<^verbatim>\<open>execute\<close> validates nothing but the empty open input, runs the tool once on the
  arguments with the context of the call, returns its output or its classified failure, and leaves
  the registry as it was, with no session open.
\<close>

theorem execute_one_shot:
  fixes tool :: "('i, 'o, 'w) typed_tool"
  assumes "tool_name_parse name = Ok t" "map_of (reg_tools r) t = Some (m, h)"
    and "tfm_origin m = Host \<longrightarrow> \<not> not_in_allowlist t r" "th_capability h = OneShot"
    and "\<And>ctx i w. th_open_session h ctx i w = (open_one_shot tool ctx i, w)"
    and "validate_open_input (tt_de_open tool) empty_open_input = Ok ()"
    and "reg_sessions r sid = None" "reg_session_config_version r sid = None"
  shows "execute host_vtable sid name args c a r w =
     (case executor_adapter tool (open_context sid m h c a None r) args w of
        (Inr v, w') \<Rightarrow> (Ok v, r, w')
      | (Inl e, w') \<Rightarrow>
          (Err (ToolClassified (classify_for_session (Some (th_classify_execution_error h)) e)), r, w'))"
proof -
  let ?ctx = "open_context sid m h c a None r"
  let ?s = "HostOneShot (one_shot_new ?ctx (executor_adapter tool ?ctx))"
  let ?s' = "HostOneShot ((one_shot_new ?ctx (executor_adapter tool ?ctx))\<lparr>os_send_input := Some args\<rparr>)"
  obtain r1 where op: "open_session sid (display_tool_name t) empty_open_input c a r w = (Ok sid, r1, w)"
    and r1: "reg_sessions r1 = (reg_sessions r)(sid \<mapsto> ?s)" and rm: "remove_session sid r1 = r"
    using open_session_scoped_Ok [OF parse_display [OF parse_valid [OF assms(1)]] assms(2,3),
        of sid c a None empty_open_input w ?s w] assms(5-8)
    by (auto simp: open_session_def open_one_shot_def remove_session_def fun_upd_idem_iff
        split: option.split)
  have send: "session_send host_vtable sid args r1 w
      = (Ok (), r1\<lparr>reg_sessions := (reg_sessions r1)(sid \<mapsto> ?s')\<rparr>, w)" (is "_ = (_, ?r2, _)")
    by (simp add: session_send_def r1 one_shot_send_def one_shot_new_def map_err_def)
  have rm2: "remove_session sid (?r2\<lparr>reg_sessions := (reg_sessions ?r2)(sid \<mapsto> x)\<rparr>) = r" for x
    using rm by (simp add: remove_session_def)
  have cl: "ctx_execution_classifier ?ctx = Some (th_classify_execution_error h)"
    by (simp add: open_context_def case_prod_beta)
  obtain x w' where ex: "executor_adapter tool ?ctx args w = (x, w')" by fastforce
  have "execute_step host_vtable sid (session_read host_vtable sid JNull ?r2 w) =
     (case x of
        Inr v \<Rightarrow> (Ok v, r, w')
      | Inl e \<Rightarrow>
          (Err (ToolClassified (classify_for_session (Some (th_classify_execution_error h)) e)), r, w'))"
    using ex cl rm2
    by (cases x) (simp_all add: session_read_def one_shot_read_def one_shot_new_def is_closed_def
        map_err_def host.execute_step_eq)
  with op send ex assms(1,2,4) show ?thesis by (cases x) (simp_all add: execute_def)
qed

subsection \<open>Concrete tools\<close>

definition witness_type :: tool_type where
  "witness_type = \<lparr>tt_json_schema = JObject [], tt_ts_name = ''Unit'', tt_ts_decl = None\<rparr>"

definition witness_metadata :: tool_function_metadata where
  "witness_metadata = build_metadata witness_type witness_type witness_type
     (metadata_builder_new witness_name ''SupportCalculate'' ''calculator'')"

definition witness_tool :: "json res \<Rightarrow> (json, json, json list) typed_tool" where
  "witness_tool out = \<lparr>tt_de_open = (\<lambda>_. Ok ()), tt_de_input = Inr, tt_ser_output = Inr,
     tt_execute = (\<lambda>ctx i l. (out, l @ [i]))\<rparr>"

definition witness_handler ::
  "((json, json, json list) typed_tool \<Rightarrow> session_context \<Rightarrow> json \<Rightarrow> json list host_session res)
   \<Rightarrow> json res \<Rightarrow> (json list host_session, json list) tool_handler" where
  "witness_handler opener out = \<lparr>th_metadata = witness_metadata,
     th_classify_execution_error = from_baml_error,
     th_open_session = (\<lambda>ctx i w. (opener (witness_tool out) ctx i, w)),
     th_describe_invocation = (\<lambda>_. []), th_describe_result_value = (\<lambda>_. None),
     th_describe_archive_action = (\<lambda>_ _. None), th_describe_open_action = None\<rparr>"

definition witness_registry ::
  "((json, json, json list) typed_tool \<Rightarrow> session_context \<Rightarrow> json \<Rightarrow> json list host_session res)
   \<Rightarrow> json res \<Rightarrow> (json list host_session, json list) tool_registry" where
  "witness_registry opener out =
     insert_tool witness_name witness_metadata (witness_handler opener out) registry_new"

lemma witness_parse: "tool_name_parse ''support/calculate'' = Inr witness_name"
  by (simp add: witness_name_def tool_name_parse_def bundle_name_new_def local_tool_name_new_def
      is_valid_bundle_identifier_component_def is_valid_local_tool_identifier_component_def
      is_ascii_lowercase_def is_ascii_digit_def is_ascii_alphanumeric_def is_ascii_uppercase_def)

lemma witness_display: "tool_name_parse (display_tool_name witness_name) = Inr witness_name"
  using parse_display [OF parse_valid [OF witness_parse]] .

lemma witness_registry_facts [simp]:
  "map_of (reg_tools (witness_registry opener out)) witness_name
     = Some (witness_metadata, witness_handler opener out)"
  "reg_allowlist (witness_registry opener out) = None"
  "reg_sessions (witness_registry opener out) = Map.empty"
  "reg_session_config_version (witness_registry opener out) = Map.empty"
  "reg_config_resolver (witness_registry opener out) = None"
  "th_capability (witness_handler opener out) = OneShot"
  "tfm_config witness_metadata = None" "tfm_origin witness_metadata = Host"
  "th_open_session (witness_handler opener out) ctx i w = (opener (witness_tool out) ctx i, w)"
  by (simp_all add: witness_registry_def insert_tool_def registry_new_def witness_handler_def
      th_capability_def witness_metadata_def build_metadata_def metadata_builder_new_def from_types_def)

theorem execute_one_shot_witness:
  "execute host_vtable ''s'' ''support/calculate'' (JString ''1+1'') ''c'' ''a''
     (witness_registry open_one_shot (Ok (JNumber ''2''))) []
   = (Ok (JNumber ''2''), witness_registry open_one_shot (Ok (JNumber ''2'')), [JString ''1+1''])"
  by (subst execute_one_shot [where t = witness_name and m = witness_metadata
        and h = "witness_handler open_one_shot (Ok (JNumber ''2''))"
        and tool = "witness_tool (Ok (JNumber ''2''))"])
     (simp_all add: witness_parse not_in_allowlist_def validate_open_input_def witness_tool_def
       executor_adapter_def deserialize_tool_input_def serialize_tool_output_def)

theorem undeclared_tool_never_runs_witness:
  "open_session_scoped ''s'' ''support/calculate'' JNull ''c'' ''a'' None
     (set_allowlist [] (witness_registry open_one_shot (Ok JNull))) []
   = (Err (not_declared_error witness_name),
      set_allowlist [] (witness_registry open_one_shot (Ok JNull)), [])"
  using undeclared_tool_never_runs [of "''support/calculate''" witness_name
      "set_allowlist [] (witness_registry open_one_shot (Ok JNull))" witness_metadata
      "witness_handler open_one_shot (Ok JNull)" "[]" "''s''" JNull "''c''" "''a''" None "[]"
      host_vtable JNull]
  by (simp add: witness_parse set_allowlist_def)

subsection \<open>Sessions left behind\<close>

text \<open>
  a failing read leaks the session of a single-shot execution: when the session's send or read
  returns an error (and not an error step), \<^verbatim>\<open>execute\<close> returns the error and the session stays in
  the registry, under an id the caller never sees.
\<close>

theorem execute_leaks_session:
  assumes "tool_name_parse name = Ok t" "map_of (reg_tools r) t = Some (m, h)"
    and "th_capability h = OneShot"
    and "open_session sid (display_tool_name t) empty_open_input c a r w = (Ok i, r1, w1)"
    and "session_send vt i args r1 w1 = (Ok (), r2, w2)"
    and "session_read vt i JNull r2 w2 = (Err e, r3, w3)"
  shows "execute vt sid name args c a r w = (Err e, r3, w3) \<and> reg_sessions r3 i \<noteq> None"
proof -
  have "reg_sessions r2 i \<noteq> None"
    using assms(5) by (auto simp: session_send_def case_prod_beta split: option.splits)
  with assms(6) have "reg_sessions r3 i \<noteq> None"
    by (auto simp: session_read_def case_prod_beta split: option.splits)
  with assms show ?thesis by (simp add: execute_def execute_step_def)
qed

theorem execute_leaks_session_witness:
  "reg_sessions (fst (snd (execute host_vtable ''s'' ''support/calculate'' JNull ''c'' ''a''
     (witness_registry open_multi_send (Err (ToolExecution ''timeout''))) []))) ''s'' \<noteq> None"
proof -
  let ?r = "witness_registry open_multi_send (Err (ToolExecution ''timeout''))"
  let ?h = "witness_handler open_multi_send (Err (ToolExecution ''timeout''))"
  let ?t = "witness_tool (Err (ToolExecution ''timeout''))"
  let ?ctx = "open_context ''s'' witness_metadata ?h ''c'' ''a'' None ?r"
  let ?s = "HostMultiSend (multi_send_new ?ctx (executor_adapter ?t ?ctx))"
  have "th_open_session ?h ?ctx empty_open_input [] = (Inr ?s, [])"
    by (simp add: open_multi_send_def validate_open_input_def) (simp add: witness_tool_def)
  then obtain r1 where op: "open_session ''s'' (display_tool_name witness_name) empty_open_input
      ''c'' ''a'' ?r [] = (Ok ''s'', r1, [])" and r1: "reg_sessions r1 ''s'' = Some ?s"
    using open_session_scoped_Ok [OF witness_display, of ?r witness_metadata ?h "''s''" "''c''" "''a''"
        None empty_open_input "[]" ?s "[]"]
    by (simp add: open_session_def not_in_allowlist_def)
  obtain r2 s2 where send: "session_send host_vtable ''s'' JNull r1 [] = (Ok (), r2, [])"
    and r2: "reg_sessions r2 ''s'' = Some (HostMultiSend s2)"
    "ms_executor s2 = executor_adapter ?t ?ctx" "ms_last_send s2 = Some JNull"
    using r1 by (simp add: session_send_def map_err_def multi_send_send_def multi_send_new_def)
  obtain e r3 where "session_read host_vtable ''s'' JNull r2 [] = (Err e, r3, [JNull])"
    using r2 by (simp add: session_read_def map_err_def multi_send_read_def executor_adapter_def
        deserialize_tool_input_def witness_tool_def)
  then show ?thesis
    using execute_leaks_session [OF witness_parse, of ?r witness_metadata ?h, OF _ _ op send] by simp
qed

text \<open>
  a typed session handle aborts its own session.  The method \<^verbatim>\<open>send\<close> consumes its handle and
  returns a new one for the same session; the consumed handle is not closed, so dropping it spawns
  the abort of the session.  Once that task has run, the handle that \<^verbatim>\<open>send\<close> returned cannot read.
\<close>

theorem handle_send_aborts_session:
  assumes "handle_send vt h input r w = (Ok h', spawned, r1, w1)" "hd_state h = AwaitingInput"
    and "run_spawned vt spawned r1 w1 = (r2, w2)"
  shows "handle_read vt h' i r2 w2 = (Err (session_not_found (hd_id h)), [hd_id h], r2, w2)"
proof -
  have h': "h' = \<lparr>hd_id = hd_id h, hd_state = Ready\<rparr>" and sp: "spawned = [hd_id h]"
    using assms(1,2) by (auto simp: handle_send_def drop_handle_def state_is_closed_def
        split: prod.splits sum.splits)
  have "r2 = remove_session (hd_id h) r1"
    using assms(3) sp session_abort_reg [of vt "hd_id h" "Some ''session dropped''" r1 w1]
    by (simp add: case_prod_beta split: prod.splits)
  then show ?thesis
    using h' by (simp add: handle_read_def Let_def read_missing drop_handle_def state_is_closed_def)
qed

theorem handle_send_aborts_session_witness:
  "\<exists>h' spawned r1 w1 r2 w2.
     handle_send host_vtable \<lparr>hd_id = ''s'', hd_state = AwaitingInput\<rparr> JNull
       ((witness_registry open_one_shot (Ok JNull))
          \<lparr>reg_sessions := [''s'' \<mapsto> HostOneShot (one_shot_new witness_ctx logging_executor)]\<rparr>) []
       = (Ok h', spawned, r1, w1)
     \<and> run_spawned host_vtable spawned r1 w1 = (r2, w2)
     \<and> handle_read host_vtable h' JNull r2 w2 = (Err (session_not_found ''s''), [''s''], r2, w2)"
proof -
  let ?h = "\<lparr>hd_id = ''s'', hd_state = AwaitingInput\<rparr>"
  let ?r = "(witness_registry open_one_shot (Ok JNull))
          \<lparr>reg_sessions := [''s'' \<mapsto> HostOneShot (one_shot_new witness_ctx logging_executor)]\<rparr>"
  obtain h' spawned r1 w1 where a: "handle_send host_vtable ?h JNull ?r [] = (Ok h', spawned, r1, w1)"
    by (simp add: handle_send_def session_send_def one_shot_send_def one_shot_new_def map_err_def)
  obtain r2 w2 where b: "run_spawned host_vtable spawned r1 w1 = (r2, w2)" by fastforce
  show ?thesis
    using a b handle_send_aborts_session [OF a _ b, of JNull] by auto
qed

subsection \<open>Reachable registries\<close>

definition registry_inv :: "('s, 'w) tool_registry \<Rightarrow> bool" where
  "registry_inv r \<longleftrightarrow>
     distinct (map fst (reg_tools r)) \<and> list_all (\<lambda>(n, m, h). tfm_name m = n) (reg_tools r)
     \<and> distinct (map fst (reg_bundles r))
     \<and> dom (reg_session_config_version r) \<subseteq> dom (reg_sessions r)"

inductive registry_step ::
  "('s, 'w) session_vtable \<Rightarrow> ('s, 'w) tool_registry \<times> 'w \<Rightarrow> ('s, 'w) tool_registry \<times> 'w \<Rightarrow> bool"
  for vt where
  st_allowlist: "registry_step vt (r, w) (set_allowlist al r, w)"
| st_allowlist_strings: "registry_step vt (r, w) (snd (set_allowlist_from_strings ns r), w)"
| st_clear: "registry_step vt (r, w) (clear_allowlist r, w)"
| st_resolver: "registry_step vt (r, w) (set_config_resolver f r, w)"
| st_register: "registry_step vt (r, w) (snd (register created r), w)"
| st_register_dynamic: "registry_step vt (r, w) (snd (register_dynamic m h r), w)"
| st_register_bundle: "registry_step vt (r, w) (snd (register_bundle b hs r), w)"
| st_open: "registry_step vt (r, w) (snd (open_session_scoped sid name i c a k r w))"
| st_send: "registry_step vt (r, w) (snd (session_send vt sid i r w))"
| st_read: "registry_step vt (r, w) (snd (session_read vt sid i r w))"
| st_finish: "registry_step vt (r, w) (snd (session_finish vt sid r w))"
| st_abort: "registry_step vt (r, w) (snd (session_abort vt sid reason r w))"

inductive_cases registry_stepE: "registry_step vt x y"

definition tools_kept :: "('s, 'w) tool_registry \<Rightarrow> ('s, 'w) tool_registry \<Rightarrow> bool" where
  "tools_kept r r' \<longleftrightarrow> map_of (reg_tools r) \<subseteq>\<^sub>m map_of (reg_tools r')"

lemma tools_kept_refl [simp]: "tools_kept r r"
  by (simp add: tools_kept_def)

lemma tools_kept_same: "reg_tools r' = reg_tools r \<Longrightarrow> tools_kept r r'"
  by (simp add: tools_kept_def)

lemma tools_kept_trans: "tools_kept r r' \<Longrightarrow> tools_kept r' r'' \<Longrightarrow> tools_kept r r''"
  unfolding tools_kept_def by (rule map_le_trans)

lemma insert_tool_kept: "map_of (reg_tools r) n = None \<Longrightarrow> tools_kept r (insert_tool n m h r)"
  by (auto simp: tools_kept_def insert_tool_def map_le_def dom_def)

lemma insert_tool_inv:
  "registry_inv r \<Longrightarrow> map_of (reg_tools r) (tfm_name m) = None \<Longrightarrow> registry_inv (insert_tool (tfm_name m) m h r)"
  by (auto simp: registry_inv_def insert_tool_def map_of_eq_None_iff)

lemma register_functions_kept: "tools_kept r (snd (register_functions b hs r))"
proof (induction b hs r rule: register_functions.induct)
  case (2 b h hs r)
  then show ?case
    using insert_tool_kept [of r "tfm_name (th_metadata h)" "th_metadata h" h]
    by (cases "map_of (reg_tools r) (tfm_name (th_metadata h))")
       (auto simp: Let_def intro: tools_kept_trans)
qed simp

lemma register_functions_inv: "registry_inv r \<Longrightarrow> registry_inv (snd (register_functions b hs r))"
proof (induction b hs r rule: register_functions.induct)
  case (2 b h hs r)
  then show ?case
    using insert_tool_inv [of r "th_metadata h" h]
    by (cases "map_of (reg_tools r) (tfm_name (th_metadata h))") (auto simp: Let_def)
qed simp

lemma register_dynamic_inv: "registry_inv r \<Longrightarrow> registry_inv (snd (register_dynamic m h r))"
  by (cases "map_of (reg_tools r) (tfm_name m)") (simp_all add: register_dynamic_def Let_def insert_tool_inv)

lemma register_dynamic_kept: "tools_kept r (snd (register_dynamic m h r))"
  by (cases "map_of (reg_tools r) (tfm_name m)") (simp_all add: register_dynamic_def Let_def insert_tool_kept)

lemma register_inv: "registry_inv r \<Longrightarrow> registry_inv (snd (register (Inr (m, h)) r))"
  by (cases "map_of (reg_tools r) (tfm_name m)") (simp_all add: register_def Let_def insert_tool_inv)

lemma register_kept: "tools_kept r (snd (register (Inr (m, h)) r))"
  by (cases "map_of (reg_tools r) (tfm_name m)") (simp_all add: register_def Let_def insert_tool_kept)

lemma register_Inl [simp]: "snd (register (Inl e) r) = r"
  by (simp add: register_def)

lemma register_functions_bundles [simp]:
  "reg_bundles (snd (register_functions b hs r)) = reg_bundles r"
  by (induction b hs r rule: register_functions.induct) (auto simp: Let_def insert_tool_def)

lemma register_bundle_inv:
  assumes "registry_inv r"
  shows "registry_inv (snd (register_bundle b hs r))"
proof (cases "map_of (reg_bundles r) (tbm_name b)")
  case None
  obtain x r' where rf: "register_functions (tbm_name b) hs r = (x, r')" by fastforce
  have "registry_inv r'" "reg_bundles r' = reg_bundles r"
    using register_functions_inv [OF assms, of "tbm_name b" hs]
      register_functions_bundles [of "tbm_name b" hs r] rf by simp_all
  then show ?thesis
    using None rf by (cases x) (auto simp: register_bundle_def registry_inv_def map_of_eq_None_iff)
qed (simp add: register_bundle_def assms)

lemma open_session_inv:
  "registry_inv r \<Longrightarrow> registry_inv (fst (snd (open_session_scoped sid name i c a k r w)))"
  by (auto simp: open_session_scoped_def registry_inv_def Let_def
      split: sum.splits option.splits prod.splits)

lemma session_op_inv:
  "registry_inv r \<Longrightarrow> registry_inv (fst (snd (session_send vt sid i r w)))"
  "registry_inv r \<Longrightarrow> registry_inv (fst (snd (session_read vt sid i r w)))"
  "registry_inv r \<Longrightarrow> registry_inv (remove_session sid r)"
  by (auto simp: session_send_def session_read_def registry_inv_def remove_session_def
      split: option.splits prod.splits)

lemma registry_step_inv: "registry_step vt x y \<Longrightarrow> registry_inv (fst x) \<Longrightarrow> registry_inv (fst y)"
proof (induction rule: registry_step.induct)
  case (st_register r w created)
  then show ?case by (cases created) (auto simp: register_inv)
next
  case (st_allowlist_strings r w ns)
  then show ?case
    by (cases "parse_all ns") (auto simp: set_allowlist_from_strings_def set_allowlist_def registry_inv_def)
qed (simp_all add: open_session_inv session_op_inv register_bundle_inv register_dynamic_inv,
     simp_all add: registry_inv_def set_allowlist_def clear_allowlist_def set_config_resolver_def)

lemma registry_step_kept: "registry_step vt x y \<Longrightarrow> tools_kept (fst x) (fst y)"
proof (induction rule: registry_step.induct)
  case (st_register_bundle r w b hs)
  then show ?case
    using register_functions_kept [of r "tbm_name b" hs]
    by (auto simp: register_bundle_def tools_kept_def split: prod.split sum.split)
next
  case (st_register r w created)
  then show ?case by (cases created) (auto simp: register_kept)
next
  case (st_open r w sid name i c a k)
  then show ?case
    by (auto simp: open_session_scoped_def Let_def intro!: tools_kept_same
        split: sum.split prod.split option.split)
qed (auto simp: register_dynamic_kept set_allowlist_from_strings_def set_allowlist_def
      clear_allowlist_def set_config_resolver_def session_send_def session_read_def
      intro!: tools_kept_same split: sum.split prod.split option.split)

text \<open>
  every registry that any sequence of operations reaches from the empty one is well formed
  (one entry per name, filed under the name in its metadata, configuration versions only for open
  sessions), and no operation ever replaces or removes a registered tool.
\<close>

theorem registry_reachable:
  assumes "rtranclp (registry_step vt) (registry_new, w0) (r, w)"
    and "rtranclp (registry_step vt) (r, w) (r', w')"
  shows "registry_inv r \<and> registry_inv r' \<and> tools_kept r r'"
proof -
  have inv: "registry_inv (fst y)" if "rtranclp (registry_step vt) x y" "registry_inv (fst x)" for x y
    using that by (induction rule: rtranclp_induct) (auto dest: registry_step_inv)
  have kept: "tools_kept (fst x) (fst y)" if "rtranclp (registry_step vt) x y" for x y
    using that by (induction rule: rtranclp_induct) (auto dest: registry_step_kept intro: tools_kept_trans)
  have "registry_inv registry_new" by (simp add: registry_inv_def registry_new_def)
  with inv [OF assms(1)] have "registry_inv r" by simp
  with inv [OF assms(2)] kept [OF assms(2)] show ?thesis by simp
qed

theorem registry_reachable_witness:
  "tools_kept (witness_registry open_one_shot (Ok JNull))
     (clear_allowlist (witness_registry open_one_shot (Ok JNull)))"
proof -
  let ?r = "witness_registry open_one_shot (Ok JNull)"
  have "snd (register_dynamic witness_metadata (witness_handler open_one_shot (Ok JNull)) registry_new) = ?r"
    by (simp add: register_dynamic_def witness_registry_def registry_new_def not_in_allowlist_def
        witness_metadata_def build_metadata_def metadata_builder_new_def from_types_def)
  then have "registry_step host_vtable (registry_new, []) (?r, [])"
    using st_register_dynamic [of host_vtable registry_new "[]" witness_metadata
        "witness_handler open_one_shot (Ok JNull)"] by simp
  then show ?thesis
    using registry_reachable [of host_vtable "[]" ?r "[]" "clear_allowlist ?r" "[]"]
      st_clear [of host_vtable ?r "[]"] by auto
qed

text \<open>
  a failed bundle registration is not undone: the functions registered before the one that is
  refused stay registered although the bundle is not.
\<close>

theorem register_bundle_not_atomic:
  assumes "map_of (reg_bundles r) (tbm_name b) = None" "map_of (reg_tools r) (tfm_name (th_metadata h)) = None"
    and "tn_bundle (tfm_name (th_metadata h)) = tbm_name b" "reg_allowlist r = None"
    and "tn_bundle (tfm_name (th_metadata h2)) \<noteq> tbm_name b"
  shows "let (x, r') = register_bundle b [h, h2] r in
           \<not> is_ok x \<and> map_of (reg_bundles r') (tbm_name b) = None
           \<and> map_of (reg_tools r') (tfm_name (th_metadata h)) = Some (th_metadata h, h)"
  using assms by (simp add: register_bundle_def Let_def not_in_allowlist_def insert_tool_def)

definition witness_bundle :: tool_bundle_metadata where
  "witness_bundle = \<lparr>tbm_name = BundleName ''support'', tbm_description = [], tbm_config_schema = None,
     tbm_secret_requests = []\<rparr>"

definition witness_stray :: "(json list host_session, json list) tool_handler" where
  "witness_stray = (witness_handler open_one_shot (Ok JNull))
     \<lparr>th_metadata := witness_metadata\<lparr>tfm_name :=
        \<lparr>tn_bundle = BundleName ''other'', tn_local = LocalToolName ''x''\<rparr>\<rparr>\<rparr>"

theorem register_bundle_not_atomic_witness:
  "let (x, r') = register_bundle witness_bundle
         [witness_handler open_one_shot (Ok JNull), witness_stray] registry_new in
     \<not> is_ok x \<and> map_of (reg_bundles r') (BundleName ''support'') = None
     \<and> map_of (reg_tools r') witness_name
       = Some (witness_metadata, witness_handler open_one_shot (Ok JNull))"
proof -
  have n: "th_metadata (witness_handler open_one_shot (Ok JNull)) = witness_metadata"
    "tfm_name witness_metadata = witness_name" "tn_bundle witness_name = BundleName ''support''"
    "tbm_name witness_bundle = BundleName ''support''"
    "tn_bundle (tfm_name (th_metadata witness_stray)) = BundleName ''other''"
    by (simp_all add: witness_handler_def witness_metadata_def build_metadata_def from_types_def
        metadata_builder_new_def witness_name_def witness_bundle_def witness_stray_def)
  show ?thesis
    using register_bundle_not_atomic [of registry_new witness_bundle
        "witness_handler open_one_shot (Ok JNull)" witness_stray]
    by (simp add: n registry_new_def)
qed

end
