(* ===== verification/Planning.thy ===== *)
theory Planning
  imports Effect_Bus Tool_Registry
begin

text \<open>
  Planning submissions of \<^verbatim>\<open>crates/baml-rt-quickjs/src\<close>: the wire commands of an execution session
  (\<^verbatim>\<open>execution_session_types.rs\<close>), the resolver that validates a submission (\<^verbatim>\<open>planning.rs\<close>) and
  the emission of the resolved submission on the effect bus (\<^verbatim>\<open>baml/planning_emit.rs\<close>).  The
  effect emitter and the provider of the conversation history are arguments.
\<close>

subsection \<open>Wire commands\<close>

record intent_submission_wire =
  isw_intent_id :: string
  isw_description :: string
  isw_citations :: "citation list"
  isw_supersession :: "string option"

record plan_step_submission =
  pss_step_id :: string
  pss_description :: string
  pss_order :: nat
  pss_depends_on :: "string list"

record plan_submission_wire =
  psw_intent_id :: string
  psw_plan_id :: string
  psw_steps :: "plan_step_submission list"
  psw_supersession :: "string option"

datatype execution_session_command =
    CmdOpen
  | CmdSubmitIntent string intent_submission_wire
  | CmdSubmitPlan string plan_submission_wire
  | CmdStartStep string string "citation list"
  | CmdCompleteStep string string "citation list"
  | CmdFinish string
  | CmdAbort string string
  | CmdSubmitGrounding string json "string option"

subsection \<open>Resolved submissions\<close>

record planning_dynamic_context =
  pdc_scope :: runtime_scope
  pdc_available_tools :: "string list"
  pdc_conversation_history :: "json option"

record intent_submission =
  ins_intent_id :: string
  ins_description :: string
  ins_citations :: "citation list"
  ins_derived_from_message_ids :: "string list"
  ins_supersession :: "planning_supersession_kind option"

record plan_submission =
  pls_intent_id :: string
  pls_plan_id :: string
  pls_steps :: json
  pls_supersession :: "planning_supersession_kind option"

record plan_step_status_change =
  psc_intent_id :: string
  psc_plan_id :: string
  psc_step_id :: string
  psc_old_status :: "string option"
  psc_new_status :: string
  psc_citations :: "citation list"

record planning_resolver =
  pr_resolve_intent :: "planning_dynamic_context \<Rightarrow> intent_submission \<Rightarrow> intent_submission res"
  pr_resolve_plan :: "planning_dynamic_context \<Rightarrow> plan_submission \<Rightarrow> plan_submission res"
  pr_resolve_step_status ::
    "planning_dynamic_context \<Rightarrow> plan_step_status_change \<Rightarrow> plan_step_status_change res"

definition default_resolve_intent :: "planning_dynamic_context \<Rightarrow> intent_submission \<Rightarrow> intent_submission res" where
  "default_resolve_intent ctx s =
     (if trim (ins_intent_id s) = [] then Err (InvalidArgument ''intent_id must be non-empty'')
      else if trim (ins_description s) = [] then Err (InvalidArgument ''intent description must be non-empty'')
      else if ins_citations s = [] \<and> ins_derived_from_message_ids s = []
      then Err (InvalidArgument ''intent must include citations and/or host-bound derived_from_message_ids (message id from invocation scope)'')
      else Ok s)"

definition default_resolve_plan :: "planning_dynamic_context \<Rightarrow> plan_submission \<Rightarrow> plan_submission res" where
  "default_resolve_plan ctx s =
     (if trim (pls_intent_id s) = [] then Err (InvalidArgument ''plan intent_id must be non-empty'')
      else if trim (pls_plan_id s) = [] then Err (InvalidArgument ''plan_id must be non-empty'')
      else case pls_steps s of
             JArray steps \<Rightarrow>
               if steps = [] then Err (InvalidArgument ''plan steps must be non-empty'') else Ok s
           | _ \<Rightarrow> Err (InvalidArgument ''plan steps must be a JSON array''))"

definition default_resolve_step_status ::
  "planning_dynamic_context \<Rightarrow> plan_step_status_change \<Rightarrow> plan_step_status_change res" where
  "default_resolve_step_status ctx s =
     (if trim (psc_intent_id s) = [] \<or> trim (psc_plan_id s) = [] \<or> trim (psc_step_id s) = []
         \<or> trim (psc_new_status s) = []
      then Err (InvalidArgument ''plan step status change fields must be non-empty'') else Ok s)"

definition default_planning_resolver :: planning_resolver where
  "default_planning_resolver = \<lparr>pr_resolve_intent = default_resolve_intent,
     pr_resolve_plan = default_resolve_plan, pr_resolve_step_status = default_resolve_step_status\<rparr>"

subsection \<open>Emission\<close>

record 'b planning_emit_env =
  pee_resolver :: planning_resolver
  pee_emitter :: "'b emitter option"
  pee_tool_names :: "string list"
  pee_history :: "(runtime_scope \<Rightarrow> string \<Rightarrow> json option res) option"
  pee_correlation_id :: "string option"

definition build_dynamic_context ::
  "'b planning_emit_env \<Rightarrow> runtime_scope \<Rightarrow> string \<Rightarrow> planning_dynamic_context res" where
  "build_dynamic_context env scope function_name =
     res_bind (case pee_history env of None \<Rightarrow> Ok None | Some provider \<Rightarrow> provider scope function_name)
       (\<lambda>history. Ok \<lparr>pdc_scope = scope,
                      pdc_available_tools = remdups_adj (sort (pee_tool_names env)),
                      pdc_conversation_history = history\<rparr>)"

definition task_and_emitter ::
  "string \<Rightarrow> 'b planning_emit_env \<Rightarrow> runtime_scope \<Rightarrow> (string \<times> 'b emitter) res" where
  "task_and_emitter what env scope =
     (case task_id_opt scope of
        None \<Rightarrow> Err (InvalidArgument (what @ '' requires task scope''))
      | Some t \<Rightarrow>
          (case pee_emitter env of
             None \<Rightarrow> Err (InvalidArgument ''effect emitter not configured'')
           | Some em \<Rightarrow> Ok (t, em)))"

definition emit_intent_resolved ::
  "'b planning_emit_env \<Rightarrow> runtime_scope \<Rightarrow> intent_submission \<Rightarrow> nat option \<Rightarrow> 'b \<Rightarrow> unit res \<times> 'b" where
  "emit_intent_resolved env scope submission epoch b =
     (case task_and_emitter ''planning intent'' env scope of
        Inl e \<Rightarrow> (Err e, b)
      | Inr (t, em) \<Rightarrow>
          (case res_bind (build_dynamic_context env scope ''default'')
                  (\<lambda>ctx. pr_resolve_intent (pee_resolver env) ctx submission) of
             Inl e \<Rightarrow> (Err e, b)
           | Inr r \<Rightarrow>
               em (IntentResolved (context_id scope) t (ins_intent_id r) (ins_description r)
                     (ins_citations r) (ins_supersession r) epoch) b))"

definition emit_plan_generated ::
  "'b planning_emit_env \<Rightarrow> runtime_scope \<Rightarrow> string \<Rightarrow> string \<Rightarrow> json \<Rightarrow> planning_supersession_kind option
   \<Rightarrow> nat option \<Rightarrow> 'b \<Rightarrow> unit res \<times> 'b" where
  "emit_plan_generated env scope intent_id plan_id steps supersession epoch b =
     (case task_and_emitter ''planning plan'' env scope of
        Inl e \<Rightarrow> (Err e, b)
      | Inr (t, em) \<Rightarrow>
          (case res_bind (build_dynamic_context env scope ''default'')
                  (\<lambda>ctx. pr_resolve_plan (pee_resolver env) ctx
                     \<lparr>pls_intent_id = intent_id, pls_plan_id = plan_id, pls_steps = steps,
                      pls_supersession = supersession\<rparr>) of
             Inl e \<Rightarrow> (Err e, b)
           | Inr r \<Rightarrow>
               em (PlanGenerated (context_id scope) t (pls_intent_id r) (pls_plan_id r) (pls_steps r)
                     (pls_supersession r) epoch) b))"

definition is_planning_step_terminal_completed_status :: "string \<Rightarrow> bool" where
  "is_planning_step_terminal_completed_status s \<longleftrightarrow>
     to_lowercase (trim s) \<in> {''completed'', ''done'', ''step_completed'', ''finished''}"

definition step_complete_metadata ::
  "string option \<Rightarrow> runtime_scope \<Rightarrow> string \<Rightarrow> plan_step_status_change \<Rightarrow> tool_effect_metadata" where
  "step_complete_metadata corr scope t r =
     \<lparr>tem_tool_name = ''a2a/execution_session_step'', tem_function_name = None,
      tem_args = JObject [(''plan_id'', JString (psc_plan_id r)), (''step_id'', JString (psc_step_id r))],
      tem_metadata = JObject
        ((case corr of None \<Rightarrow> [] | Some i \<Rightarrow> [(''correlation_id'', JString i)])
         @ [(''message_id'', JString (message_id scope)), (''task_id'', JString t),
            (''agent_id'', JString (agent_id scope)), (''plan_id'', JString (psc_plan_id r)),
            (''step_id'', JString (psc_step_id r)), (''phase'', JString ''execution_session_complete'')]),
      tem_delegation_target = None, tem_tool_backend = None, tem_tool_digest = None\<rparr>"

definition emit_step_status_changed ::
  "'b planning_emit_env \<Rightarrow> runtime_scope \<Rightarrow> plan_step_status_change \<Rightarrow> nat option \<Rightarrow> 'b \<Rightarrow> unit res \<times> 'b" where
  "emit_step_status_changed env scope change epoch b =
     (case task_and_emitter ''planning step status'' env scope of
        Inl e \<Rightarrow> (Err e, b)
      | Inr (t, em) \<Rightarrow>
          (case res_bind (build_dynamic_context env scope ''default'')
                  (\<lambda>ctx. pr_resolve_step_status (pee_resolver env) ctx change) of
             Inl e \<Rightarrow> (Err e, b)
           | Inr r \<Rightarrow>
               (let (x, b1) =
                      (if is_planning_step_terminal_completed_status (psc_new_status r)
                       then (case start_tool em (context_id scope)
                                    (step_complete_metadata (pee_correlation_id env) scope t r) b of
                               (Inl e, b') \<Rightarrow> (Err e, b')
                             | (Inr tok, b') \<Rightarrow>
                                 complete_tool em tok 0 Success
                                   (Some (JObject [(''citations'', JArray (map JString (psc_citations r)))])) b')
                       else (Ok (), b))
                in (case x of
                      Inl e \<Rightarrow> (Err e, b1)
                    | Inr _ \<Rightarrow>
                        em (PlanStepStatusChanged (context_id scope) t (psc_intent_id r) (psc_plan_id r)
                              (psc_step_id r) (psc_old_status r) (psc_new_status r) (psc_citations r) epoch) b1))))"

text \<open>An emission leaves the bus alone unless the submission is resolved.\<close>

lemma emit_intent_refused:
  "pr_resolve_intent (pee_resolver env) = (\<lambda>ctx s. Err e) \<Longrightarrow>
   \<exists>e'. emit_intent_resolved env scope submission epoch b = (Err e', b)"
  by (auto simp: emit_intent_resolved_def task_and_emitter_def build_dynamic_context_def res_bind_def
      split: option.splits sum.splits)

end
