(* ===== verification/Interceptor_Pipeline.thy ===== *)
theory Interceptor_Pipeline
  imports Semiotic_Stores
begin

text \<open>
  The interceptor pipeline of \<^verbatim>\<open>crates/baml-rt-interceptor/src/interceptor.rs\<close>.  An interceptor
  is a record of its trait methods over a shared state.  The theorems show what a pipeline needs to
  let a tool call through, and that a failing interceptor lets it through as well.
\<close>

datatype interceptor_decision =
    Allow
  | Block string
  | RequireAuthorization string
  | Substitute json

record llm_call_context =
  llm_client :: string
  llm_model :: string
  llm_function_id :: baml_function_id
  llm_runtime_scope :: runtime_scope
  llm_prompt :: json
  llm_metadata :: json

record tool_call_context =
  tcc_tool_name :: string
  tcc_function_name :: "string option"
  tcc_args :: json
  tcc_runtime_scope :: runtime_scope
  tcc_metadata :: json
  tcc_agent_package :: "string option"
  tcc_delegation_target :: "string option"

record 'st llm_interceptor =
  li_intercept :: "llm_call_context \<Rightarrow> 'st \<Rightarrow> interceptor_decision res \<times> 'st"
  li_complete :: "llm_call_context \<Rightarrow> json res \<Rightarrow> nat \<Rightarrow> 'st \<Rightarrow> 'st"

record 'st tool_interceptor =
  ti_intercept :: "tool_call_context \<Rightarrow> 'st \<Rightarrow> interceptor_decision res \<times> 'st"
  ti_complete :: "tool_call_context \<Rightarrow> json res \<Rightarrow> nat \<Rightarrow> 'st \<Rightarrow> 'st"
  ti_stamp :: "tool_call_context \<Rightarrow> json \<Rightarrow> 'st \<Rightarrow> json \<times> 'st"

record 'st interceptor_registry =
  ir_llm_pipeline :: "'st llm_interceptor list"
  ir_tool_pipeline :: "'st tool_interceptor list"

definition interceptor_registry_new :: "'st interceptor_registry" where
  "interceptor_registry_new = \<lparr>ir_llm_pipeline = [], ir_tool_pipeline = []\<rparr>"

definition register_llm_interceptor ::
  "'st llm_interceptor \<Rightarrow> 'st interceptor_registry \<Rightarrow> 'st interceptor_registry" where
  "register_llm_interceptor i r = r\<lparr>ir_llm_pipeline := ir_llm_pipeline r @ [i]\<rparr>"

definition register_tool_interceptor ::
  "'st tool_interceptor \<Rightarrow> 'st interceptor_registry \<Rightarrow> 'st interceptor_registry" where
  "register_tool_interceptor i r = r\<lparr>ir_tool_pipeline := ir_tool_pipeline r @ [i]\<rparr>"

definition merge_llm_pipeline ::
  "'st llm_interceptor list \<Rightarrow> 'st interceptor_registry \<Rightarrow> 'st interceptor_registry" where
  "merge_llm_pipeline is r = r\<lparr>ir_llm_pipeline := ir_llm_pipeline r @ is\<rparr>"

definition merge_tool_pipeline ::
  "'st tool_interceptor list \<Rightarrow> 'st interceptor_registry \<Rightarrow> 'st interceptor_registry" where
  "merge_tool_pipeline is r = r\<lparr>ir_tool_pipeline := ir_tool_pipeline r @ is\<rparr>"

fun intercept_llm_call ::
  "'st llm_interceptor list \<Rightarrow> llm_call_context \<Rightarrow> 'st \<Rightarrow> interceptor_decision res \<times> 'st" where
  "intercept_llm_call [] ctx st = (Ok Allow, st)"
| "intercept_llm_call (i # is) ctx st =
     (case li_intercept i ctx st of
        (Inr Allow, st') \<Rightarrow> intercept_llm_call is ctx st'
      | (Inr (Block msg), st') \<Rightarrow> (Err (BamlRuntime (''LLM call blocked by interceptor: '' @ msg)), st')
      | (Inr (Substitute v), st') \<Rightarrow> (Ok (Substitute v), st')
      | (Inr (RequireAuthorization _), st') \<Rightarrow> intercept_llm_call is ctx st'
      | (Inl e, st') \<Rightarrow> intercept_llm_call is ctx st')"

fun intercept_tool_call ::
  "'st tool_interceptor list \<Rightarrow> tool_call_context \<Rightarrow> 'st \<Rightarrow> interceptor_decision res \<times> 'st" where
  "intercept_tool_call [] ctx st = (Ok Allow, st)"
| "intercept_tool_call (i # is) ctx st =
     (case ti_intercept i ctx st of
        (Inr Allow, st') \<Rightarrow> intercept_tool_call is ctx st'
      | (Inr (Substitute _), st') \<Rightarrow> intercept_tool_call is ctx st'
      | (Inr (RequireAuthorization p), st') \<Rightarrow> (Ok (RequireAuthorization p), st')
      | (Inr (Block msg), st') \<Rightarrow> (Ok (Block msg), st')
      | (Inl e, st') \<Rightarrow> intercept_tool_call is ctx st')"

fun stamp_tool_metadata ::
  "'st tool_interceptor list \<Rightarrow> tool_call_context \<Rightarrow> json \<Rightarrow> 'st \<Rightarrow> json \<times> 'st" where
  "stamp_tool_metadata [] ctx m st = (m, st)"
| "stamp_tool_metadata (i # is) ctx m st =
     (case ti_stamp i ctx m st of (m', st') \<Rightarrow> stamp_tool_metadata is ctx m' st')"

fun notify_llm_call_complete ::
  "'st llm_interceptor list \<Rightarrow> llm_call_context \<Rightarrow> json res \<Rightarrow> nat \<Rightarrow> 'st \<Rightarrow> 'st" where
  "notify_llm_call_complete [] ctx r d st = st"
| "notify_llm_call_complete (i # is) ctx r d st =
     notify_llm_call_complete is ctx r d (li_complete i ctx r d st)"

fun notify_tool_call_complete ::
  "'st tool_interceptor list \<Rightarrow> tool_call_context \<Rightarrow> json res \<Rightarrow> nat \<Rightarrow> 'st \<Rightarrow> 'st" where
  "notify_tool_call_complete [] ctx r d st = st"
| "notify_tool_call_complete (i # is) ctx r d st =
     notify_tool_call_complete is ctx r d (ti_complete i ctx r d st)"

subsection \<open>Facts\<close>

definition stops :: "interceptor_decision res \<Rightarrow> bool" where
  "stops r = (case r of Inr (Block _) \<Rightarrow> True | Inr (RequireAuthorization _) \<Rightarrow> True | _ \<Rightarrow> False)"

lemma intercept_tool_call_Cons:
  "intercept_tool_call (i # is) ctx st =
     (let (r, st') = ti_intercept i ctx st in if stops r then (r, st') else intercept_tool_call is ctx st')"
  by (auto simp: stops_def Let_def split: prod.split sum.split interceptor_decision.split)

lemma intercept_tool_call_append:
  "intercept_tool_call (is @ js) ctx st =
     (let (r, st') = intercept_tool_call is ctx st in
        if stops r then (r, st') else intercept_tool_call js ctx st')"
proof (induction "is" arbitrary: st)
  case Nil
  then show ?case by (simp add: stops_def)
next
  case (Cons i "is")
  then show ?case
    unfolding append_Cons intercept_tool_call_Cons by (simp add: Let_def split: prod.split)
qed

lemma intercept_tool_call_shape:
  "fst (intercept_tool_call is ctx st) = Ok Allow \<or> stops (fst (intercept_tool_call is ctx st))"
proof (induction "is" arbitrary: st)
  case (Cons i "is")
  then show ?case unfolding intercept_tool_call_Cons by (simp add: Let_def split: prod.split)
qed (simp add: stops_def)

lemma pipeline_allow_split:
  "fst (intercept_tool_call (is @ i # js) ctx st) = Ok Allow \<longleftrightarrow>
     fst (intercept_tool_call is ctx st) = Ok Allow
     \<and> \<not> stops (fst (ti_intercept i ctx (snd (intercept_tool_call is ctx st))))
     \<and> fst (intercept_tool_call js ctx (snd (ti_intercept i ctx (snd (intercept_tool_call is ctx st))))) = Ok Allow"
proof -
  obtain r s1 where a: "intercept_tool_call is ctx st = (r, s1)" by (rule prod.exhaust)
  obtain d s2 where d: "ti_intercept i ctx s1 = (d, s2)" by (rule prod.exhaust)
  have "r = Ok Allow \<or> stops r" using intercept_tool_call_shape [of "is" ctx st] a by simp
  moreover have "\<not> stops (Ok Allow)" by (simp add: stops_def)
  ultimately show ?thesis
    unfolding intercept_tool_call_append intercept_tool_call_Cons a d using a d by (auto simp: Let_def)
qed

text \<open>
  a pipeline lets a tool call through exactly when no interceptor of it, asked in order on the
  state its predecessors left, blocks the call or asks for authorization; the first that does
  decides, and the ones after it are not asked.
\<close>

theorem pipeline_allow_iff:
  "fst (intercept_tool_call (is @ [i] @ js) ctx st) = Ok Allow \<longleftrightarrow>
     (let (r, st1) = intercept_tool_call is ctx st; (d, st2) = ti_intercept i ctx st1 in
        r = Ok Allow \<and> \<not> stops d \<and> fst (intercept_tool_call js ctx st2) = Ok Allow)"
  using pipeline_allow_split [of "is" i js ctx st] by (simp add: case_prod_beta Let_def)

text \<open>
  the pipeline fails open: an interceptor that itself fails is skipped, so a gate whose
  evaluation errors lets the call through, and the pipeline never returns an error.
\<close>

theorem pipeline_fails_open:
  assumes "ti_intercept i ctx st = (Err e, st')"
  shows "intercept_tool_call [i] ctx st = (Ok Allow, st')
    \<and> (\<forall>is st e. fst (intercept_tool_call is ctx st) \<noteq> Err e)"
proof
  show "intercept_tool_call [i] ctx st = (Ok Allow, st')" using assms by simp
  have "fst (intercept_tool_call is ctx st) \<noteq> Err e" for "is" st e
    using intercept_tool_call_shape [of "is" ctx st] by (auto simp: stops_def)
  then show "\<forall>is st e. fst (intercept_tool_call is ctx st) \<noteq> Err e" by blast
qed

definition failing_interceptor :: "unit tool_interceptor" where
  "failing_interceptor = \<lparr>ti_intercept = (\<lambda>_ st. (Err (Configuration ''gate unavailable''), st)),
     ti_complete = (\<lambda>_ _ _ st. st), ti_stamp = (\<lambda>_ m st. (m, st))\<rparr>"

definition witness_call :: tool_call_context where
  "witness_call = \<lparr>tcc_tool_name = ''db/drop'', tcc_function_name = None, tcc_args = JObject [],
     tcc_runtime_scope = TaskScope ''c'' ''a'' ''m'' ''t'',
     tcc_metadata = JObject [(''access_level'', JString ''delete'')], tcc_agent_package = None,
     tcc_delegation_target = None\<rparr>"

theorem pipeline_fails_open_witness:
  "intercept_tool_call [failing_interceptor] witness_call () = (Ok Allow, ())"
  by (rule pipeline_fails_open [THEN conjunct1]) (simp add: failing_interceptor_def)

end
