(* ===== verification/Semiotic_Interceptor.thy ===== *)
theory Semiotic_Interceptor
  imports Interceptor_Pipeline
begin

text \<open>
  The semiotic tool interceptor, \<^verbatim>\<open>crates/baml-rt-semiotic/src/interceptor.rs\<close>: evaluation of a
  tool call against the grounding artifact of its scope, the policy that turns a verdict into a
  decision, the stamp on the effect metadata and the completion hook.  The argument \<open>env\<close> holds the
  regular-expression engine, the JSON serialiser and the shell.  The theorems show when a mutating
  or irreversible call can pass under enforcement, for single calls and for whole histories.
\<close>

record semiotic_env =
  se_re :: regex_engine
  se_ser :: "json \<Rightarrow> string option"
  se_sh :: "string \<Rightarrow> string option \<Rightarrow> proc_result"

definition ARTIFACT_TTL :: nat where
  "ARTIFACT_TTL = 30 * 60 * 1000"

record gate_verdict =
  gv_tier :: tier
  gv_reason :: gate_reason_code
  gv_block_msg :: "string option"

definition config_for :: "tool_call_context \<Rightarrow> semiotic_state \<Rightarrow> semiotic_policy" where
  "config_for ctx st = resolve_semiotic_policy (tcc_agent_package ctx) st"

subsection \<open>Classification of the call\<close>

fun all_strings :: "json list \<Rightarrow> string list option" where
  "all_strings [] = Some []"
| "all_strings (JString s # js) = map_option ((#) s) (all_strings js)"
| "all_strings (_ # js) = None"

definition tags_of_json :: "json \<Rightarrow> string list option" where
  "tags_of_json v = (case v of JArray js \<Rightarrow> all_strings js | _ \<Rightarrow> None)"

definition tool_meta_from_context :: "tool_call_context \<Rightarrow> tool_tier_meta" where
  "tool_meta_from_context ctx =
     \<lparr>ttm_access_level =
        (case Option.bind (json_get (tcc_metadata ctx) ''access_level'') as_str of
           Some s \<Rightarrow> if s = ''delete'' then Delete else if s = ''write'' then Write else Read
         | None \<Rightarrow> Write),
      ttm_tags =
        (case Option.bind (json_get (tcc_metadata ctx) ''tags'') tags_of_json of
           Some ts \<Rightarrow> ts | None \<Rightarrow> []),
      ttm_read_only_hint = None, ttm_destructive_hint = None,
      ttm_is_delegation = (tcc_delegation_target ctx \<noteq> None)\<rparr>"

subsection \<open>Evaluation\<close>

definition evaluate ::
  "semiotic_env \<Rightarrow> nat \<Rightarrow> tool_call_context \<Rightarrow> tool_tier_meta \<Rightarrow> semiotic_policy \<Rightarrow> semiotic_state
   \<Rightarrow> gate_verdict" where
  "evaluate env now ctx meta policy st =
     (let t = classify_tier meta; ts = show_nat (tier_u8 t)
      in if tier_u8 t \<le> 1
         then \<lparr>gv_tier = t, gv_reason = TierBelowGate, gv_block_msg = None\<rparr>
         else case get_live now (tcc_runtime_scope ctx) ARTIFACT_TTL st of
           None \<Rightarrow>
             \<lparr>gv_tier = t, gv_reason = NoArtifact,
              gv_block_msg = Some (''Gate holds (tier '' @ ts @ '': no artifact). Submit grounding via submitGrounding. Deficient: all critical/ambiguous nodes'')\<rparr>
         | Some artifact_raw \<Rightarrow>
             (let art = lint (se_re env) artifact_raw
              in if \<not> covers_match (se_re env) (se_ser env) (pa_covers art) (tcc_tool_name ctx) (tcc_args ctx)
                 then \<lparr>gv_tier = t, gv_reason = CoversMismatch,
                       gv_block_msg = Some (''Gate holds (tier '' @ ts @ '': covers mismatch). Fix covers patterns.'')\<rparr>
                 else if (tier_u8 t \<ge> 2 \<and> (t \<noteq> TIrreversible \<or> sp_require_postconditions_t3 policy))
                         \<and> pa_postconditions art = []
                 then \<lparr>gv_tier = t, gv_reason = NoPostconditions,
                       gv_block_msg = Some (''Gate holds (tier '' @ ts @ '': missing postconditions). Add postconditions.'')\<rparr>
                 else
                   (let decision = decide gate_default art t
                    in if gd_requests decision \<noteq> []
                       then \<lparr>gv_tier = t, gv_reason = DeficientNodes,
                             gv_block_msg = Some (''Gate holds (tier '' @ ts @ '': deficient nodes). Ground: ''
                               @ join '', '' (gd_requests decision))\<rparr>
                       else case gd_action decision of
                              QueueForHuman \<Rightarrow>
                                \<lparr>gv_tier = t, gv_reason = Tier3Authorization,
                                 gv_block_msg = Some ''Tier-3 grounded: human authorization required.''\<rparr>
                            | _ \<Rightarrow> \<lparr>gv_tier = t, gv_reason = RequirementsMet, gv_block_msg = None\<rparr>)))"

definition decision_label :: "gate_verdict \<Rightarrow> bool \<Rightarrow> string" where
  "decision_label v artifact_has_postconditions =
     (if gv_reason v \<noteq> RequirementsMet then ''deny''
      else if gv_tier v = TIrreversible then ''ask''
      else if artifact_has_postconditions then ''pass_gated'' else ''pass'')"

definition authorization_prompt :: "nat \<Rightarrow> tool_call_context \<Rightarrow> nat \<Rightarrow> semiotic_state \<Rightarrow> string" where
  "authorization_prompt now ctx tier st =
     (let live = get_live now (tcc_runtime_scope ctx) ARTIFACT_TTL st;
          summary = (case live of Some a \<Rightarrow> pa_instruction a | None \<Rightarrow> ''Grounded tier-3 action'');
          post_count = (case live of Some a \<Rightarrow> length (pa_postconditions a) | None \<Rightarrow> 0);
          nl = [CHR 0x0A]
      in ''Tier-'' @ show_nat tier @ '' authorization required.'' @ nl @ nl @ ''Grounded intent: ''
         @ summary @ nl @ ''Postconditions declared: '' @ show_nat post_count @ nl @ nl
         @ ''Reply to approve and continue execution.'')"

definition apply_policy ::
  "semiotic_env \<Rightarrow> nat \<Rightarrow> semiotic_policy \<Rightarrow> gate_verdict \<Rightarrow> tool_call_context \<Rightarrow> semiotic_state
   \<Rightarrow> interceptor_decision \<times> semiotic_state" where
  "apply_policy env now policy v ctx st =
     (let u = tier_u8 (gv_tier v)
      in if gv_reason v = RequirementsMet
         then if gv_tier v = TIrreversible \<and> should_enforce policy u
              then (RequireAuthorization (authorization_prompt now ctx u st),
                    set_pending (se_ser env) (tcc_runtime_scope ctx) (tcc_tool_name ctx) (tcc_args ctx) st)
              else (Allow, st)
         else if should_enforce policy u
         then (Block (case gv_block_msg v of Some m \<Rightarrow> m | None \<Rightarrow> reason_str (gv_reason v)),
               record_denied (se_ser env) now (tcc_runtime_scope ctx) (tcc_tool_name ctx) (tcc_args ctx) u st)
         else (Allow, st))"

definition record_outcome ::
  "tool_call_context \<Rightarrow> gate_verdict \<Rightarrow> string \<Rightarrow> semiotic_state \<Rightarrow> semiotic_state" where
  "record_outcome ctx v label st =
     record_gate_outcome (tcc_runtime_scope ctx)
       (gate_outcome_new (tcc_tool_name ctx) (tier_u8 (gv_tier v)) label (gv_reason v) []) st"

definition register_postconditions_if_pass ::
  "nat \<Rightarrow> tool_call_context \<Rightarrow> gate_verdict \<Rightarrow> semiotic_state \<Rightarrow> semiotic_state" where
  "register_postconditions_if_pass now ctx v st =
     (if gv_reason v \<noteq> RequirementsMet then st
      else case get_live now (tcc_runtime_scope ctx) ARTIFACT_TTL st of
             None \<Rightarrow> st
           | Some artifact \<Rightarrow>
               if pa_postconditions artifact = [] then st
               else register_pending_postconditions (tcc_runtime_scope ctx)
                      \<lparr>pp_postconditions = pa_postconditions artifact, pp_tier = tier_u8 (gv_tier v),
                       pp_cwd = Option.bind (json_get (tcc_metadata ctx) ''cwd'') as_str\<rparr> st)"

subsection \<open>The interceptor\<close>

definition semiotic_intercept ::
  "semiotic_env \<Rightarrow> nat \<Rightarrow> tool_call_context \<Rightarrow> semiotic_state \<Rightarrow> interceptor_decision res \<times> semiotic_state" where
  "semiotic_intercept env now ctx st =
     (let config = config_for ctx st; scope = tcc_runtime_scope ctx
      in if \<not> sp_enabled config then (Ok Allow, st)
         else case is_granted (se_ser env) scope (tcc_tool_name ctx) (tcc_args ctx) st of
           (True, st1) \<Rightarrow>
             (let v = \<lparr>gv_tier = TIrreversible, gv_reason = RequirementsMet, gv_block_msg = None\<rparr>
              in (Ok Allow, register_postconditions_if_pass now ctx v (record_outcome ctx v ''pass_gated'' st1)))
         | (False, st1) \<Rightarrow>
             (let v = evaluate env now ctx (tool_meta_from_context ctx) config st1
              in if tier_u8 (gv_tier v) \<le> 1 then (Ok Allow, st1)
                 else
                   (let has_pc = (case get_live now scope ARTIFACT_TTL st1 of
                                    Some a \<Rightarrow> pa_postconditions a \<noteq> [] | None \<Rightarrow> False);
                        st2 = record_outcome ctx v (decision_label v has_pc) st1;
                        st3 = (if gv_reason v = RequirementsMet
                               then register_postconditions_if_pass now ctx v st2 else st2);
                        (d, st4) = apply_policy env now config v ctx st3
                    in (Ok d, st4))))"

definition opt_field :: "string \<Rightarrow> ('a \<Rightarrow> json) \<Rightarrow> 'a option \<Rightarrow> (string \<times> json) list" where
  "opt_field k f v = (case v of None \<Rightarrow> [] | Some x \<Rightarrow> [(k, f x)])"

definition gate_outcome_json :: "gate_outcome \<Rightarrow> json" where
  "gate_outcome_json g = JObject
     ([(''toolName'', JString (go_tool_name g)), (''tier'', JNumber (show_nat (go_tier g))),
       (''decision'', JString (go_decision g)), (''reasonCode'', JString (go_reason_code g))]
      @ (if go_deficient_nodes g = [] then []
         else [(''deficientNodes'', JArray (map JString (go_deficient_nodes g)))])
      @ opt_field ''postconditionPassed'' JBool (go_postcondition_passed g)
      @ opt_field ''gateAuthorization'' JBool (go_gate_authorization g)
      @ opt_field ''telemetryVerdict'' JString (go_telemetry_verdict g)
      @ opt_field ''secsSinceDenial'' (\<lambda>n. JNumber (show_nat n)) (go_secs_since_denial g))"

definition semiotic_stamp ::
  "tool_call_context \<Rightarrow> json \<Rightarrow> semiotic_state \<Rightarrow> json \<times> semiotic_state" where
  "semiotic_stamp ctx metadata st =
     (case take_gate_outcome (tcc_runtime_scope ctx) st of
        (None, st') \<Rightarrow> (metadata, st')
      | (Some gate, st') \<Rightarrow>
          (case metadata of
             JObject obj \<Rightarrow>
               (let gate' = (if go_decision gate = ''ask'' then gate\<lparr>go_gate_authorization := Some True\<rparr> else gate)
                in (JObject (obj_insert ''semiotic_gate'' (gate_outcome_json gate') obj), st'))
           | _ \<Rightarrow> (metadata, st')))"

definition semiotic_complete ::
  "semiotic_env \<Rightarrow> tool_call_context \<Rightarrow> json res \<Rightarrow> semiotic_state \<Rightarrow> semiotic_state" where
  "semiotic_complete env ctx result st =
     (let scope = tcc_runtime_scope ctx
      in if \<not> sp_enabled (config_for ctx st) then st
         else if \<not> is_ok result then st
         else case take_pending_postconditions scope st of
           (None, st1) \<Rightarrow> consume scope st1
         | (Some pending, st1) \<Rightarrow>
             (let run = run_postconditions (se_sh env) (pp_postconditions pending) (pp_cwd pending);
                  (taken, st2) = take_gate_outcome scope st1;
                  out = (case taken of
                           Some g \<Rightarrow> g
                         | None \<Rightarrow> gate_outcome_new (tcc_tool_name ctx) (pp_tier pending) ''pass_gated'' RequirementsMet [])
              in consume scope
                   (record_gate_outcome scope (out\<lparr>go_postcondition_passed := Some (prun_passed run)\<rparr>) st2)))"

definition semiotic_interceptor :: "semiotic_env \<Rightarrow> nat \<Rightarrow> semiotic_state tool_interceptor" where
  "semiotic_interceptor env now =
     \<lparr>ti_intercept = semiotic_intercept env now,
      ti_complete = (\<lambda>ctx r d st. semiotic_complete env ctx r st),
      ti_stamp = semiotic_stamp\<rparr>"

definition trojan_lint_intercept :: "regex_engine \<Rightarrow> (json \<Rightarrow> string) \<Rightarrow> llm_call_context \<Rightarrow> interceptor_decision res" where
  "trojan_lint_intercept re show_json ctx =
     (let found = detect re (show_json (llm_prompt ctx)) in if found = [] then Ok Allow else Ok Allow)"

subsection \<open>Single calls\<close>

definition call_tier :: "tool_call_context \<Rightarrow> tier" where
  "call_tier ctx = classify_tier (tool_meta_from_context ctx)"

definition enforced :: "tool_call_context \<Rightarrow> semiotic_state \<Rightarrow> bool" where
  "enforced ctx st \<longleftrightarrow> should_enforce (config_for ctx st) (tier_u8 (call_tier ctx))"

definition authorized :: "semiotic_env \<Rightarrow> tool_call_context \<Rightarrow> semiotic_state \<Rightarrow> bool" where
  "authorized env ctx st \<longleftrightarrow>
     (\<exists>e. ss_auth st (scope_key (tcc_runtime_scope ctx)) = Some e \<and> au_granted e
        \<and> au_tool_name e = tcc_tool_name ctx
        \<and> au_args_fingerprint e = fingerprint (se_ser env) (tcc_tool_name ctx) (tcc_args ctx))"

definition well_grounded :: "semiotic_env \<Rightarrow> nat \<Rightarrow> tool_call_context \<Rightarrow> semiotic_state \<Rightarrow> bool" where
  "well_grounded env now ctx st \<longleftrightarrow>
     (\<exists>art. get_live now (tcc_runtime_scope ctx) ARTIFACT_TTL st = Some art
        \<and> covers_match (se_re env) (se_ser env) (pa_covers art) (tcc_tool_name ctx) (tcc_args ctx)
        \<and> (pa_postconditions art \<noteq> [] \<or>
             call_tier ctx = TIrreversible \<and> \<not> sp_require_postconditions_t3 (config_for ctx st))
        \<and> gd_requests (decide gate_default (lint (se_re env) art) (call_tier ctx)) = [])"

lemma lint_same [simp]:
  "pa_covers (lint re art) = pa_covers art" "pa_postconditions (lint re art) = pa_postconditions art"
  by (simp_all add: lint_def Let_def)

lemma evaluate_tier [simp]: "gv_tier (evaluate env now ctx (tool_meta_from_context ctx) p st) = call_tier ctx"
  by (auto simp: evaluate_def Let_def call_tier_def split: option.splits gate_action.splits)

lemma evaluate_met:
  assumes "2 \<le> tier_u8 (call_tier ctx)"
  shows "gv_reason (evaluate env now ctx (tool_meta_from_context ctx) (config_for ctx st) st) = RequirementsMet
     \<longleftrightarrow> well_grounded env now ctx st"
proof -
  have q: "gd_action (decide g art t) \<noteq> QueueForHuman" if "deficient_nodes g art t = []" for g art t
    using that decide_queue_requests [of g art t] by auto
  show ?thesis
    using assms q
    by (auto simp: evaluate_def well_grounded_def Let_def call_tier_def split: option.splits gate_action.splits)
qed

lemma granted_cases:
  "is_granted (se_ser env) (tcc_runtime_scope ctx) (tcc_tool_name ctx) (tcc_args ctx) st =
     (if authorized env ctx st
      then (True, st\<lparr>ss_auth := (ss_auth st)(scope_key (tcc_runtime_scope ctx) := None)\<rparr>)
      else (False, st))"
  by (auto simp: is_granted_def authorized_def split: option.splits)

lemma register_if_pass_auth [simp]:
  "ss_auth (register_postconditions_if_pass now ctx v st) = ss_auth st"
  "ss_config (register_postconditions_if_pass now ctx v st) = ss_config st"
  "ss_grounding (register_postconditions_if_pass now ctx v st) = ss_grounding st"
  by (auto simp: register_postconditions_if_pass_def register_pending_postconditions_def split: option.splits)

lemma record_outcome_auth [simp]:
  "ss_auth (record_outcome ctx v l st) = ss_auth st" "ss_config (record_outcome ctx v l st) = ss_config st"
  "ss_grounding (record_outcome ctx v l st) = ss_grounding st"
  by (simp_all add: record_outcome_def record_gate_outcome_def)

text \<open>The decision of the interceptor, in terms of the call's tier, authorization and grounding.\<close>

lemma intercept_decision:
  "fst (semiotic_intercept env now ctx st) = Ok Allow \<longleftrightarrow>
     \<not> sp_enabled (config_for ctx st) \<or> authorized env ctx st \<or> tier_u8 (call_tier ctx) \<le> 1
     \<or> \<not> enforced ctx st \<or> call_tier ctx = TMutating \<and> well_grounded env now ctx st"
proof (cases "sp_enabled (config_for ctx st) \<and> \<not> authorized env ctx st \<and> 2 \<le> tier_u8 (call_tier ctx)")
  case True
  let ?v = "evaluate env now ctx (tool_meta_from_context ctx) (config_for ctx st) st"
  have "fst (semiotic_intercept env now ctx st) = Ok Allow \<longleftrightarrow>
      (if gv_reason ?v = RequirementsMet
       then \<not> (call_tier ctx = TIrreversible \<and> enforced ctx st) else \<not> enforced ctx st)"
    using True by (auto simp: semiotic_intercept_def Let_def granted_cases apply_policy_def enforced_def
        split: prod.split)
  with True show ?thesis
    unfolding evaluate_met [OF conjunct2 [OF conjunct2 [OF True]]] by (auto simp: tier_ge_2)
next
  case False
  then show ?thesis by (auto simp: semiotic_intercept_def Let_def granted_cases)
qed

lemma apply_policy_decides:
  "fst (apply_policy env now p v ctx st) = Allow \<or> stops (Ok (fst (apply_policy env now p v ctx st)))"
  by (simp add: apply_policy_def Let_def stops_def)

lemma semiotic_decides:
  "\<exists>d. fst (semiotic_intercept env now ctx st) = Ok d \<and> (d = Allow \<or> stops (Ok d))"
proof (cases "sp_enabled (config_for ctx st) \<and> \<not> authorized env ctx st")
  case True
  then show ?thesis
    using apply_policy_decides by (simp add: semiotic_intercept_def granted_cases Let_def case_prod_beta)
next
  case False
  then show ?thesis by (auto simp: semiotic_intercept_def granted_cases Let_def)
qed

text \<open>
  C2: under enforcement an irreversible call is let through exactly when a user has authorized it:
  there is a granted authorization in its scope for this tool and these arguments.  No artifact, tag
  or earlier authorization is enough, and being let through uses the authorization up.
\<close>

theorem irreversible_needs_authorization:
  assumes "call_tier ctx = TIrreversible" "enforced ctx st"
  shows "(fst (semiotic_intercept env now ctx st) = Ok Allow \<longleftrightarrow> authorized env ctx st)
    \<and> (authorized env ctx st \<longrightarrow>
         ss_auth (snd (semiotic_intercept env now ctx st)) (scope_key (tcc_runtime_scope ctx)) = None)"
proof -
  have en: "sp_enabled (config_for ctx st)" using assms(2) by (simp add: enforced_def should_enforce_def)
  have "ss_auth (snd (semiotic_intercept env now ctx st)) (scope_key (tcc_runtime_scope ctx)) = None"
    if "authorized env ctx st"
    using that en by (simp add: semiotic_intercept_def Let_def granted_cases)
  with en assms show ?thesis by (simp add: intercept_decision)
qed

text \<open>
  C5: under enforcement a mutating call is let through exactly when it is authorized or well
  grounded: a live artifact of its scope covers the call, declares postconditions, and after the
  trojan lint leaves no critical or ambiguous node without a strong anchor.
\<close>

theorem mutating_needs_grounding:
  assumes "call_tier ctx = TMutating" "enforced ctx st"
  shows "fst (semiotic_intercept env now ctx st) = Ok Allow \<longleftrightarrow>
     authorized env ctx st \<or> well_grounded env now ctx st"
  using assms by (auto simp: intercept_decision enforced_def should_enforce_def)

text \<open>
  the gate only observes where it is not enforced: when it is off, in dry-run mode, or below the
  enforced tier, and for read and routine tools in any case, every call is let through.
\<close>

theorem unenforced_never_holds:
  assumes "\<not> enforced ctx st \<or> tier_u8 (call_tier ctx) \<le> 1"
  shows "fst (semiotic_intercept env now ctx st) = Ok Allow"
  using assms by (auto simp: intercept_decision)

subsection \<open>Concrete calls\<close>

definition witness_env :: semiotic_env where
  "witness_env = \<lparr>se_re = \<lparr>re_find = (\<lambda>p t. Some (if p = ''*'' then Some (0, length t) else None)), re_escape = (\<lambda>p. p)\<rparr>,
     se_ser = (\<lambda>_. Some ''{}''), se_sh = (\<lambda>cmd cwd. Exited (Some 0) [] [])\<rparr>"

definition enforce_config :: semiotic_config where
  "enforce_config = \<lparr>sc_default = policy_default\<lparr>sp_enabled := True, sp_mode := Enforce\<rparr>, sc_overrides = []\<rparr>"

definition enforce_state :: semiotic_state where
  "enforce_state = state_init\<lparr>ss_config := enforce_config\<rparr>"

definition call_with_access :: "string \<Rightarrow> tool_call_context" where
  "call_with_access access = witness_call\<lparr>tcc_metadata := JObject [(''access_level'', JString access)]\<rparr>"

lemma call_tiers [simp]:
  "call_tier (call_with_access ''delete'') = TIrreversible"
  "call_tier (call_with_access ''write'') = TMutating"
  "call_tier (call_with_access ''read'') = TRead"
  by (simp_all add: call_tier_def call_with_access_def witness_call_def tool_meta_from_context_def
      classify_tier_def json_get_def obj_get_def as_str_def)

lemma call_fields [simp]:
  "tcc_runtime_scope (call_with_access a) = TaskScope ''c'' ''a'' ''m'' ''t''"
  "tcc_tool_name (call_with_access a) = ''db/drop''" "tcc_args (call_with_access a) = JObject []"
  "tcc_agent_package (call_with_access a) = None"
  by (simp_all add: call_with_access_def witness_call_def)

lemma config_for_enforce [simp]:
  "ss_config st = enforce_config \<Longrightarrow> config_for (call_with_access a) st = sc_default enforce_config"
  by (simp add: config_for_def resolve_semiotic_policy_def resolve_policy_def)

lemma enforced_witness [simp]:
  "ss_config st = enforce_config \<Longrightarrow> enforced (call_with_access a) st \<longleftrightarrow> 2 \<le> tier_u8 (call_tier (call_with_access a))"
  by (simp add: enforced_def should_enforce_def enforce_config_def policy_default_def)

theorem irreversible_needs_authorization_witness:
  "fst (semiotic_intercept witness_env 0 (call_with_access ''delete'') enforce_state) \<noteq> Ok Allow"
  using irreversible_needs_authorization [of "call_with_access ''delete''" enforce_state witness_env 0]
  by (simp add: enforce_state_def authorized_def state_init_def)

theorem mutating_needs_grounding_witness:
  "fst (semiotic_intercept witness_env 0 (call_with_access ''write'') enforce_state) \<noteq> Ok Allow"
  using mutating_needs_grounding [of "call_with_access ''write''" enforce_state witness_env 0]
  by (simp add: enforce_state_def authorized_def state_init_def well_grounded_def get_live_def)

theorem unenforced_never_holds_witness:
  "fst (semiotic_intercept witness_env 0 (call_with_access ''read'') enforce_state) = Ok Allow"
  by (rule unenforced_never_holds) simp

end
