(* ===== verification/Semiotic_History.thy ===== *)
theory Semiotic_History
  imports Semiotic_Interceptor
begin

text \<open>
  Histories of the semiotic gate: every interleaving of configuration changes, submissions, tool
  calls, the hooks around them and user replies, over the operations of
  \<^verbatim>\<open>crates/baml-rt-semiotic/src\<close>.  The theorems count authorizations along a history and show
  what the hooks do across calls.
\<close>

subsection \<open>Histories\<close>

text \<open>Everything that reaches the gate: configuration, grounding, calls and their hooks, user replies.\<close>

datatype gate_event =
    EvConfig semiotic_config
  | EvSubmit nat runtime_scope parse_artifact "string option"
  | EvCall nat tool_call_context
  | EvStamp tool_call_context json
  | EvComplete tool_call_context "json res"
  | EvResume runtime_scope string

fun gate_step :: "semiotic_env \<Rightarrow> gate_event \<Rightarrow> semiotic_state \<Rightarrow> semiotic_state" where
  "gate_step env (EvConfig c) st = set_global_semiotic_config c st"
| "gate_step env (EvSubmit now sc art p) st = submit_grounding now sc art p st"
| "gate_step env (EvCall now ctx) st = snd (semiotic_intercept env now ctx st)"
| "gate_step env (EvStamp ctx m) st = snd (semiotic_stamp ctx m st)"
| "gate_step env (EvComplete ctx r) st = semiotic_complete env ctx r st"
| "gate_step env (EvResume sc reply) st = snd (resolve_on_resume sc reply st)"

text \<open>An irreversible call under key \<open>k\<close> that is let through while the gate is enforced for it.\<close>

fun lets_irreversible :: "semiotic_env \<Rightarrow> string \<Rightarrow> gate_event \<Rightarrow> semiotic_state \<Rightarrow> bool" where
  "lets_irreversible env k (EvCall now ctx) st \<longleftrightarrow>
     scope_key (tcc_runtime_scope ctx) = k \<and> call_tier ctx = TIrreversible \<and> enforced ctx st
     \<and> fst (semiotic_intercept env now ctx st) = Ok Allow"
| "lets_irreversible env k _ st \<longleftrightarrow> False"

text \<open>A user reply under key \<open>k\<close> that grants a pending authorization.\<close>

fun grants :: "string \<Rightarrow> gate_event \<Rightarrow> semiotic_state \<Rightarrow> bool" where
  "grants k (EvResume sc reply) st \<longleftrightarrow> scope_key sc = k \<and> fst (resolve_on_resume sc reply st) = Granted"
| "grants k _ st \<longleftrightarrow> False"

definition grant_open :: "string \<Rightarrow> semiotic_state \<Rightarrow> nat" where
  "grant_open k st = (case ss_auth st k of Some e \<Rightarrow> if au_granted e then 1 else 0 | None \<Rightarrow> 0)"

lemma grant_open_same: "ss_auth st' = ss_auth st \<Longrightarrow> grant_open k st' = grant_open k st"
  by (simp add: grant_open_def)

lemma complete_auth: "ss_auth (semiotic_complete env ctx r st) = ss_auth st"
  by (auto simp: semiotic_complete_def Let_def consume_def take_pending_postconditions_def
      take_gate_outcome_def record_gate_outcome_def split: option.splits)

lemma stamp_auth: "ss_auth (snd (semiotic_stamp ctx m st)) = ss_auth st"
  by (auto simp: semiotic_stamp_def take_gate_outcome_def Let_def split: option.splits json.splits)

lemma apply_policy_auth:
  "apply_policy env now p v ctx st = (d, st') \<Longrightarrow> grant_open k st' \<le> grant_open k st"
  by (auto simp: apply_policy_def Let_def set_pending_def record_denied_def grant_open_def split: if_splits)

lemma intercept_unauthorized_auth:
  assumes "\<not> authorized env ctx st"
  shows "grant_open k (snd (semiotic_intercept env now ctx st)) \<le> grant_open k st"
proof -
  let ?v = "evaluate env now ctx (tool_meta_from_context ctx) (config_for ctx st) st"
  have "grant_open k (snd (apply_policy env now p ?v ctx st3)) \<le> grant_open k st"
    if "ss_auth st3 = ss_auth st" for p st3
    using apply_policy_auth [of env now p ?v ctx st3] that
    by (metis grant_open_same prod.collapse)
  then show ?thesis
    using assms by (auto simp: semiotic_intercept_def Let_def granted_cases case_prod_beta)
qed

lemma intercept_authorized_auth:
  assumes "authorized env ctx st" "sp_enabled (config_for ctx st)"
  shows "ss_auth (snd (semiotic_intercept env now ctx st)) =
     (ss_auth st)(scope_key (tcc_runtime_scope ctx) := None)"
  using assms by (simp add: semiotic_intercept_def Let_def granted_cases)

lemma intercept_disabled: "\<not> sp_enabled (config_for ctx st) \<Longrightarrow> snd (semiotic_intercept env now ctx st) = st"
  by (simp add: semiotic_intercept_def Let_def)

lemma authorized_open: "authorized env ctx st \<Longrightarrow> grant_open (scope_key (tcc_runtime_scope ctx)) st = 1"
  by (auto simp: authorized_def grant_open_def)

lemma call_potential:
  "(if lets_irreversible env k (EvCall now ctx) st then 1 else 0)
     + grant_open k (snd (semiotic_intercept env now ctx st)) \<le> grant_open k st"
proof (cases "authorized env ctx st \<and> sp_enabled (config_for ctx st)")
  case True
  have "ss_auth (snd (semiotic_intercept env now ctx st)) = (ss_auth st)(scope_key (tcc_runtime_scope ctx) := None)"
    using True intercept_authorized_auth by blast
  then have "grant_open k (snd (semiotic_intercept env now ctx st)) =
      (if k = scope_key (tcc_runtime_scope ctx) then 0 else grant_open k st)"
    by (simp add: grant_open_def)
  then show ?thesis using True authorized_open [of env ctx st] by auto
next
  case False
  then have "\<not> lets_irreversible env k (EvCall now ctx) st"
    by (auto simp: intercept_decision enforced_def should_enforce_def)
  moreover have "grant_open k (snd (semiotic_intercept env now ctx st)) \<le> grant_open k st"
    using False intercept_unauthorized_auth intercept_disabled
    by (cases "sp_enabled (config_for ctx st)") auto
  ultimately show ?thesis by (simp only: if_False add_0)
qed

lemma resume_potential:
  "grant_open k (snd (resolve_on_resume sc reply st))
     \<le> grant_open k st + (if grants k (EvResume sc reply) st then 1 else 0)"
  by (auto simp: resolve_on_resume_def grant_open_def split: option.splits)

lemma step_potential:
  "(if lets_irreversible env k e st then 1 else 0) + grant_open k (gate_step env e st)
     \<le> grant_open k st + (if grants k e st then 1 else 0)"
proof (cases e)
  case (EvCall now ctx)
  then show ?thesis using call_potential [of env k now ctx st] by simp
next
  case (EvResume sc reply)
  then show ?thesis using resume_potential [of k sc reply st] by simp
qed (simp_all add: grant_open_def complete_auth stamp_auth set_global_semiotic_config_def submit_grounding_def)

interpretation gate_meter: metered "gate_step env" "lets_irreversible env k" "grants k" "grant_open k"
  by unfold_locales (rule step_potential)

text \<open>
  C3: in every history of the gate, however configuration, grounding, calls, hooks and replies are
  interleaved, an agent and task are let through at most as many enforced irreversible calls as the
  user granted replies: no grant is used twice, and none comes from anything but a reply.
\<close>

theorem irreversible_calls_counted:
  "count_along (gate_step env) (lets_irreversible env k) es state_init
     \<le> count_along (gate_step env) (grants k) es state_init"
  by (rule gate_meter.uses_le_earned) (simp add: grant_open_def state_init_def)

subsection \<open>Hooks\<close>

text \<open>
  any successful call uses up the grounding of its scope: the completion hook does not look at
  the tier, so a read that completes between the submission of an artifact and the mutating call it
  was made for leaves that call without a live artifact.
\<close>

theorem read_completion_consumes_grounding:
  assumes "sp_enabled (config_for rd st)"
    and "scope_key (tcc_runtime_scope rd) = scope_key (tcc_runtime_scope wr)"
  shows "get_live later (tcc_runtime_scope wr) ARTIFACT_TTL
           (semiotic_complete env rd (Ok v)
              (submit_grounding now (tcc_runtime_scope wr) art p st)) = None"
proof -
  have "config_for rd (submit_grounding now (tcc_runtime_scope wr) art p st) = config_for rd st"
    by (simp add: config_for_def resolve_semiotic_policy_def submit_grounding_def)
  then show ?thesis
    using assms by (simp add: semiotic_complete_def Let_def get_live_consume case_prod_beta split: option.split)
qed

theorem read_completion_consumes_grounding_witness:
  "get_live 1 (TaskScope ''c'' ''a'' ''m'' ''t'') ARTIFACT_TTL
     (semiotic_complete witness_env (call_with_access ''read'') (Ok JNull)
        (submit_grounding 0 (TaskScope ''c'' ''a'' ''m'' ''t'') (art_of ''archive'' []) None enforce_state)) = None"
  using read_completion_consumes_grounding [of "call_with_access ''read''" enforce_state
      "call_with_access ''write''" 1 witness_env JNull 0 "art_of ''archive'' []" None]
  by (simp add: enforce_state_def enforce_config_def)

text \<open>
  the verification result of a call is stamped on a later one.  The completion hook runs after
  the call's metadata was stamped and files the outcome again; the next call of the scope that the
  gate does not judge, a read for instance, then carries the outcome of the call before it.
\<close>

theorem stale_outcome_stamped:
  assumes "sp_enabled (config_for wr st)" "scope_key (tcc_runtime_scope wr) = scope_key (tcc_runtime_scope rd)"
    and "ss_pending st (scope_key (tcc_runtime_scope wr)) = Some pending"
    and "ss_outcomes st (scope_key (tcc_runtime_scope wr)) = None"
    and "tier_u8 (call_tier rd) \<le> 1" "\<not> authorized env rd st"
  shows "let st1 = semiotic_complete env wr (Ok v) st; st2 = snd (semiotic_intercept env now rd st1) in
     \<exists>g. fst (semiotic_stamp rd (JObject []) st2) = JObject [(''semiotic_gate'', gate_outcome_json g)]
         \<and> go_tool_name g = tcc_tool_name wr"
proof -
  let ?k = "scope_key (tcc_runtime_scope rd)"
  define st1 where "st1 = semiotic_complete env wr (Ok v) st"
  define g where "g = (gate_outcome_new (tcc_tool_name wr) (pp_tier pending) ''pass_gated'' RequirementsMet [])
    \<lparr>go_postcondition_passed := Some (prun_passed (run_postconditions (se_sh env) (pp_postconditions pending) (pp_cwd pending)))\<rparr>"
  have o1: "ss_outcomes st1 ?k = Some g"
    using assms(1-4)
    by (auto simp: st1_def semiotic_complete_def Let_def take_pending_postconditions_def
        take_gate_outcome_def record_gate_outcome_def consume_def g_def split: option.splits)
  have "\<not> authorized env rd st1" using assms(6) by (simp add: authorized_def st1_def complete_auth)
  then have "snd (semiotic_intercept env now rd st1) = st1"
    using assms(5) by (auto simp: semiotic_intercept_def Let_def granted_cases)
  moreover have "go_decision g \<noteq> ''ask''" "go_tool_name g = tcc_tool_name wr"
    by (simp_all add: g_def gate_outcome_new_def)
  ultimately show ?thesis
    using o1 unfolding st1_def [symmetric] Let_def
    by (auto simp: semiotic_stamp_def take_gate_outcome_def)
qed

theorem stale_outcome_stamped_witness:
  "\<exists>g. fst (semiotic_stamp (call_with_access ''read'') (JObject [])
      (snd (semiotic_intercept witness_env 0 (call_with_access ''read'')
        (semiotic_complete witness_env (call_with_access ''write'') (Ok JNull)
          (register_pending_postconditions (TaskScope ''c'' ''a'' ''m'' ''t'')
             \<lparr>pp_postconditions = [], pp_tier = 2, pp_cwd = None\<rparr> enforce_state)))))
     = JObject [(''semiotic_gate'', gate_outcome_json g)] \<and> go_tool_name g = ''db/drop''"
  using stale_outcome_stamped [of "call_with_access ''write''"
      "register_pending_postconditions (TaskScope ''c'' ''a'' ''m'' ''t'')
         \<lparr>pp_postconditions = [], pp_tier = 2, pp_cwd = None\<rparr> enforce_state" "call_with_access ''read''"
      "\<lparr>pp_postconditions = [], pp_tier = 2, pp_cwd = None\<rparr>" witness_env JNull 0]
  by (simp add: register_pending_postconditions_def enforce_state_def state_init_def authorized_def)
     (simp add: enforce_config_def)

end
