(* ===== verification/Execution_Session.thy ===== *)
theory Execution_Session
  imports Planning Semiotic_History
begin

text \<open>
  Execution sessions of \<^verbatim>\<open>crates/baml-rt-quickjs/src/quickjs_bridge/baml_registration.rs\<close>: the state
  machine \<^verbatim>\<open>ExecutionSession\<close> (intent, plan, steps), its lineage epochs and the command handler
  behind \<^verbatim>\<open>__execution_session_invoke\<close>.  A JavaScript error is its message.  The properties
  are in \<open>Execution_Plan\<close>.
\<close>

subsection \<open>The state machine\<close>

record session_base =
  sb_owner_scope :: runtime_scope
  sb_owner_task_id :: string
  sb_owner_context_id :: string

record executable =
  ex_base :: session_base
  ex_intent_id :: string
  ex_plan_id :: string
  ex_plan_steps :: "string list"
  ex_step_status :: "string \<Rightarrow> string option"
  ex_step_deps :: "string \<Rightarrow> string list option"
  ex_completed :: "string set"
  ex_epoch :: nat
  ex_current_step_id :: "string option"

datatype execution_session =
    AwaitIntent session_base
  | AwaitPlan session_base string nat
  | Executable executable
  | ClosedSession session_base

type_synonym 'a js = "(string, 'a) result"

record step_transition_event =
  ste_intent_id :: string
  ste_plan_id :: string
  ste_scope :: runtime_scope
  ste_step_id :: string
  ste_old_status :: string
  ste_new_status :: string
  ste_citations :: "citation list"
  ste_epoch :: nat

record step_abort_event =
  sae_intent_id :: string
  sae_plan_id :: string
  sae_scope :: runtime_scope
  sae_step_id :: string
  sae_old_status :: string
  sae_reason :: string
  sae_epoch :: nat

fun session_base_of :: "execution_session \<Rightarrow> session_base" where
  "session_base_of (AwaitIntent b) = b"
| "session_base_of (AwaitPlan b _ _) = b"
| "session_base_of (Executable x) = ex_base x"
| "session_base_of (ClosedSession b) = b"

fun session_epoch :: "execution_session \<Rightarrow> nat option" where
  "session_epoch (AwaitPlan _ _ e) = Some e"
| "session_epoch (Executable x) = Some (ex_epoch x)"
| "session_epoch _ = None"

definition session_new :: "runtime_scope \<Rightarrow> string \<Rightarrow> execution_session" where
  "session_new scope task = AwaitIntent
     \<lparr>sb_owner_scope = scope, sb_owner_task_id = task, sb_owner_context_id = context_id scope\<rparr>"

fun into_await_plan :: "execution_session \<Rightarrow> string \<Rightarrow> nat \<Rightarrow> execution_session js" where
  "into_await_plan (AwaitIntent b) intent epoch = Ok (AwaitPlan b intent epoch)"
| "into_await_plan _ intent epoch = Err ''execution session cannot submitIntent in current phase''"

fun into_executable ::
  "execution_session \<Rightarrow> string \<Rightarrow> string list \<Rightarrow> (string \<Rightarrow> string option) \<Rightarrow> (string \<Rightarrow> string list option) \<Rightarrow> nat
   \<Rightarrow> execution_session js" where
  "into_executable (AwaitPlan b intent _) plan steps status deps epoch =
     Ok (Executable \<lparr>ex_base = b, ex_intent_id = intent, ex_plan_id = plan, ex_plan_steps = steps,
                     ex_step_status = status, ex_step_deps = deps, ex_completed = {}, ex_epoch = epoch,
                     ex_current_step_id = None\<rparr>)"
| "into_executable _ plan steps status deps epoch = Err ''execution session cannot submitPlan in current phase''"

fun into_closed :: "execution_session \<Rightarrow> execution_session js" where
  "into_closed (ClosedSession _) = Err ''execution session already closed''"
| "into_closed s = Ok (ClosedSession (session_base_of s))"

definition missing_dep :: "string set \<Rightarrow> string list \<Rightarrow> string option" where
  "missing_dep completed deps = List.find (\<lambda>d. d \<notin> completed) deps"

definition transition_event ::
  "executable \<Rightarrow> string \<Rightarrow> string \<Rightarrow> string \<Rightarrow> citation list \<Rightarrow> step_transition_event" where
  "transition_event x step old_status new_status cs =
     \<lparr>ste_intent_id = ex_intent_id x, ste_plan_id = ex_plan_id x, ste_scope = sb_owner_scope (ex_base x),
      ste_step_id = step, ste_old_status = old_status, ste_new_status = new_status, ste_citations = cs,
      ste_epoch = ex_epoch x\<rparr>"

fun apply_start_step ::
  "execution_session \<Rightarrow> string \<Rightarrow> citation list \<Rightarrow> (execution_session \<times> step_transition_event) js" where
  "apply_start_step (Executable x) step cs =
     (case ex_step_status x step of
        None \<Rightarrow> Err ''stepId does not exist in plan''
      | Some old_status \<Rightarrow>
          if old_status \<noteq> ''pending''
          then Err (''step cannot transition to in_progress from '' @ old_status @ '': '' @ step)
          else case missing_dep (ex_completed x) (case ex_step_deps x step of Some ds \<Rightarrow> ds | None \<Rightarrow> []) of
                 Some dep \<Rightarrow> Err (''cannot start step before dependency: '' @ dep)
               | None \<Rightarrow>
                   Ok (Executable (x\<lparr>ex_step_status := (ex_step_status x)(step \<mapsto> ''in_progress''),
                                     ex_current_step_id := Some step\<rparr>),
                       transition_event x step old_status ''in_progress'' cs))"
| "apply_start_step _ step cs = Err ''execution session is not executable''"

fun apply_complete_step ::
  "execution_session \<Rightarrow> string \<Rightarrow> citation list \<Rightarrow> (execution_session \<times> step_transition_event) js" where
  "apply_complete_step (Executable x) step cs =
     (case ex_step_status x step of
        None \<Rightarrow> Err ''stepId does not exist in plan''
      | Some old_status \<Rightarrow>
          if old_status \<noteq> ''in_progress''
          then Err (''step cannot transition to completed from '' @ old_status @ '': '' @ step)
          else Ok (Executable (x\<lparr>ex_step_status := (ex_step_status x)(step \<mapsto> ''completed''),
                                 ex_completed := insert step (ex_completed x),
                                 ex_current_step_id :=
                                   (if ex_current_step_id x = Some step then None else ex_current_step_id x)\<rparr>),
                   transition_event x step old_status ''completed'' cs))"
| "apply_complete_step _ step cs = Err ''execution session is not executable''"

fun abort_steps ::
  "executable \<Rightarrow> string \<Rightarrow> string list \<Rightarrow> (string \<Rightarrow> string option) \<Rightarrow> step_abort_event list" where
  "abort_steps x reason [] status = []"
| "abort_steps x reason (step # steps) status =
     (let current = (case status step of Some s \<Rightarrow> s | None \<Rightarrow> ''pending'')
      in if current = ''completed'' \<or> current = ''aborted'' then abort_steps x reason steps status
         else \<lparr>sae_intent_id = ex_intent_id x, sae_plan_id = ex_plan_id x,
               sae_scope = sb_owner_scope (ex_base x), sae_step_id = step, sae_old_status = current,
               sae_reason = reason, sae_epoch = ex_epoch x\<rparr>
              # abort_steps x reason steps (status(step \<mapsto> ''aborted'')))"

definition apply_abort :: "execution_session \<Rightarrow> string \<Rightarrow> execution_session \<times> step_abort_event list" where
  "apply_abort s reason =
     (ClosedSession (session_base_of s),
      (case s of Executable x \<Rightarrow> abort_steps x reason (ex_plan_steps x) (ex_step_status x) | _ \<Rightarrow> []))"

subsection \<open>Checks\<close>

definition parse_supersession :: "string \<Rightarrow> planning_supersession_kind option" where
  "parse_supersession s =
     (let t = trim s
      in if t = ''replaced'' \<or> t = ''replaced_by'' \<or> t = ''replacedBy'' then Some ReplacedBy
         else if t = ''refined'' \<or> t = ''refined_by'' \<or> t = ''refinedBy'' then Some RefinedBy
         else None)"

definition ensure_lineage_epoch_matches ::
  "execution_session \<Rightarrow> (string \<Rightarrow> nat option) \<Rightarrow> string \<Rightarrow> unit js" where
  "ensure_lineage_epoch_matches s epochs task =
     (case session_epoch s of
        None \<Rightarrow> Ok ()
      | Some e \<Rightarrow>
          (let current = (case epochs task of Some n \<Rightarrow> n | None \<Rightarrow> 0)
           in if e \<noteq> current
              then Err (''stale lineage: session epoch '' @ show_nat e @ '' does not match current ''
                        @ show_nat current @ '' (session was superseded)'')
              else Ok ()))"

definition ensure_execution_session_scope_matches :: "session_base \<Rightarrow> runtime_scope \<Rightarrow> unit js" where
  "ensure_execution_session_scope_matches b scope =
     (case task_id_opt scope of
        None \<Rightarrow> Err ''execution session action requires task scope''
      | Some t \<Rightarrow>
          if t \<noteq> sb_owner_task_id b \<or> context_id scope \<noteq> sb_owner_context_id b
          then Err (''execution session scope mismatch: action rejected (expected task/context ''
                    @ sb_owner_task_id b @ ''/'' @ sb_owner_context_id b @ '', got '' @ t @ ''/''
                    @ context_id scope @ '')'')
          else Ok ())"

definition next_epoch :: "nat \<Rightarrow> nat" where
  "next_epoch n = min (n + 1) (2 ^ 64 - 1)"

definition advance_epoch ::
  "bool \<Rightarrow> string \<Rightarrow> (string \<Rightarrow> nat option) \<Rightarrow> nat \<times> (string \<Rightarrow> nat option)" where
  "advance_epoch supersedes task epochs =
     (let current = (case epochs task of Some n \<Rightarrow> n | None \<Rightarrow> 0);
          e = (if supersedes then next_epoch current else current)
      in (e, epochs(task \<mapsto> e)))"

record plan_tables =
  pt_emit :: "json list"
  pt_ids :: "string list"
  pt_status :: "string \<Rightarrow> string option"
  pt_deps :: "string \<Rightarrow> string list option"

definition plan_step_deps :: "plan_step_submission \<Rightarrow> string list" where
  "plan_step_deps p = filter (\<lambda>d. d \<noteq> []) (map trim (pss_depends_on p))"

definition add_plan_step :: "plan_step_submission \<Rightarrow> plan_tables \<Rightarrow> plan_tables" where
  "add_plan_step p t =
     \<lparr>pt_emit = pt_emit t @ [JObject [(''step_id'', JString (pss_step_id p)),
         (''description'', JString (pss_description p)), (''order'', JNumber (show_nat (pss_order p))),
         (''depends_on'', JArray (map JString (plan_step_deps p)))]],
      pt_ids = pt_ids t @ [pss_step_id p],
      pt_status = (pt_status t)(pss_step_id p \<mapsto> ''pending''),
      pt_deps = (pt_deps t)(pss_step_id p \<mapsto> plan_step_deps p)\<rparr>"

fun read_plan_steps :: "plan_step_submission list \<Rightarrow> plan_tables \<Rightarrow> plan_tables js" where
  "read_plan_steps [] t = Ok t"
| "read_plan_steps (p # ps) t =
     (if pss_step_id p \<in> set (pt_ids t) then Err (''duplicate plan stepId: '' @ pss_step_id p)
      else read_plan_steps ps (add_plan_step p t))"

subsection \<open>The command handler\<close>

record 'b session_store =
  st_sessions :: "string \<Rightarrow> execution_session option"
  st_epochs :: "string \<Rightarrow> nat option"
  st_semiotic :: semiotic_state
  st_bus :: 'b

text \<open>The scope a command runs in: the caller's for \<^verbatim>\<open>Open\<close>, the session's own for the others.\<close>

fun command_session :: "execution_session_command \<Rightarrow> string option" where
  "command_session CmdOpen = None"
| "command_session (CmdSubmitIntent sid _) = Some sid"
| "command_session (CmdSubmitPlan sid _) = Some sid"
| "command_session (CmdStartStep sid _ _) = Some sid"
| "command_session (CmdCompleteStep sid _ _) = Some sid"
| "command_session (CmdFinish sid) = Some sid"
| "command_session (CmdAbort sid _) = Some sid"
| "command_session (CmdSubmitGrounding sid _ _) = Some sid"

definition invocation_scope ::
  "runtime_scope js \<Rightarrow> execution_session_command \<Rightarrow> 'b session_store \<Rightarrow> runtime_scope js" where
  "invocation_scope active cmd st =
     (case command_session cmd of
        None \<Rightarrow> active
      | Some sid \<Rightarrow>
          (case st_sessions st sid of
             None \<Rightarrow> Err ''execution session not found''
           | Some s \<Rightarrow> Ok (sb_owner_scope (session_base_of s))))"

definition phase_response :: "string \<Rightarrow> string \<Rightarrow> json" where
  "phase_response sid phase = JObject [(''sessionId'', JString sid), (''phase'', JString phase)]"

definition closed_response :: "string \<Rightarrow> json" where
  "closed_response sid = JObject [(''sessionId'', JString sid), (''closed'', JBool True)]"

definition read_supersession :: "string \<Rightarrow> string option \<Rightarrow> planning_supersession_kind option js" where
  "read_supersession what s =
     (case s of
        None \<Rightarrow> Ok None
      | Some t \<Rightarrow>
          (case parse_supersession t of
             Some k \<Rightarrow> Ok (Some k)
           | None \<Rightarrow> Err (what @ ''.supersession must be replaced|refined, got '' @ t)))"

definition answer :: "unit res \<times> 'b \<Rightarrow> json \<Rightarrow> 'b session_store \<Rightarrow> json js \<times> 'b session_store" where
  "answer emitted response st =
     (case emitted of
        (Inl e, b) \<Rightarrow> (Err (display_error e), st\<lparr>st_bus := b\<rparr>)
      | (Inr _, b) \<Rightarrow> (Ok response, st\<lparr>st_bus := b\<rparr>))"

definition handle_open_session ::
  "string \<Rightarrow> runtime_scope \<Rightarrow> 'b session_store \<Rightarrow> json js \<times> 'b session_store" where
  "handle_open_session fresh scope st =
     (case task_id_opt scope of
        None \<Rightarrow> (Err ''execution session open requires task scope'', st)
      | Some t \<Rightarrow>
          (Ok (phase_response fresh ''await_intent''),
           st\<lparr>st_sessions := (st_sessions st)(fresh \<mapsto> session_new scope t)\<rparr>))"

text \<open>
  A command takes its session out of the store and puts the new one back; on the error returns in
  between the session stays out unless the code puts it back.
\<close>

definition take_session :: "string \<Rightarrow> 'b session_store \<Rightarrow> 'b session_store" where
  "take_session sid st = st\<lparr>st_sessions := (st_sessions st)(sid := None)\<rparr>"

definition put_session :: "string \<Rightarrow> execution_session \<Rightarrow> 'b session_store \<Rightarrow> 'b session_store" where
  "put_session sid s st = st\<lparr>st_sessions := (st_sessions st)(sid \<mapsto> s)\<rparr>"

definition handle_submit_intent ::
  "'b planning_emit_env \<Rightarrow> runtime_scope \<Rightarrow> string \<Rightarrow> intent_submission_wire \<Rightarrow> 'b session_store
   \<Rightarrow> json js \<times> 'b session_store" where
  "handle_submit_intent env scope sid intent st =
     (case read_supersession ''intent'' (isw_supersession intent) of
        Inl e \<Rightarrow> (Err e, st)
      | Inr supersession \<Rightarrow>
          (case task_id_opt scope of
             None \<Rightarrow> (Err ''execution session submitIntent requires task scope'', st)
           | Some task \<Rightarrow>
               (let (epoch, epochs) = advance_epoch (supersession \<noteq> None) task (st_epochs st);
                    st1 = st\<lparr>st_epochs := epochs\<rparr>
                in (case st_sessions st1 sid of
                      None \<Rightarrow> (Err ''execution session not found'', st1)
                    | Some s \<Rightarrow>
                        (let st2 = take_session sid st1
                         in (case res_bind (ensure_execution_session_scope_matches (session_base_of s) scope)
                                    (\<lambda>_. into_await_plan s (isw_intent_id intent) epoch) of
                               Inl e \<Rightarrow> (Err e, st2)
                             | Inr s' \<Rightarrow>
                                 (let emit_scope = sb_owner_scope (session_base_of s')
                                  in answer (emit_intent_resolved env emit_scope
                                       \<lparr>ins_intent_id = isw_intent_id intent,
                                        ins_description = isw_description intent,
                                        ins_citations = isw_citations intent,
                                        ins_derived_from_message_ids = [message_id emit_scope],
                                        ins_supersession = supersession\<rparr> (Some epoch) (st_bus st2))
                                     (phase_response sid ''await_plan'') (put_session sid s' st2))))))))"

definition handle_submit_plan ::
  "'b planning_emit_env \<Rightarrow> runtime_scope \<Rightarrow> string \<Rightarrow> plan_submission_wire \<Rightarrow> 'b session_store
   \<Rightarrow> json js \<times> 'b session_store" where
  "handle_submit_plan env scope sid plan st =
     (case read_supersession ''plan'' (psw_supersession plan) of
        Inl e \<Rightarrow> (Err e, st)
      | Inr supersession \<Rightarrow>
          (case task_id_opt scope of
             None \<Rightarrow> (Err ''execution session submitPlan requires task scope'', st)
           | Some task \<Rightarrow>
               (case read_plan_steps (psw_steps plan)
                       \<lparr>pt_emit = [], pt_ids = [], pt_status = Map.empty, pt_deps = Map.empty\<rparr> of
                  Inl e \<Rightarrow> (Err e, st)
                | Inr t \<Rightarrow>
                    (let (epoch, epochs) = advance_epoch (supersession \<noteq> None) task (st_epochs st);
                         st1 = st\<lparr>st_epochs := epochs\<rparr>
                     in (case st_sessions st1 sid of
                           None \<Rightarrow> (Err ''execution session not found'', st1)
                         | Some s \<Rightarrow>
                             (case ensure_execution_session_scope_matches (session_base_of s) scope of
                                Inl e \<Rightarrow> (Err e, take_session sid st1)
                              | Inr _ \<Rightarrow>
                                  (case s of
                                     AwaitPlan b intent e0 \<Rightarrow>
                                       if intent \<noteq> psw_intent_id plan
                                       then (Err ''plan.intentId must match submitted intentId'', st1)
                                       else (case into_executable s (psw_plan_id plan) (pt_ids t) (pt_status t)
                                                     (pt_deps t) epoch of
                                               Inl e \<Rightarrow> (Err e, take_session sid st1)
                                             | Inr s' \<Rightarrow>
                                                 answer (emit_plan_generated env (sb_owner_scope (session_base_of s'))
                                                   (psw_intent_id plan) (psw_plan_id plan) (JArray (pt_emit t))
                                                   supersession (Some epoch) (st_bus st1))
                                                   (phase_response sid ''executable'') (put_session sid s' st1))
                                   | _ \<Rightarrow>
                                       (Err ''execution session cannot submitPlan in current phase'', st1))))))))"

definition admitted :: "runtime_scope \<Rightarrow> (string \<Rightarrow> nat option) \<Rightarrow> execution_session \<Rightarrow> unit js" where
  "admitted scope epochs s =
     res_bind (ensure_execution_session_scope_matches (session_base_of s) scope)
       (\<lambda>_. ensure_lineage_epoch_matches s epochs (sb_owner_task_id (session_base_of s)))"

definition step_transition ::
  "bool \<Rightarrow> runtime_scope \<Rightarrow> (string \<Rightarrow> nat option) \<Rightarrow> string \<Rightarrow> citation list \<Rightarrow> execution_session
   \<Rightarrow> (execution_session \<times> step_transition_event) js" where
  "step_transition is_start scope epochs step cs s =
     res_bind (admitted scope epochs s)
       (\<lambda>_. if is_start then apply_start_step s step cs else apply_complete_step s step cs)"

definition handle_step ::
  "bool \<Rightarrow> 'b planning_emit_env \<Rightarrow> runtime_scope \<Rightarrow> string \<Rightarrow> string \<Rightarrow> citation list \<Rightarrow> 'b session_store
   \<Rightarrow> json js \<times> 'b session_store" where
  "handle_step is_start env scope sid step cs st =
     (case st_sessions st sid of
        None \<Rightarrow> (Err ''execution session not found'', st)
      | Some s \<Rightarrow>
          (case step_transition is_start scope (st_epochs st) step cs s of
             Inl e \<Rightarrow> (Err e, take_session sid st)
           | Inr (s', ev) \<Rightarrow>
               answer (emit_step_status_changed env (ste_scope ev)
                   \<lparr>psc_intent_id = ste_intent_id ev, psc_plan_id = ste_plan_id ev,
                    psc_step_id = ste_step_id ev, psc_old_status = Some (ste_old_status ev),
                    psc_new_status = ste_new_status ev, psc_citations = ste_citations ev\<rparr>
                   (Some (ste_epoch ev)) (st_bus st))
                 (JObject [(''sessionId'', JString sid), (''ok'', JBool True)])
                 (put_session sid s' st)))"

definition handle_finish_session ::
  "runtime_scope \<Rightarrow> string \<Rightarrow> 'b session_store \<Rightarrow> json js \<times> 'b session_store" where
  "handle_finish_session scope sid st =
     (case st_sessions st sid of
        None \<Rightarrow> (Err ''execution session not found'', st)
      | Some s \<Rightarrow>
          (case admitted scope (st_epochs st) s of
             Inl e \<Rightarrow> (Err e, st)
           | Inr _ \<Rightarrow>
               (case s of
                  ClosedSession _ \<Rightarrow> (Ok (closed_response sid), st)
                | Executable x \<Rightarrow>
                    if \<exists>step \<in> set (ex_plan_steps x). step \<notin> ex_completed x
                    then (Err ''cannot finish before all steps are completed'', st)
                    else (case into_closed s of
                            Inl e \<Rightarrow> (Err e, st)
                          | Inr s' \<Rightarrow> (Ok (closed_response sid), put_session sid s' st))
                | _ \<Rightarrow> (Err ''execution session cannot finish in current phase'', st))))"

fun emit_aborts ::
  "'b planning_emit_env \<Rightarrow> step_abort_event list \<Rightarrow> 'b \<Rightarrow> unit res \<times> 'b" where
  "emit_aborts env [] b = (Ok (), b)"
| "emit_aborts env (ev # evs) b =
     (case emit_step_status_changed env (sae_scope ev)
             \<lparr>psc_intent_id = sae_intent_id ev, psc_plan_id = sae_plan_id ev, psc_step_id = sae_step_id ev,
              psc_old_status = Some (sae_old_status ev), psc_new_status = ''aborted'', psc_citations = []\<rparr>
             (Some (sae_epoch ev)) b of
        (Inl e, b') \<Rightarrow> (Err e, b')
      | (Inr _, b') \<Rightarrow> emit_aborts env evs b')"

definition handle_abort_session ::
  "'b planning_emit_env \<Rightarrow> runtime_scope \<Rightarrow> string \<Rightarrow> string \<Rightarrow> 'b session_store
   \<Rightarrow> json js \<times> 'b session_store" where
  "handle_abort_session env scope sid reason st =
     (let reason' = (if trim reason = [] then ''execution session aborted'' else trim reason)
      in (case st_sessions st sid of
            None \<Rightarrow> (Err ''execution session not found'', st)
          | Some s \<Rightarrow>
              (case admitted scope (st_epochs st) s of
                 Inl e \<Rightarrow> (Err e, take_session sid st)
               | Inr _ \<Rightarrow>
                   (let (s', evs) = apply_abort s reason'
                    in answer (emit_aborts env evs (st_bus st)) (closed_response sid) (put_session sid s' st)))))"

definition handle_submit_grounding ::
  "(json \<Rightarrow> parse_artifact option) \<Rightarrow> nat \<Rightarrow> runtime_scope \<Rightarrow> string \<Rightarrow> json \<Rightarrow> string option \<Rightarrow> 'b session_store
   \<Rightarrow> json js \<times> 'b session_store" where
  "handle_submit_grounding de now scope sid artifact step st =
     (case st_sessions st sid of
        None \<Rightarrow> (Err ''execution session not found'', st)
      | Some s \<Rightarrow>
          (case ensure_execution_session_scope_matches (session_base_of s) scope of
             Inl e \<Rightarrow> (Err e, st)
           | Inr _ \<Rightarrow>
               (Ok (JObject [(''sessionId'', JString sid), (''grounding'', JString ''submitted'')]),
                st\<lparr>st_semiotic := submit_grounding now scope (coerce_from_value de artifact) step (st_semiotic st)\<rparr>)))"

definition execution_session_invoke ::
  "'b planning_emit_env \<Rightarrow> (json \<Rightarrow> parse_artifact option) \<Rightarrow> nat \<Rightarrow> string \<Rightarrow> runtime_scope js
   \<Rightarrow> execution_session_command \<Rightarrow> 'b session_store \<Rightarrow> json js \<times> 'b session_store" where
  "execution_session_invoke env de now fresh active cmd st =
     (case invocation_scope active cmd st of
        Inl e \<Rightarrow> (Err e, st)
      | Inr scope \<Rightarrow>
          (case cmd of
             CmdOpen \<Rightarrow> handle_open_session fresh scope st
           | CmdSubmitIntent sid intent \<Rightarrow> handle_submit_intent env scope sid intent st
           | CmdSubmitPlan sid plan \<Rightarrow> handle_submit_plan env scope sid plan st
           | CmdStartStep sid step cs \<Rightarrow> handle_step True env scope sid step cs st
           | CmdCompleteStep sid step cs \<Rightarrow> handle_step False env scope sid step cs st
           | CmdFinish sid \<Rightarrow> handle_finish_session scope sid st
           | CmdAbort sid reason \<Rightarrow> handle_abort_session env scope sid reason st
           | CmdSubmitGrounding sid artifact step \<Rightarrow>
               handle_submit_grounding de now scope sid artifact step st))"

text \<open>
  The plan step a tool call is attributed to.  The order in which the concurrent map lists its
  sessions is an argument.
\<close>

definition resolve_planning_step ::
  "string list \<Rightarrow> (string \<Rightarrow> execution_session option) \<Rightarrow> runtime_scope \<Rightarrow> (string \<times> string) option" where
  "resolve_planning_step order sessions scope =
     (case task_id_opt scope of
        None \<Rightarrow> None
      | Some t \<Rightarrow>
          (case List.map_filter (\<lambda>sid.
                  case sessions sid of
                    Some (Executable x) \<Rightarrow>
                      if sb_owner_task_id (ex_base x) = t
                      then map_option (Pair (ex_plan_id x)) (ex_current_step_id x) else None
                  | _ \<Rightarrow> None) order of
             [] \<Rightarrow> None
           | p # _ \<Rightarrow> Some p))"

end
