(* ===== verification/Execution_Plan.thy ===== *)
theory Execution_Plan
  imports Execution_Session
begin

text \<open>
  Properties of execution sessions: the invariants of every reachable session store, that plans are
  executed in dependency order and that an acyclic plan can always be brought to its end, and what a
  rejected command does to its session.
\<close>

subsection \<open>Invariants\<close>

definition base_wf :: "session_base \<Rightarrow> bool" where
  "base_wf b \<longleftrightarrow> task_id_opt (sb_owner_scope b) = Some (sb_owner_task_id b)
     \<and> context_id (sb_owner_scope b) = sb_owner_context_id b"

definition deps_of :: "(string \<Rightarrow> string list option) \<Rightarrow> string \<Rightarrow> string set" where
  "deps_of deps s = set (case deps s of Some ds \<Rightarrow> ds | None \<Rightarrow> [])"

text \<open>A list of steps, the last first, in which every step comes after its dependencies.\<close>

fun dep_order :: "(string \<Rightarrow> string list option) \<Rightarrow> string list \<Rightarrow> bool" where
  "dep_order deps [] \<longleftrightarrow> True"
| "dep_order deps (s # before) \<longleftrightarrow> s \<notin> set before \<and> deps_of deps s \<subseteq> set before \<and> dep_order deps before"

definition executable_inv :: "executable \<Rightarrow> bool" where
  "executable_inv x \<longleftrightarrow>
     distinct (ex_plan_steps x)
     \<and> dom (ex_step_status x) = set (ex_plan_steps x) \<and> dom (ex_step_deps x) = set (ex_plan_steps x)
     \<and> ran (ex_step_status x) \<subseteq> {''pending'', ''in_progress'', ''completed''}
     \<and> ex_completed x = {s. ex_step_status x s = Some ''completed''}
     \<and> (\<forall>s. ex_current_step_id x = Some s \<longrightarrow> ex_step_status x s = Some ''in_progress'')
     \<and> (\<forall>s. ex_step_status x s = Some ''in_progress'' \<longrightarrow> deps_of (ex_step_deps x) s \<subseteq> ex_completed x)
     \<and> (\<exists>ord. set ord = ex_completed x \<and> dep_order (ex_step_deps x) ord)"

fun session_inv :: "execution_session \<Rightarrow> bool" where
  "session_inv (Executable x) \<longleftrightarrow> base_wf (ex_base x) \<and> executable_inv x"
| "session_inv s \<longleftrightarrow> base_wf (session_base_of s)"

definition epoch_bound :: "(string \<Rightarrow> nat option) \<Rightarrow> execution_session \<Rightarrow> bool" where
  "epoch_bound epochs s \<longleftrightarrow>
     (\<forall>e. session_epoch s = Some e \<longrightarrow>
        (\<exists>n. epochs (sb_owner_task_id (session_base_of s)) = Some n \<and> e \<le> n \<and> n < 2 ^ 64))"

definition store_inv :: "'b session_store \<Rightarrow> bool" where
  "store_inv st \<longleftrightarrow>
     (\<forall>sid s. st_sessions st sid = Some s \<longrightarrow> session_inv s \<and> epoch_bound (st_epochs st) s)
     \<and> (\<forall>t n. st_epochs st t = Some n \<longrightarrow> n < 2 ^ 64)"

lemma session_inv_base: "session_inv s \<Longrightarrow> base_wf (session_base_of s)"
  by (cases s) auto

lemma scope_matches_own:
  "base_wf b \<Longrightarrow> ensure_execution_session_scope_matches b (sb_owner_scope b) = Ok ()"
  by (simp add: base_wf_def ensure_execution_session_scope_matches_def)

lemma missing_dep_None: "missing_dep completed ds = None \<longleftrightarrow> set ds \<subseteq> completed"
  by (auto simp: missing_dep_def find_None_iff)

text \<open>What a step command needs and does.\<close>

definition started :: "string \<Rightarrow> executable \<Rightarrow> executable" where
  "started step x = x\<lparr>ex_step_status := (ex_step_status x)(step \<mapsto> ''in_progress''), ex_current_step_id := Some step\<rparr>"

definition stepped :: "string \<Rightarrow> executable \<Rightarrow> executable" where
  "stepped step x = x\<lparr>ex_step_status := (ex_step_status x)(step \<mapsto> ''completed''),
                      ex_completed := insert step (ex_completed x),
                      ex_current_step_id := (if ex_current_step_id x = Some step then None else ex_current_step_id x)\<rparr>"

lemma step_fields [simp]:
  "ex_plan_steps (started s x) = ex_plan_steps x" "ex_plan_steps (stepped s x) = ex_plan_steps x"
  "ex_step_deps (started s x) = ex_step_deps x" "ex_step_deps (stepped s x) = ex_step_deps x"
  "ex_base (started s x) = ex_base x" "ex_base (stepped s x) = ex_base x"
  "ex_epoch (started s x) = ex_epoch x" "ex_epoch (stepped s x) = ex_epoch x"
  "ex_plan_id (started s x) = ex_plan_id x" "ex_plan_id (stepped s x) = ex_plan_id x"
  "ex_completed (started s x) = ex_completed x" "ex_completed (stepped s x) = insert s (ex_completed x)"
  "ex_step_status (started s x) = (ex_step_status x)(s \<mapsto> ''in_progress'')"
  "ex_step_status (stepped s x) = (ex_step_status x)(s \<mapsto> ''completed'')"
  "ex_current_step_id (started s x) = Some s"
  "ex_current_step_id (stepped s x) = (if ex_current_step_id x = Some s then None else ex_current_step_id x)"
  by (simp_all add: started_def stepped_def)

lemma start_step_iff:
  "apply_start_step (Executable x) step cs = Ok (s', ev) \<longleftrightarrow>
     ex_step_status x step = Some ''pending'' \<and> deps_of (ex_step_deps x) step \<subseteq> ex_completed x
     \<and> s' = Executable (started step x)
     \<and> ev = transition_event x step ''pending'' ''in_progress'' cs"
proof (cases "missing_dep (ex_completed x) (case ex_step_deps x step of Some ds \<Rightarrow> ds | None \<Rightarrow> [])")
  case None
  then have "deps_of (ex_step_deps x) step \<subseteq> ex_completed x"
    unfolding deps_of_def missing_dep_None [symmetric] by simp
  with None show ?thesis by (cases "ex_step_status x step") (auto simp: started_def)
next
  case (Some d)
  then have "\<not> deps_of (ex_step_deps x) step \<subseteq> ex_completed x"
    unfolding deps_of_def missing_dep_None [symmetric] by simp
  with Some show ?thesis by (cases "ex_step_status x step") auto
qed

lemma complete_step_iff:
  "apply_complete_step (Executable x) step cs = Ok (s', ev) \<longleftrightarrow>
     ex_step_status x step = Some ''in_progress''
     \<and> s' = Executable (stepped step x)
     \<and> ev = transition_event x step ''in_progress'' ''completed'' cs"
  by (cases "ex_step_status x step") (auto simp: stepped_def)

lemma executable_inv_simps:
  assumes "executable_inv x"
  shows "distinct (ex_plan_steps x)" "dom (ex_step_status x) = set (ex_plan_steps x)"
    "dom (ex_step_deps x) = set (ex_plan_steps x)"
    "ran (ex_step_status x) \<subseteq> {''pending'', ''in_progress'', ''completed''}"
    "ex_completed x = {s. ex_step_status x s = Some ''completed''}"
    "ex_current_step_id x = Some s \<Longrightarrow> ex_step_status x s = Some ''in_progress''"
    "ex_step_status x s = Some ''in_progress'' \<Longrightarrow> deps_of (ex_step_deps x) s \<subseteq> ex_completed x"
    "\<exists>ord. set ord = ex_completed x \<and> dep_order (ex_step_deps x) ord"
  using assms unfolding executable_inv_def by blast+

lemma status_values:
  "executable_inv x \<Longrightarrow> ex_step_status x s = Some v \<Longrightarrow> v \<in> {''pending'', ''in_progress'', ''completed''}"
  by (rule subsetD [OF executable_inv_simps(4) ranI])

lemma start_step_inv:
  assumes inv: "executable_inv x" and p: "ex_step_status x step = Some ''pending''"
    and d: "deps_of (ex_step_deps x) step \<subseteq> ex_completed x"
  shows "executable_inv (started step x)" (is "executable_inv ?y")
proof -
  note i = executable_inv_simps [OF inv]
  have "dom (ex_step_status ?y) = set (ex_plan_steps ?y)" using i(2) p by auto
  moreover have "ran (ex_step_status ?y) \<subseteq> {''pending'', ''in_progress'', ''completed''}"
    using i(4) by (auto simp: ran_def)
  moreover have "ex_completed ?y = {s. ex_step_status ?y s = Some ''completed''}"
    using i(5) p by auto
  moreover have "deps_of (ex_step_deps ?y) s \<subseteq> ex_completed ?y" if "ex_step_status ?y s = Some ''in_progress''" for s
    using that d i(7) [of s] by (auto split: if_splits)
  ultimately show ?thesis unfolding executable_inv_def using i(1,3,8) by simp
qed

lemma complete_step_inv:
  assumes inv: "executable_inv x" and p: "ex_step_status x step = Some ''in_progress''"
  shows "executable_inv (stepped step x)" (is "executable_inv ?y")
proof -
  note i = executable_inv_simps [OF inv]
  have "dom (ex_step_status ?y) = set (ex_plan_steps ?y)" using i(2) p by auto
  moreover have "ran (ex_step_status ?y) \<subseteq> {''pending'', ''in_progress'', ''completed''}"
    using i(4) by (auto simp: ran_def)
  moreover have "ex_completed ?y = {s. ex_step_status ?y s = Some ''completed''}"
    using i(5) by auto
  moreover have "deps_of (ex_step_deps ?y) s \<subseteq> ex_completed ?y" if "ex_step_status ?y s = Some ''in_progress''" for s
    using that i(7) [of s] by (auto split: if_splits)
  moreover have "ex_step_status ?y s = Some ''in_progress''" if "ex_current_step_id ?y = Some s" for s
    using that i(6) [of s] by (auto split: if_splits)
  moreover have "\<exists>ord. set ord = ex_completed ?y \<and> dep_order (ex_step_deps ?y) ord"
  proof -
    obtain ord where o: "set ord = ex_completed x" "dep_order (ex_step_deps x) ord" using i(8) by blast
    have "step \<notin> set ord" using o(1) i(5) p by simp
    then have "dep_order (ex_step_deps x) (step # ord)" using o i(7) [OF p] by simp
    then show ?thesis using o(1) by (intro exI [of _ "step # ord"]) simp
  qed
  ultimately show ?thesis unfolding executable_inv_def using i(1,3) by simp
qed

subsection \<open>Preservation\<close>

definition tables_wf :: "plan_tables \<Rightarrow> bool" where
  "tables_wf t \<longleftrightarrow> distinct (pt_ids t) \<and> dom (pt_status t) = set (pt_ids t) \<and> dom (pt_deps t) = set (pt_ids t)
     \<and> (\<forall>s v. pt_status t s = Some v \<longrightarrow> v = ''pending'')"

lemma add_plan_step_wf: "tables_wf t \<Longrightarrow> pss_step_id p \<notin> set (pt_ids t) \<Longrightarrow> tables_wf (add_plan_step p t)"
  by (simp add: tables_wf_def add_plan_step_def)

lemma read_plan_steps_wf: "read_plan_steps ps t = Ok t' \<Longrightarrow> tables_wf t \<Longrightarrow> tables_wf t'"
  by (induction ps arbitrary: t) (auto simp: add_plan_step_wf split: if_splits)

lemma read_plan_steps_ids: "read_plan_steps ps t = Ok t' \<Longrightarrow> pt_ids t' = pt_ids t @ map pss_step_id ps"
  by (induction ps arbitrary: t) (auto simp: add_plan_step_def split: if_splits)

lemma fresh_plan_inv:
  assumes "tables_wf t"
  shows "executable_inv \<lparr>ex_base = b, ex_intent_id = i, ex_plan_id = p, ex_plan_steps = pt_ids t,
     ex_step_status = pt_status t, ex_step_deps = pt_deps t, ex_completed = {}, ex_epoch = e,
     ex_current_step_id = None\<rparr>"
proof -
  have "ran (pt_status t) \<subseteq> {''pending'', ''in_progress'', ''completed''}"
    using assms by (auto simp: tables_wf_def ran_def)
  moreover have "pt_status t s \<noteq> Some ''completed''" "pt_status t s \<noteq> Some ''in_progress''" for s
    using assms by (auto simp: tables_wf_def)
  moreover have "\<exists>ord. set ord = {} \<and> dep_order (pt_deps t) ord"
    by (rule exI [of _ "[]"]) simp
  ultimately show ?thesis using assms by (simp add: executable_inv_def tables_wf_def)
qed

lemma store_inv_bus [simp]: "store_inv (st\<lparr>st_bus := b\<rparr>) = store_inv st"
  by (simp add: store_inv_def)

lemma store_inv_semiotic [simp]: "store_inv (st\<lparr>st_semiotic := x\<rparr>) = store_inv st"
  by (simp add: store_inv_def)

lemma answer_fields [simp]:
  "st_sessions (snd (answer x r st)) = st_sessions st" "st_epochs (snd (answer x r st)) = st_epochs st"
  by (auto simp: answer_def split: prod.split sum.split)

lemma store_inv_answer [simp]: "store_inv (snd (answer x r st)) = store_inv st"
  by (auto simp: answer_def split: prod.split sum.split)

lemma store_inv_take: "store_inv st \<Longrightarrow> store_inv (take_session sid st)"
  by (auto simp: store_inv_def take_session_def)

lemma store_inv_put:
  "store_inv st \<Longrightarrow> session_inv s \<Longrightarrow> epoch_bound (st_epochs st) s \<Longrightarrow> store_inv (put_session sid s st)"
  by (auto simp: store_inv_def put_session_def)

lemma store_invD:
  assumes "store_inv st" "st_sessions st sid = Some s"
  shows "session_inv s" "epoch_bound (st_epochs st) s" "base_wf (session_base_of s)"
  using assms session_inv_base by (auto simp: store_inv_def)

lemma next_epoch_bounds: "n < 2 ^ 64 \<Longrightarrow> n \<le> next_epoch n \<and> next_epoch n < 2 ^ 64"
  by (auto simp: next_epoch_def min_def)

lemma advance_epoch_facts:
  assumes "\<forall>t n. epochs t = Some n \<longrightarrow> n < 2 ^ 64" "advance_epoch su task epochs = (e, epochs')"
  shows "epochs' task = Some e" "e < 2 ^ 64" "t \<noteq> task \<Longrightarrow> epochs' t = epochs t"
    "epochs task = Some n \<Longrightarrow> n \<le> e"
proof -
  have c: "(case epochs task of Some n \<Rightarrow> n | None \<Rightarrow> 0) < 2 ^ 64"
    using assms(1) by (auto split: option.split)
  note b = next_epoch_bounds [OF c]
  show "epochs' task = Some e" "t \<noteq> task \<Longrightarrow> epochs' t = epochs t"
    using assms(2) by (auto simp: advance_epoch_def Let_def)
  show "e < 2 ^ 64" "epochs task = Some n \<Longrightarrow> n \<le> e"
    using assms(2) b c by (auto simp: advance_epoch_def Let_def split: if_splits)
qed

lemma store_inv_advance:
  assumes "store_inv st" "advance_epoch su task (st_epochs st) = (e, epochs')"
  shows "store_inv (st\<lparr>st_epochs := epochs'\<rparr>)"
proof -
  have lt: "\<forall>t n. st_epochs st t = Some n \<longrightarrow> n < 2 ^ 64" using assms(1) by (simp add: store_inv_def)
  note a = advance_epoch_facts [OF lt assms(2)]
  have "n < 2 ^ 64" if "epochs' t = Some n" for t n
    using that a lt by (cases "t = task") auto
  moreover have "epoch_bound epochs' s" if "st_sessions st sid = Some s" for sid s
    unfolding epoch_bound_def
  proof (intro allI impI)
    fix e0 assume "session_epoch s = Some e0"
    moreover have "epoch_bound (st_epochs st) s" using store_invD(2) [OF assms(1) \<open>st_sessions st sid = Some s\<close>] .
    ultimately obtain n where n: "st_epochs st (sb_owner_task_id (session_base_of s)) = Some n" "e0 \<le> n" "n < 2 ^ 64"
      by (auto simp: epoch_bound_def)
    then show "\<exists>n. epochs' (sb_owner_task_id (session_base_of s)) = Some n \<and> e0 \<le> n \<and> n < 2 ^ 64"
      using a(1,2,3) a(4) [of n] by (cases "sb_owner_task_id (session_base_of s) = task") auto
  qed
  ultimately show ?thesis using assms(1) by (simp add: store_inv_def)
qed

lemma step_inv:
  assumes "session_inv s" "(if is_start then apply_start_step s step cs else apply_complete_step s step cs) = Ok (s', ev)"
  shows "session_inv s'" "session_base_of s' = session_base_of s" "session_epoch s' = session_epoch s"
proof -
  obtain x where x: "s = Executable x" using assms(2) by (cases s) (auto split: if_splits)
  have inv: "base_wf (ex_base x)" "executable_inv x" using assms(1) x by auto
  have "\<exists>y. s' = Executable y \<and> executable_inv y \<and> (y = started step x \<or> y = stepped step x)"
  proof (cases is_start)
    case True
    then have "apply_start_step (Executable x) step cs = Ok (s', ev)" using assms(2) x by simp
    then show ?thesis unfolding start_step_iff using start_step_inv inv(2) by blast
  next
    case False
    then have "apply_complete_step (Executable x) step cs = Ok (s', ev)" using assms(2) x by simp
    then show ?thesis unfolding complete_step_iff using complete_step_inv inv(2) by blast
  qed
  then show "session_inv s'" "session_base_of s' = session_base_of s" "session_epoch s' = session_epoch s"
    using inv x by auto
qed

lemma same_epoch_bound:
  "session_base_of s' = session_base_of s \<Longrightarrow> session_epoch s' = session_epoch s \<Longrightarrow>
   epoch_bound epochs s \<Longrightarrow> epoch_bound epochs s'"
  by (simp add: epoch_bound_def)

lemma handle_step_inv: "store_inv st \<Longrightarrow> store_inv (snd (handle_step is_start env scope sid step cs st))"
proof (cases "st_sessions st sid")
  case (Some s)
  assume inv: "store_inv st"
  note d = store_invD [OF inv Some]
  show ?thesis
  proof (cases "step_transition is_start scope (st_epochs st) step cs s")
    case (Inl e)
    then show ?thesis using Some store_inv_take [OF inv] by (simp add: handle_step_def)
  next
    case (Inr r)
    obtain s' ev where r: "r = (s', ev)" by (cases r)
    have "(if is_start then apply_start_step s step cs else apply_complete_step s step cs) = Ok (s', ev)"
      using Inr r by (simp add: step_transition_def res_bind_eq_Inr)
    note st = step_inv [OF d(1) this]
    have "store_inv (put_session sid s' st)"
      using store_inv_put [OF inv st(1) same_epoch_bound [OF st(2,3) d(2)]] .
    then show ?thesis using Some Inr r by (simp add: handle_step_def)
  qed
qed (simp add: handle_step_def)

lemma handle_submit_intent_inv: "store_inv st \<Longrightarrow> store_inv (snd (handle_submit_intent env scope sid intent st))"
proof -
  assume inv: "store_inv st"
  show ?thesis
  proof (cases "\<exists>su task. read_supersession ''intent'' (isw_supersession intent) = Ok su \<and> task_id_opt scope = Some task")
    case False
    then show ?thesis using inv by (auto simp: handle_submit_intent_def split: sum.split option.split)
  next
    case True
    then obtain su task where t: "read_supersession ''intent'' (isw_supersession intent) = Ok su" "task_id_opt scope = Some task"
      by blast
    obtain e epochs where a: "advance_epoch (su \<noteq> None) task (st_epochs st) = (e, epochs)" by (rule prod.exhaust)
    have inv1: "store_inv (st\<lparr>st_epochs := epochs\<rparr>)" using store_inv_advance [OF inv a] .
    show ?thesis
    proof (cases "st_sessions st sid")
      case None
      then show ?thesis using inv1 t a by (simp add: handle_submit_intent_def)
    next
      case (Some s)
      note d = store_invD [OF inv Some]
      let ?r = "res_bind (ensure_execution_session_scope_matches (session_base_of s) scope)
          (\<lambda>_. into_await_plan s (isw_intent_id intent) e)"
      show ?thesis
      proof (cases ?r)
        case (Inl m)
        then show ?thesis using store_inv_take [OF inv1] t a Some by (simp add: handle_submit_intent_def Let_def)
      next
        case (Inr s')
        then have i: "into_await_plan s (isw_intent_id intent) e = Ok s'"
          and sc: "ensure_execution_session_scope_matches (session_base_of s) scope = Ok ()"
          by (simp_all add: res_bind_eq_Inr)
        obtain b where b: "s = AwaitIntent b" "s' = AwaitPlan b (isw_intent_id intent) e"
          using i by (cases s) auto
        have "sb_owner_task_id b = task" using sc t(2) b
          by (auto simp: ensure_execution_session_scope_matches_def split: if_splits)
        then have "epoch_bound epochs s'"
          using b advance_epoch_facts(1,2) [OF _ a] inv by (auto simp: epoch_bound_def store_inv_def)
        then have "store_inv (put_session sid s' (take_session sid (st\<lparr>st_epochs := epochs\<rparr>)))"
          using store_inv_put [OF store_inv_take [OF inv1]] d(3) b by (simp add: take_session_def)
        then show ?thesis using Inr t a Some by (simp add: handle_submit_intent_def Let_def)
      qed
    qed
  qed
qed

lemma handle_submit_plan_inv: "store_inv st \<Longrightarrow> store_inv (snd (handle_submit_plan env scope sid plan st))"
proof -
  let ?t0 = "\<lparr>pt_emit = [], pt_ids = [], pt_status = Map.empty, pt_deps = Map.empty\<rparr>"
  assume inv: "store_inv st"
  show ?thesis
  proof (cases "\<exists>su task t. read_supersession ''plan'' (psw_supersession plan) = Ok su
      \<and> task_id_opt scope = Some task \<and> read_plan_steps (psw_steps plan) ?t0 = Ok t")
    case False
    then show ?thesis using inv by (auto simp: handle_submit_plan_def split: sum.split option.split)
  next
    case True
    then obtain su task t where r: "read_supersession ''plan'' (psw_supersession plan) = Ok su"
        "task_id_opt scope = Some task" "read_plan_steps (psw_steps plan) ?t0 = Ok t" by blast
    have wf: "tables_wf t" using read_plan_steps_wf [OF r(3)] by (simp add: tables_wf_def)
    obtain e epochs where a: "advance_epoch (su \<noteq> None) task (st_epochs st) = (e, epochs)" by (rule prod.exhaust)
    have inv1: "store_inv (st\<lparr>st_epochs := epochs\<rparr>)" using store_inv_advance [OF inv a] .
    show ?thesis
    proof (cases "\<exists>b e0. st_sessions st sid = Some (AwaitPlan b (psw_intent_id plan) e0)
        \<and> ensure_execution_session_scope_matches b scope = Ok ()")
      case False
      then show ?thesis
        using inv1 store_inv_take [OF inv1, of sid] r a
        by (auto simp: handle_submit_plan_def Let_def split: option.split sum.split execution_session.split)
    next
      case True
      then obtain b e0 where b: "st_sessions st sid = Some (AwaitPlan b (psw_intent_id plan) e0)"
        "ensure_execution_session_scope_matches b scope = Ok ()" by blast
      let ?x = "\<lparr>ex_base = b, ex_intent_id = psw_intent_id plan, ex_plan_id = psw_plan_id plan,
        ex_plan_steps = pt_ids t, ex_step_status = pt_status t, ex_step_deps = pt_deps t,
        ex_completed = {}, ex_epoch = e, ex_current_step_id = None\<rparr>"
      have "sb_owner_task_id b = task" using b(2) r(2)
        by (auto simp: ensure_execution_session_scope_matches_def split: if_splits)
      then have "epoch_bound epochs (Executable ?x)"
        using advance_epoch_facts(1,2) [OF _ a] inv by (auto simp: epoch_bound_def store_inv_def)
      moreover have "session_inv (Executable ?x)"
        using fresh_plan_inv [OF wf] store_invD(3) [OF inv b(1)] by simp
      ultimately have "store_inv (put_session sid (Executable ?x) (st\<lparr>st_epochs := epochs\<rparr>))"
        using store_inv_put [OF inv1] by simp
      then show ?thesis using b r a by (simp add: handle_submit_plan_def Let_def)
    qed
  qed
qed

lemma close_inv:
  assumes "store_inv st" "st_sessions st sid = Some s"
  shows "store_inv (put_session sid (ClosedSession (session_base_of s)) st)"
  using store_inv_put [OF assms(1)] store_invD(3) [OF assms] by (simp add: epoch_bound_def)

lemma handle_finish_session_inv: "store_inv st \<Longrightarrow> store_inv (snd (handle_finish_session scope sid st))"
  using close_inv [of st sid]
  by (auto simp: handle_finish_session_def split: option.split sum.split execution_session.split)

lemma handle_abort_session_inv: "store_inv st \<Longrightarrow> store_inv (snd (handle_abort_session env scope sid reason st))"
  using close_inv [of st sid] store_inv_take [of st sid]
  by (auto simp: handle_abort_session_def Let_def apply_abort_def split: option.split sum.split)

lemma handle_open_session_inv: "store_inv st \<Longrightarrow> store_inv (snd (handle_open_session fresh scope st))"
  by (auto simp: handle_open_session_def session_new_def store_inv_def base_wf_def epoch_bound_def
      split: option.split)

lemma handle_submit_grounding_inv:
  "store_inv st \<Longrightarrow> store_inv (snd (handle_submit_grounding de now scope sid artifact step st))"
  by (auto simp: handle_submit_grounding_def split: option.split sum.split)

lemma invoke_inv: "store_inv st \<Longrightarrow> store_inv (snd (execution_session_invoke env de now fresh active cmd st))"
  by (auto simp: execution_session_invoke_def handle_open_session_inv handle_submit_intent_inv
      handle_submit_plan_inv handle_step_inv handle_finish_session_inv handle_abort_session_inv
      handle_submit_grounding_inv split: sum.split execution_session_command.split)

text \<open>
  Every way the store changes: a command from any caller, or a change of the bus or of the semiotic
  stores by another part of the runtime.
\<close>

inductive es_step ::
  "'b planning_emit_env \<Rightarrow> (json \<Rightarrow> parse_artifact option) \<Rightarrow> 'b session_store \<Rightarrow> 'b session_store \<Rightarrow> bool"
  for env de where
  es_command: "es_step env de st (snd (execution_session_invoke env de now fresh active cmd st))"
| es_other: "st_sessions st' = st_sessions st \<Longrightarrow> st_epochs st' = st_epochs st \<Longrightarrow> es_step env de st st'"

inductive_cases es_stepE: "es_step env de st st'"

definition store_empty :: "semiotic_state \<Rightarrow> 'b \<Rightarrow> 'b session_store" where
  "store_empty s b = \<lparr>st_sessions = Map.empty, st_epochs = Map.empty, st_semiotic = s, st_bus = b\<rparr>"

lemma es_step_inv: "es_step env de st st' \<Longrightarrow> store_inv st \<Longrightarrow> store_inv st'"
  by (erule es_stepE) (auto simp: invoke_inv, simp add: store_inv_def)

lemma reachable_inv: "(es_step env de)\<^sup>*\<^sup>* (store_empty s b) st \<Longrightarrow> store_inv st"
proof (induction rule: rtranclp_induct)
  case base
  show ?case by (simp add: store_empty_def store_inv_def)
next
  case (step y z)
  then show ?case using es_step_inv by blast
qed

text \<open>
  C6: in every session store that commands can produce, each session is owned by a task scope, a
  plan's steps are distinct and each has a status of pending, in progress or completed, the completed
  set is the steps with that status, the current step is in progress, a step in progress has its
  dependencies completed, the completed steps can be listed with every step after its dependencies,
  and no session is ahead of the lineage epoch of its task.
\<close>

theorem reachable_store_inv:
  assumes "(es_step env de)\<^sup>*\<^sup>* (store_empty s b) st"
  shows "store_inv st"
  by (rule reachable_inv [OF assms])

subsection \<open>Finishing a plan\<close>

abbreviation invoke_all ::
  "'b planning_emit_env \<Rightarrow> (json \<Rightarrow> parse_artifact option) \<Rightarrow> execution_session_command list \<Rightarrow> 'b session_store \<Rightarrow> 'b session_store" where
  "invoke_all env de \<equiv> run_steps (\<lambda>cmd st. snd (execution_session_invoke env de 0 [] (Err []) cmd st))"

definition current_lineage :: "executable \<Rightarrow> 'b session_store \<Rightarrow> bool" where
  "current_lineage x st \<longleftrightarrow> st_epochs st (sb_owner_task_id (ex_base x)) = Some (ex_epoch x)"

lemma admitted_own:
  assumes "store_inv st" "st_sessions st sid = Some (Executable x)"
  shows "admitted (sb_owner_scope (ex_base x)) (st_epochs st) (Executable x) = Ok () \<longleftrightarrow> current_lineage x st"
    (is "?a \<longleftrightarrow> _")
proof -
  obtain n where "st_epochs st (sb_owner_task_id (ex_base x)) = Some n"
    using store_invD(2) [OF assms] by (auto simp: epoch_bound_def)
  then show ?thesis using scope_matches_own store_invD(3) [OF assms]
    by (auto simp: admitted_def ensure_lineage_epoch_matches_def current_lineage_def)
qed

lemma invoke_scope:
  "st_sessions st sid = Some s \<Longrightarrow> command_session cmd = Some sid \<Longrightarrow>
   invocation_scope active cmd st = Ok (sb_owner_scope (session_base_of s))"
  by (simp add: invocation_scope_def)

lemma invoke_step:
  assumes "store_inv st" "st_sessions st sid = Some (Executable x)" "current_lineage x st"
  shows "ex_step_status x step = Some ''pending'' \<Longrightarrow> deps_of (ex_step_deps x) step \<subseteq> ex_completed x \<Longrightarrow>
      let st' = snd (execution_session_invoke env de now fresh active (CmdStartStep sid step cs) st)
      in st_sessions st' sid = Some (Executable (started step x)) \<and> st_epochs st' = st_epochs st"
    and "ex_step_status x step = Some ''in_progress'' \<Longrightarrow>
      let st' = snd (execution_session_invoke env de now fresh active (CmdCompleteStep sid step cs) st)
      in st_sessions st' sid = Some (Executable (stepped step x)) \<and> st_epochs st' = st_epochs st"
proof -
  have ad: "admitted (sb_owner_scope (ex_base x)) (st_epochs st) (Executable x) = Ok ()"
    using admitted_own [OF assms(1,2)] assms(3) by blast
  have an: "st_sessions (snd (answer e r (put_session sid s' st))) sid = Some s'"
    "st_epochs (snd (answer e r (put_session sid s' st))) = st_epochs st" for e r s'
    by (auto simp: answer_def put_session_def split: prod.split sum.split)
  have "step_transition True (sb_owner_scope (ex_base x)) (st_epochs st) step cs (Executable x)
      = Ok (Executable (started step x), transition_event x step ''pending'' ''in_progress'' cs)"
    if "ex_step_status x step = Some ''pending''" "deps_of (ex_step_deps x) step \<subseteq> ex_completed x"
    using that ad start_step_iff [of x step cs] by (auto simp: step_transition_def simp del: apply_start_step.simps)
  then show "ex_step_status x step = Some ''pending'' \<Longrightarrow> deps_of (ex_step_deps x) step \<subseteq> ex_completed x \<Longrightarrow>
      let st' = snd (execution_session_invoke env de now fresh active (CmdStartStep sid step cs) st)
      in st_sessions st' sid = Some (Executable (started step x)) \<and> st_epochs st' = st_epochs st"
    using assms(2) an by (simp add: execution_session_invoke_def invocation_scope_def handle_step_def Let_def)
  have "step_transition False (sb_owner_scope (ex_base x)) (st_epochs st) step cs (Executable x)
      = Ok (Executable (stepped step x), transition_event x step ''in_progress'' ''completed'' cs)"
    if "ex_step_status x step = Some ''in_progress''"
    using that ad complete_step_iff [of x step cs] by (auto simp: step_transition_def simp del: apply_complete_step.simps)
  then show "ex_step_status x step = Some ''in_progress'' \<Longrightarrow>
      let st' = snd (execution_session_invoke env de now fresh active (CmdCompleteStep sid step cs) st)
      in st_sessions st' sid = Some (Executable (stepped step x)) \<and> st_epochs st' = st_epochs st"
    using assms(2) an by (simp add: execution_session_invoke_def invocation_scope_def handle_step_def Let_def)
qed

lemma invoke_finish:
  assumes "store_inv st" "st_sessions st sid = Some (Executable x)"
  shows "is_ok (fst (execution_session_invoke env de now fresh active (CmdFinish sid) st)) \<longleftrightarrow>
      current_lineage x st \<and> set (ex_plan_steps x) \<subseteq> ex_completed x"
    and "current_lineage x st \<Longrightarrow> set (ex_plan_steps x) \<subseteq> ex_completed x \<Longrightarrow>
      st_sessions (snd (execution_session_invoke env de now fresh active (CmdFinish sid) st)) sid
        = Some (ClosedSession (ex_base x))"
  using admitted_own [OF assms] assms(2)
  by (auto simp: execution_session_invoke_def invocation_scope_def handle_finish_session_def put_session_def
      split: sum.splits)

text \<open>
  C7: a session is finished only in dependency order.  \<^verbatim>\<open>finish\<close> succeeds on an executable session
  exactly when its lineage is current and every step is completed; there is then an order of all
  the plan's steps in which each step comes after everything it depends on.  A plan with a cyclic or
  dangling dependency therefore never finishes.
\<close>

theorem finish_in_dependency_order:
  assumes "(es_step env de)\<^sup>*\<^sup>* (store_empty s b) st" "st_sessions st sid = Some (Executable x)"
  shows "(is_ok (fst (execution_session_invoke env de now fresh active (CmdFinish sid) st)) \<longleftrightarrow>
        current_lineage x st \<and> set (ex_plan_steps x) \<subseteq> ex_completed x)
    \<and> (set (ex_plan_steps x) \<subseteq> ex_completed x \<longrightarrow>
        (\<exists>ord. set ord = set (ex_plan_steps x) \<and> dep_order (ex_step_deps x) ord))"
proof -
  have inv: "store_inv st" by (rule reachable_inv [OF assms(1)])
  have ex: "executable_inv x" using store_invD(1) [OF inv assms(2)] by simp
  have "ex_completed x \<subseteq> set (ex_plan_steps x)"
    using executable_inv_simps(2,5) [OF ex] by auto
  then show ?thesis
    using invoke_finish(1) [OF inv assms(2)] executable_inv_simps(8) [OF ex] by (metis subset_antisym)
qed

text \<open>The work left in a plan: two for a pending step, one for a step in progress.\<close>

definition step_weight :: "string option \<Rightarrow> nat" where
  "step_weight v = (if v = Some ''pending'' then 2 else if v = Some ''in_progress'' then 1 else 0)"

definition work_left :: "executable \<Rightarrow> nat" where
  "work_left x = (\<Sum>s \<in> set (ex_plan_steps x). step_weight (ex_step_status x s))"

lemma step_weights [simp]:
  "step_weight (Some ''pending'') = 2" "step_weight (Some ''in_progress'') = 1"
  "step_weight (Some ''completed'') = 0"
  by (simp_all add: step_weight_def)

lemma work_update:
  assumes "s \<in> S" "finite S"
  shows "(\<Sum>t \<in> S. step_weight ((f(s \<mapsto> v)) t)) + step_weight (f s) = (\<Sum>t \<in> S. step_weight (f t)) + step_weight (Some v)"
proof -
  have "(\<Sum>t \<in> S - {s}. step_weight ((f(s \<mapsto> v)) t)) = (\<Sum>t \<in> S - {s}. step_weight (f t))"
    by (rule sum.cong) auto
  moreover have "(\<Sum>t \<in> S. step_weight ((f(s \<mapsto> v)) t)) =
      step_weight (Some v) + (\<Sum>t \<in> S - {s}. step_weight ((f(s \<mapsto> v)) t))"
    using sum.remove [OF assms(2,1), of "\<lambda>t. step_weight ((f(s \<mapsto> v)) t)"] by simp
  moreover have "(\<Sum>t \<in> S. step_weight (f t)) = step_weight (f s) + (\<Sum>t \<in> S - {s}. step_weight (f t))"
    using sum.remove [OF assms(2,1), of "\<lambda>t. step_weight (f t)"] by simp
  ultimately show ?thesis by linarith
qed

lemma work_steps:
  assumes "executable_inv x"
  shows "ex_step_status x step = Some ''pending'' \<Longrightarrow> work_left (started step x) + 1 = work_left x"
    and "ex_step_status x step = Some ''in_progress'' \<Longrightarrow> work_left (stepped step x) + 1 = work_left x"
proof -
  have m: "step \<in> set (ex_plan_steps x)" if "ex_step_status x step = Some v" for v
    using that executable_inv_simps(2) [OF assms] by blast
  show "ex_step_status x step = Some ''pending'' \<Longrightarrow> work_left (started step x) + 1 = work_left x"
    using work_update [of step "set (ex_plan_steps x)" "ex_step_status x" "''in_progress''"] m
    by (simp add: work_left_def del: fun_upd_apply)
  show "ex_step_status x step = Some ''in_progress'' \<Longrightarrow> work_left (stepped step x) + 1 = work_left x"
    using work_update [of step "set (ex_plan_steps x)" "ex_step_status x" "''completed''"] m
    by (simp add: work_left_def del: fun_upd_apply)
qed

lemma some_step_enabled:
  assumes inv: "executable_inv x"
  shows "dep_order (ex_step_deps x) ord \<Longrightarrow> set ord \<subseteq> set (ex_plan_steps x) \<Longrightarrow> \<not> set ord \<subseteq> ex_completed x \<Longrightarrow>
    \<exists>step. ex_step_status x step = Some ''in_progress''
      \<or> ex_step_status x step = Some ''pending'' \<and> deps_of (ex_step_deps x) step \<subseteq> ex_completed x"
proof (induction ord)
  case (Cons s before)
  show ?case
  proof (cases "set before \<subseteq> ex_completed x")
    case False
    then show ?thesis using Cons by simp
  next
    case True
    then have d: "deps_of (ex_step_deps x) s \<subseteq> ex_completed x" and n: "s \<notin> ex_completed x"
      using Cons.prems by auto
    obtain v where v: "ex_step_status x s = Some v"
      using Cons.prems(2) executable_inv_simps(2) [OF inv] by (metis domD list.set_intros(1) subsetD)
    have "v \<noteq> ''completed''" using n v executable_inv_simps(5) [OF inv] by auto
    then show ?thesis using status_values [OF inv v] v d by blast
  qed
qed simp

fun works_on :: "string \<Rightarrow> execution_session_command \<Rightarrow> bool" where
  "works_on sid (CmdStartStep i _ _) \<longleftrightarrow> i = sid"
| "works_on sid (CmdCompleteStep i _ _) \<longleftrightarrow> i = sid"
| "works_on sid (CmdFinish i) \<longleftrightarrow> i = sid"
| "works_on sid _ \<longleftrightarrow> False"

lemma plan_can_finish:
  assumes "store_inv st" "st_sessions st sid = Some (Executable x)" "current_lineage x st"
    "set ord = set (ex_plan_steps x)" "dep_order (ex_step_deps x) ord"
  shows "\<exists>cmds. length cmds = work_left x + 1 \<and> list_all (works_on sid) cmds
    \<and> st_sessions (invoke_all env de cmds st) sid = Some (ClosedSession (ex_base x))"
  using assms
proof (induction "work_left x" arbitrary: x st rule: less_induct)
  case less
  note inv = less.prems(1) and sess = less.prems(2) and cur = less.prems(3)
  have ex: "executable_inv x" using store_invD(1) [OF inv sess] by simp
  show ?case
  proof (cases "set (ex_plan_steps x) \<subseteq> ex_completed x")
    case True
    have "step_weight (ex_step_status x s) = 0" if "s \<in> set (ex_plan_steps x)" for s
      using True that executable_inv_simps(5) [OF ex] by auto
    then have "work_left x = 0" by (simp add: work_left_def)
    then show ?thesis using invoke_finish(2) [OF inv sess cur True]
      by (intro exI [of _ "[CmdFinish sid]"]) simp
  next
    case False
    have "\<not> set ord \<subseteq> ex_completed x" "set ord \<subseteq> set (ex_plan_steps x)" using False less.prems(4) by auto
    from some_step_enabled [OF ex less.prems(5) this(2,1)] obtain step where
      "ex_step_status x step = Some ''in_progress''
       \<or> ex_step_status x step = Some ''pending'' \<and> deps_of (ex_step_deps x) step \<subseteq> ex_completed x" by blast
    then obtain cmd y where c: "works_on sid cmd" and y: "work_left y + 1 = work_left x" "ex_plan_steps y = ex_plan_steps x"
        "ex_step_deps y = ex_step_deps x" "ex_base y = ex_base x" "ex_epoch y = ex_epoch x"
        "st_sessions (snd (execution_session_invoke env de 0 [] (Err []) cmd st)) sid = Some (Executable y)"
        "st_epochs (snd (execution_session_invoke env de 0 [] (Err []) cmd st)) = st_epochs st"
    proof (elim disjE conjE, goal_cases)
      case 1
      show ?case
        by (rule 1(1) [of "CmdCompleteStep sid step []" "stepped step x"])
           (use invoke_step(2) [OF inv sess cur 1(2)] work_steps(2) [OF ex 1(2)] in \<open>simp_all add: Let_def\<close>)
    next
      case 2
      show ?case
        by (rule 2(1) [of "CmdStartStep sid step []" "started step x"])
           (use invoke_step(1) [OF inv sess cur 2(2,3)] work_steps(1) [OF ex 2(2)] in \<open>simp_all add: Let_def\<close>)
    qed
    let ?st = "snd (execution_session_invoke env de 0 [] (Err []) cmd st)"
    have "current_lineage y ?st" using cur y by (simp add: current_lineage_def)
    from less.hyps [OF _ invoke_inv [OF inv] y(6) this] less.prems(4,5) y
    obtain cmds where "length cmds = work_left y + 1" "list_all (works_on sid) cmds"
      "st_sessions (invoke_all env de cmds ?st) sid = Some (ClosedSession (ex_base y))" by auto
    then show ?thesis using y c by (intro exI [of _ "cmd # cmds"]) simp
  qed
qed

lemma work_bound: "work_left x \<le> 2 * length (ex_plan_steps x)"
proof -
  have "work_left x \<le> of_nat (card (set (ex_plan_steps x))) * 2"
    unfolding work_left_def by (rule sum_bounded_above) (simp add: step_weight_def)
  then show ?thesis using card_length [of "ex_plan_steps x"] by simp
qed

text \<open>
  C8: an acyclic plan can always be brought to its end.  From any store a run can produce, for an
  executable session whose lineage is current and whose steps can be ordered after their
  dependencies, at most twice the number of steps plus one start, complete and finish commands close
  the session, whatever the planning resolver and the effect emitter answer.
\<close>

theorem acyclic_plan_can_finish:
  assumes "(es_step env de)\<^sup>*\<^sup>* (store_empty s b) st" "st_sessions st sid = Some (Executable x)"
    "current_lineage x st" "set ord = set (ex_plan_steps x)" "dep_order (ex_step_deps x) ord"
  shows "\<exists>cmds. length cmds \<le> 2 * length (ex_plan_steps x) + 1 \<and> list_all (works_on sid) cmds
    \<and> st_sessions (invoke_all env de cmds st) sid = Some (ClosedSession (ex_base x))"
  using plan_can_finish [OF reachable_inv [OF assms(1)] assms(2-5)] work_bound [of x]
  by (metis add_le_mono1)

subsection \<open>Rejected commands\<close>

lemma gone:
  "st_sessions st sid = None \<Longrightarrow> command_session cmd = Some sid \<Longrightarrow>
   execution_session_invoke env de now fresh active cmd st = (Err ''execution session not found'', st)"
  by (simp add: execution_session_invoke_def invocation_scope_def)

text \<open>
  a step command that is refused destroys its session.  The handler takes the session out of
  the store before it checks the command; when the step is unknown, not pending or waits for a
  dependency, the error is returned without putting it back, and every later command on the session
  is answered with not found.
\<close>

theorem refused_start_loses_session:
  assumes "(es_step env de)\<^sup>*\<^sup>* (store_empty s b) st" "st_sessions st sid = Some (Executable x)"
    "ex_step_status x step \<noteq> Some ''pending'' \<or> \<not> deps_of (ex_step_deps x) step \<subseteq> ex_completed x"
    "command_session cmd = Some sid"
  shows "let (r, st') = execution_session_invoke env de now fresh active (CmdStartStep sid step cs) st
    in \<not> is_ok r \<and> execution_session_invoke env de now fresh active cmd st' = (Err ''execution session not found'', st')"
proof -
  have "\<exists>m. apply_start_step (Executable x) step cs = Err m"
    using assms(3) start_step_iff [of x step cs] by (metis old.sum.exhaust surj_pair)
  then have "\<exists>m. step_transition True (sb_owner_scope (ex_base x)) (st_epochs st) step cs (Executable x) = Err m"
    by (cases "admitted (sb_owner_scope (ex_base x)) (st_epochs st) (Executable x)")
       (auto simp: step_transition_def simp del: apply_start_step.simps)
  then obtain m where "step_transition True (sb_owner_scope (ex_base x)) (st_epochs st) step cs (Executable x) = Err m" ..
  then have "execution_session_invoke env de now fresh active (CmdStartStep sid step cs) st = (Err m, take_session sid st)"
    using assms(2) by (simp add: execution_session_invoke_def invocation_scope_def handle_step_def)
  moreover have "execution_session_invoke env de now fresh active cmd (take_session sid st)
      = (Err ''execution session not found'', take_session sid st)"
    by (rule gone [OF _ assms(4)]) (simp add: take_session_def)
  ultimately show ?thesis by simp
qed

text \<open>
  a tool call made while a step is in progress need not be attributed to it.  The session keeps
  one current step; when a second step is started and completed, the first one is still in progress
  but the runtime finds no current step for the task.
\<close>

theorem step_in_progress_unattributed:
  assumes "(es_step env de)\<^sup>*\<^sup>* (store_empty s b) st" "st_sessions st sid = Some (Executable x)"
    "current_lineage x st" "p \<noteq> q"
    "ex_step_status x p = Some ''pending''" "deps_of (ex_step_deps x) p \<subseteq> ex_completed x"
    "ex_step_status x q = Some ''pending''" "deps_of (ex_step_deps x) q \<subseteq> ex_completed x"
  shows "let st' = invoke_all env de [CmdStartStep sid p [], CmdStartStep sid q [], CmdCompleteStep sid q []] st
    in (\<exists>y. st_sessions st' sid = Some (Executable y) \<and> ex_step_status y p = Some ''in_progress'')
       \<and> resolve_planning_step [sid] (st_sessions st') (sb_owner_scope (ex_base x)) = None"
proof -
  let ?inv = "\<lambda>cmd st. snd (execution_session_invoke env de 0 [] (Err []) cmd st)"
  note i0 = reachable_inv [OF assms(1)]
  note i1 = invoke_inv [OF i0, of env de 0 "[]" "Err []" "CmdStartStep sid p []"]
  have s1: "st_sessions (?inv (CmdStartStep sid p []) st) sid = Some (Executable (started p x))"
      "current_lineage (started p x) (?inv (CmdStartStep sid p []) st)"
    using invoke_step(1) [OF i0 assms(2,3,5,6)] assms(3) by (simp_all add: Let_def current_lineage_def)
  let ?st1 = "?inv (CmdStartStep sid p []) st"
  note i2 = invoke_inv [OF i1, of env de 0 "[]" "Err []" "CmdStartStep sid q []"]
  have s2: "st_sessions (?inv (CmdStartStep sid q []) ?st1) sid = Some (Executable (started q (started p x)))"
      "current_lineage (started q (started p x)) (?inv (CmdStartStep sid q []) ?st1)"
    using invoke_step(1) [OF i1 s1, of q] s1(2) assms(4,7,8) by (simp_all add: Let_def current_lineage_def)
  have s3: "st_sessions (?inv (CmdCompleteStep sid q []) (?inv (CmdStartStep sid q []) ?st1)) sid
      = Some (Executable (stepped q (started q (started p x))))"
    using invoke_step(2) [OF i2 s2, of q] by (simp add: Let_def)
  show ?thesis
    using s3 assms(4) by (auto simp: Let_def resolve_planning_step_def map_filter_def split: option.split)
qed

text \<open>
  a rejected plan is executed all the same.  The session becomes executable before the resolver
  sees the plan: with the default resolver an empty plan is answered with an error, the session is
  executable, and finishing it succeeds.
\<close>

theorem rejected_plan_executable:
  assumes "(es_step env de)\<^sup>*\<^sup>* (store_empty s b) st" "st_sessions st sid = Some (AwaitPlan o' intent e)"
    "pee_resolver env = default_planning_resolver" "psw_steps plan = []" "psw_intent_id plan = intent"
    "psw_supersession plan = None"
  shows "let (r, st') = execution_session_invoke env de now fresh active (CmdSubmitPlan sid plan) st
    in \<not> is_ok r \<and> (\<exists>x. st_sessions st' sid = Some (Executable x) \<and> ex_plan_steps x = [])
       \<and> is_ok (fst (execution_session_invoke env de now fresh active (CmdFinish sid) st'))"
proof -
  let ?out = "execution_session_invoke env de now fresh active (CmdSubmitPlan sid plan) st"
  note inv = reachable_inv [OF assms(1)]
  have wf: "base_wf o'" and eb: "epoch_bound (st_epochs st) (AwaitPlan o' intent e)"
    using store_invD(2,3) [OF inv assms(2)] by auto
  obtain n where n: "st_epochs st (sb_owner_task_id o') = Some n" using eb by (auto simp: epoch_bound_def)
  have task: "task_id_opt (sb_owner_scope o') = Some (sb_owner_task_id o')" using wf by (simp add: base_wf_def)
  let ?x = "\<lparr>ex_base = o', ex_intent_id = intent, ex_plan_id = psw_plan_id plan, ex_plan_steps = [],
     ex_step_status = Map.empty, ex_step_deps = Map.empty, ex_completed = {}, ex_epoch = n, ex_current_step_id = None\<rparr>"
  let ?em = "emit_plan_generated env (sb_owner_scope o') intent (psw_plan_id plan) (JArray []) None (Some n) (st_bus st)"
  let ?st1 = "put_session sid (Executable ?x) (st\<lparr>st_epochs := (st_epochs st)(sb_owner_task_id o' \<mapsto> n)\<rparr>)"
  have refused: "\<exists>m. fst ?em = Err m"
    using assms(3) by (auto simp: emit_plan_generated_def task_and_emitter_def task build_dynamic_context_def
        default_planning_resolver_def default_resolve_plan_def res_bind_def split: option.splits sum.splits)
  have out: "?out = answer ?em (phase_response sid ''executable'') ?st1"
    using assms(2,4-6) scope_matches_own [OF wf] n task
    by (simp add: execution_session_invoke_def invocation_scope_def handle_submit_plan_def read_supersession_def
        advance_epoch_def Let_def)
  then have st': "st_sessions (snd ?out) sid = Some (Executable ?x)" "st_epochs (snd ?out) = (st_epochs st)(sb_owner_task_id o' \<mapsto> n)"
    by (auto simp: answer_def put_session_def split: prod.split sum.split)
  have "\<not> is_ok (fst ?out)" using out refused by (auto simp: answer_def split: prod.split)
  moreover have "is_ok (fst (execution_session_invoke env de now fresh active (CmdFinish sid) (snd ?out)))"
    using invoke_finish(1) [OF invoke_inv [OF inv] st'(1)] st'(2) by (simp add: current_lineage_def)
  ultimately show ?thesis using st'(1) by (auto simp: split: prod.split)
qed

text \<open>
  a rejected intent supersedes the other plans of its task.  The lineage epoch is advanced
  before the session's phase is checked: submitting a superseding intent to a session that already
  has one fails and loses that session, and every other plan of the task that was current is stale.
\<close>

theorem rejected_intent_supersedes:
  assumes "(es_step env de)\<^sup>*\<^sup>* (store_empty s b) st" "st_sessions st sid = Some (AwaitPlan o' i e)"
    "isw_supersession intent = Some k" "parse_supersession k \<noteq> None"
    "st_sessions st sid' = Some (Executable y)" "sb_owner_task_id (ex_base y) = sb_owner_task_id o'"
    "current_lineage y st" "ex_epoch y + 1 < 2 ^ 64"
  shows "let (r, st') = execution_session_invoke env de now fresh active (CmdSubmitIntent sid intent) st
    in \<not> is_ok r \<and> st_sessions st' sid = None \<and> st_sessions st' sid' = Some (Executable y) \<and> \<not> current_lineage y st'"
proof -
  note inv = reachable_inv [OF assms(1)]
  have wf: "base_wf o'" using store_invD(3) [OF inv assms(2)] by simp
  obtain k' where k: "parse_supersession k = Some k'" using assms(4) by blast
  have ne: "sid' \<noteq> sid" using assms(2,5) by auto
  have "next_epoch (ex_epoch y) = ex_epoch y + 1" using assms(8) by (simp add: next_epoch_def)
  then show ?thesis
    using assms(2,3,5-7) wf k ne scope_matches_own [OF wf]
    by (simp add: execution_session_invoke_def invocation_scope_def handle_submit_intent_def read_supersession_def
        advance_epoch_def Let_def base_wf_def take_session_def current_lineage_def)
qed

text \<open>
  the scope check of the commands never refuses a caller.  A command other than open runs in
  the scope stored in its session, whatever scope the calling code is active in, so in every store a
  run can produce the check that the scope matches the session's owner holds, and the answer does not
  depend on the caller's scope.
\<close>

theorem caller_scope_unchecked:
  assumes "(es_step env de)\<^sup>*\<^sup>* (store_empty s b) st" "st_sessions st sid = Some sess"
    "command_session cmd = Some sid"
  shows "invocation_scope active cmd st = Ok (sb_owner_scope (session_base_of sess))
    \<and> ensure_execution_session_scope_matches (session_base_of sess) (sb_owner_scope (session_base_of sess)) = Ok ()
    \<and> execution_session_invoke env de now fresh active cmd st = execution_session_invoke env de now fresh active' cmd st"
  using scope_matches_own [OF store_invD(3) [OF reachable_inv [OF assms(1)] assms(2)]] assms(2,3)
  by (simp add: execution_session_invoke_def invocation_scope_def)

subsection \<open>A concrete session\<close>

definition demo_scope :: runtime_scope where
  "demo_scope = TaskScope ''ctx'' ''agent'' ''msg'' ''task''"

definition demo_env :: "unit planning_emit_env" where
  "demo_env = \<lparr>pee_resolver = default_planning_resolver, pee_emitter = Some (\<lambda>ev b. (Ok (), b)),
     pee_tool_names = [], pee_history = None, pee_correlation_id = None\<rparr>"

definition demo_intent :: "string option \<Rightarrow> intent_submission_wire" where
  "demo_intent su = \<lparr>isw_intent_id = ''i'', isw_description = ''d'', isw_citations = [], isw_supersession = su\<rparr>"

definition demo_step :: "string \<Rightarrow> string list \<Rightarrow> plan_step_submission" where
  "demo_step i ds = \<lparr>pss_step_id = i, pss_description = ''d'', pss_order = 0, pss_depends_on = ds\<rparr>"

definition demo_plan :: "plan_step_submission list \<Rightarrow> plan_submission_wire" where
  "demo_plan ps = \<lparr>psw_intent_id = ''i'', psw_plan_id = ''p'', psw_steps = ps, psw_supersession = None\<rparr>"

definition demo_run :: "(string \<times> execution_session_command) list \<Rightarrow> unit session_store" where
  "demo_run cs = run_steps (\<lambda>(fresh, cmd) st.
     snd (execution_session_invoke demo_env (\<lambda>_. None) 0 fresh (Ok demo_scope) cmd st)) cs (store_empty enforce_state ())"

lemma demo_reachable: "(es_step demo_env (\<lambda>_. None))\<^sup>*\<^sup>* (store_empty enforce_state ()) (demo_run cs)"
proof -
  have "(es_step demo_env (\<lambda>_. None))\<^sup>*\<^sup>* st (run_steps (\<lambda>(fresh, cmd) st.
      snd (execution_session_invoke demo_env (\<lambda>_. None) 0 fresh (Ok demo_scope) cmd st)) cs st)" for st
  proof (induction cs arbitrary: st)
    case (Cons c cs)
    obtain fresh cmd where c: "c = (fresh, cmd)" by (cases c)
    show ?case unfolding c
      using converse_rtranclp_into_rtranclp [OF es_command Cons.IH] by simp
  qed simp
  then show ?thesis by (simp add: demo_run_def)
qed

definition demo_base :: session_base where
  "demo_base = \<lparr>sb_owner_scope = demo_scope, sb_owner_task_id = ''task'', sb_owner_context_id = ''ctx''\<rparr>"

abbreviation demo_to_plan :: "(string \<times> execution_session_command) list" where
  "demo_to_plan \<equiv> [(''s'', CmdOpen), ([], CmdSubmitIntent ''s'' (demo_intent None))]"

lemmas demo_simps =
  demo_run_def store_empty_def execution_session_invoke_def invocation_scope_def handle_open_session_def
  handle_submit_intent_def handle_submit_plan_def session_new_def demo_scope_def demo_base_def demo_intent_def
  demo_plan_def demo_step_def task_id_opt_def read_supersession_def advance_epoch_def take_session_def
  put_session_def ensure_execution_session_scope_matches_def add_plan_step_def plan_step_deps_def Let_def

lemma demo_await: "st_sessions (demo_run demo_to_plan) ''s'' = Some (AwaitPlan demo_base ''i'' 0)"
  by (simp add: demo_simps)

abbreviation demo_steps :: "plan_step_submission list" where
  "demo_steps \<equiv> [demo_step ''a'' [], demo_step ''b'' [], demo_step ''c'' [''a'']]"

abbreviation demo_to_run :: "(string \<times> execution_session_command) list" where
  "demo_to_run \<equiv> demo_to_plan @ [([], CmdSubmitPlan ''s'' (demo_plan demo_steps))]"

definition demo_x :: executable where
  "demo_x = \<lparr>ex_base = demo_base, ex_intent_id = ''i'', ex_plan_id = ''p'', ex_plan_steps = [''a'', ''b'', ''c''],
     ex_step_status = [''a'' \<mapsto> ''pending'', ''b'' \<mapsto> ''pending'', ''c'' \<mapsto> ''pending''],
     ex_step_deps = [''a'' \<mapsto> [], ''b'' \<mapsto> [], ''c'' \<mapsto> [''a'']],
     ex_completed = {}, ex_epoch = 0, ex_current_step_id = None\<rparr>"

lemma demo_trim: "trim ''a'' = ''a''"
  by (simp add: trim_def trim_start_def trim_end_def is_ascii_ws_def)

lemma demo_executable:
  "st_sessions (demo_run demo_to_run) ''s'' = Some (Executable demo_x)"
  "current_lineage demo_x (demo_run demo_to_run)"
  by (simp_all add: demo_simps demo_x_def demo_trim current_lineage_def)

theorem reachable_store_inv_witness: "store_inv (demo_run demo_to_run)"
  by (rule reachable_store_inv [OF demo_reachable])

theorem finish_in_dependency_order_witness:
  "\<not> is_ok (fst (execution_session_invoke demo_env (\<lambda>_. None) 0 [] (Err []) (CmdFinish ''s'') (demo_run demo_to_run)))"
  using finish_in_dependency_order [OF demo_reachable demo_executable(1), of 0 "[]" "Err []"]
  by (simp add: demo_x_def)

theorem acyclic_plan_can_finish_witness:
  "\<exists>cmds. length cmds \<le> 7 \<and> list_all (works_on ''s'') cmds
    \<and> st_sessions (invoke_all demo_env (\<lambda>_. None) cmds (demo_run demo_to_run)) ''s'' = Some (ClosedSession demo_base)"
  using acyclic_plan_can_finish [OF demo_reachable demo_executable, of "[''c'', ''b'', ''a'']"]
  by (simp add: demo_x_def deps_of_def insert_commute)

theorem refused_start_loses_session_witness:
  "let (r, st') = execution_session_invoke demo_env (\<lambda>_. None) 0 [] (Err []) (CmdStartStep ''s'' ''c'' []) (demo_run demo_to_run)
   in \<not> is_ok r \<and> execution_session_invoke demo_env (\<lambda>_. None) 0 [] (Err []) (CmdStartStep ''s'' ''a'' []) st'
        = (Err ''execution session not found'', st')"
  by (rule refused_start_loses_session [OF demo_reachable demo_executable(1)])
     (simp_all add: demo_x_def deps_of_def)

theorem step_in_progress_unattributed_witness:
  "resolve_planning_step [''s''] (st_sessions (invoke_all demo_env (\<lambda>_. None)
     [CmdStartStep ''s'' ''a'' [], CmdStartStep ''s'' ''b'' [], CmdCompleteStep ''s'' ''b'' []] (demo_run demo_to_run)))
     demo_scope = None"
  using step_in_progress_unattributed [OF demo_reachable demo_executable, of "''a''" "''b''"]
  by (simp add: demo_x_def deps_of_def Let_def demo_base_def del: run_steps.simps)

theorem rejected_plan_executable_witness:
  "let (r, st') = execution_session_invoke demo_env (\<lambda>_. None) 0 [] (Err []) (CmdSubmitPlan ''s'' (demo_plan [])) (demo_run demo_to_plan)
   in \<not> is_ok r \<and> (\<exists>x. st_sessions st' ''s'' = Some (Executable x) \<and> ex_plan_steps x = [])
      \<and> is_ok (fst (execution_session_invoke demo_env (\<lambda>_. None) 0 [] (Err []) (CmdFinish ''s'') st'))"
  by (rule rejected_plan_executable [OF demo_reachable demo_await])
     (simp_all add: demo_env_def demo_plan_def)

abbreviation demo_two :: "(string \<times> execution_session_command) list" where
  "demo_two \<equiv> demo_to_run @ [(''z'', CmdOpen), ([], CmdSubmitIntent ''z'' (demo_intent None))]"

lemma demo_two_sessions:
  "st_sessions (demo_run demo_two) ''s'' = Some (Executable demo_x)"
  "st_sessions (demo_run demo_two) ''z'' = Some (AwaitPlan demo_base ''i'' 0)"
  "current_lineage demo_x (demo_run demo_two)"
  by (simp_all add: demo_simps demo_x_def demo_trim current_lineage_def)

theorem rejected_intent_supersedes_witness:
  "let (r, st') = execution_session_invoke demo_env (\<lambda>_. None) 0 [] (Err [])
       (CmdSubmitIntent ''z'' (demo_intent (Some ''replaced''))) (demo_run demo_two)
   in \<not> is_ok r \<and> st_sessions st' ''z'' = None \<and> st_sessions st' ''s'' = Some (Executable demo_x) \<and> \<not> current_lineage demo_x st'"
  by (rule rejected_intent_supersedes [OF demo_reachable demo_two_sessions(2) _ _ demo_two_sessions(1) _
        demo_two_sessions(3), where k = "''replaced''"])
     (simp_all add: demo_intent_def demo_x_def demo_base_def parse_supersession_def
       trim_def trim_start_def trim_end_def is_ascii_ws_def)

theorem caller_scope_unchecked_witness:
  "execution_session_invoke demo_env (\<lambda>_. None) 0 [] (Ok (MessageScope ''other'' ''agent2'' ''m2'')) (CmdAbort ''s'' []) (demo_run demo_to_run)
   = execution_session_invoke demo_env (\<lambda>_. None) 0 [] (Err []) (CmdAbort ''s'' []) (demo_run demo_to_run)"
  using caller_scope_unchecked [OF demo_reachable demo_executable(1),
      of "CmdAbort ''s'' []" "Ok (MessageScope ''other'' ''agent2'' ''m2'')" 0 "[]" "Err []"] by simp

end
