(* ===== verification/Governed_Execution.thy ===== *)
theory Governed_Execution
  imports Execution_Plan
begin

text \<open>
  Governed execution of a tool, \<^verbatim>\<open>crates/baml-rt-quickjs/src/tool_execution.rs\<close> with
  \<^verbatim>\<open>tool_effect_metadata.rs\<close> and the extraction of a single call in \<^verbatim>\<open>baml/tool_extraction.rs\<close>:
  the metadata stamped on a call, the interceptor pipeline around it, the effects announced on the bus
  and the run of the tool in the registry.  Durations, the correlation id and the id the registry
  draws for its session are arguments.  The theorems compose the registry, the gate and the bus.
\<close>

subsection \<open>Runtime\<close>

record tool_session_scope =
  tss_tool_name :: string
  tss_scope :: runtime_scope
  tss_open_input :: json

record ('s, 'w, 'st, 'b) exec_env =
  xe_vtable :: "('s, 'w) session_vtable"
  xe_pipeline :: "'st tool_interceptor list"
  xe_emitter :: "'b emitter option"
  xe_agent_package :: "string option"
  xe_correlation_id :: "string option"
  xe_session_order :: "string list"

record ('s, 'w, 'st, 'b) runtime =
  rt_registry :: "('s, 'w) tool_registry"
  rt_world :: 'w
  rt_gate :: 'st
  rt_bus :: 'b
  rt_execution_sessions :: "string \<Rightarrow> execution_session option"
  rt_scopes :: "string \<Rightarrow> tool_session_scope option"
  rt_states :: "string \<Rightarrow> tool_call_context option"
  rt_tokens :: "string \<Rightarrow> tool_effect_metadata start_token option"
  rt_anchors :: "string \<Rightarrow> string option"

subsection \<open>Metadata of a call\<close>

definition insert_field :: "string \<Rightarrow> json \<Rightarrow> json \<Rightarrow> json" where
  "insert_field k v m = (case m of JObject obj \<Rightarrow> JObject (obj_insert k v obj) | _ \<Rightarrow> m)"

definition build_metadata_map_with_phase ::
  "string option \<Rightarrow> runtime_scope \<Rightarrow> string option \<Rightarrow> json" where
  "build_metadata_map_with_phase corr scope phase =
     (let m0 = (case corr of Some i \<Rightarrow> obj_insert ''correlation_id'' (JString i) [] | None \<Rightarrow> []);
          m1 = obj_insert ''message_id'' (JString (message_id scope)) m0;
          m2 = (case task_id_opt scope of Some t \<Rightarrow> obj_insert ''task_id'' (JString t) m1 | None \<Rightarrow> m1);
          m3 = obj_insert ''agent_id'' (JString (agent_id scope)) m2;
          m4 = (case phase of Some p \<Rightarrow> obj_insert ''phase'' (JString p) m3 | None \<Rightarrow> m3)
      in JObject m4)"

definition stamp_agent_package :: "string option \<Rightarrow> json \<Rightarrow> json" where
  "stamp_agent_package pkg m =
     (case pkg of
        None \<Rightarrow> m
      | Some p \<Rightarrow> if p = [] then m else insert_field ''agent_package'' (JString p) m)"

definition stamp_tool_effect_metadata_scope :: "runtime_scope \<Rightarrow> json \<Rightarrow> json" where
  "stamp_tool_effect_metadata_scope scope m =
     (let m1 = insert_field ''agent_id'' (JString (agent_id scope))
                 (insert_field ''message_id'' (JString (message_id scope)) m)
      in (case task_id_opt scope of Some t \<Rightarrow> insert_field ''task_id'' (JString t) m1 | None \<Rightarrow> m1))"

definition stamp_tool_registry_metadata :: "('s, 'w) tool_registry \<Rightarrow> string \<Rightarrow> json \<Rightarrow> json" where
  "stamp_tool_registry_metadata r name m =
     (case get_metadata name r of
        None \<Rightarrow> m
      | Some meta \<Rightarrow>
          (let m1 = (case tfm_access meta of
                       Some a \<Rightarrow> insert_field ''access_level'' (JString (access_str a)) m
                     | None \<Rightarrow> m)
           in if tfm_tags meta = [] then m1
              else insert_field ''tags'' (JArray (map JString (tfm_tags meta))) m1))"

definition stamp_planning_step ::
  "string list \<Rightarrow> (string \<Rightarrow> execution_session option) \<Rightarrow> runtime_scope \<Rightarrow> json \<Rightarrow> json" where
  "stamp_planning_step order sessions scope m =
     (case resolve_planning_step order sessions scope of
        None \<Rightarrow> m
      | Some (plan, step) \<Rightarrow>
          insert_field ''step_id'' (JString step) (insert_field ''plan_id'' (JString plan) m))"

definition call_metadata ::
  "('s, 'w, 'st, 'b) exec_env \<Rightarrow> string \<Rightarrow> runtime_scope \<Rightarrow> string \<Rightarrow> ('s, 'w, 'st, 'b) runtime \<Rightarrow> json" where
  "call_metadata env phase scope name rt =
     stamp_planning_step (xe_session_order env) (rt_execution_sessions rt) scope
       (stamp_tool_registry_metadata (rt_registry rt) name
         (stamp_agent_package (xe_agent_package env)
           (stamp_tool_effect_metadata_scope scope
             (build_metadata_map_with_phase (xe_correlation_id env) scope (Some phase)))))"

fun backend_debug :: "tool_backend \<Rightarrow> string" where
  "backend_debug Static = ''Static''"
| "backend_debug External = ''External''"
| "backend_debug Mcp = ''Mcp''"
| "backend_debug Sandbox = ''Sandbox''"
| "backend_debug Wasm = ''Wasm''"

definition backend_and_digest :: "string \<Rightarrow> ('s, 'w) tool_registry \<Rightarrow> string option \<times> string option" where
  "backend_and_digest name r =
     (case get_metadata name r of
        Some m \<Rightarrow> (Some (backend_debug (tfm_backend m)), tfm_digest m)
      | None \<Rightarrow> (None, None))"

subsection \<open>Executing a call\<close>

definition emit_gate_blocked_effect ::
  "'b emitter option \<Rightarrow> string \<Rightarrow> tool_effect_metadata \<Rightarrow> 'b \<Rightarrow> 'b" where
  "emit_gate_blocked_effect em c meta b =
     (case em of
        None \<Rightarrow> b
      | Some e \<Rightarrow>
          (case start_tool e c meta b of
             (Inl _, b') \<Rightarrow> b'
           | (Inr tok, b') \<Rightarrow> snd (complete_tool e tok 0 Failure None b')))"

definition effect_metadata_of ::
  "tool_call_context \<Rightarrow> json \<Rightarrow> string option \<Rightarrow> string option \<times> string option \<Rightarrow> tool_effect_metadata" where
  "effect_metadata_of ctx metadata target bd =
     \<lparr>tem_tool_name = tcc_tool_name ctx, tem_function_name = None, tem_args = tcc_args ctx,
      tem_metadata = metadata, tem_delegation_target = target, tem_tool_backend = fst bd, tem_tool_digest = snd bd\<rparr>"

text \<open>
  The gate around a call, the same in \<^verbatim>\<open>execute_tool_inner\<close> and in the session handle: the pipeline
  decides, the metadata is stamped, and a call that is held is announced as a failed effect.  The
  result is the stamped metadata of a call that may go on.
\<close>

definition gate_call ::
  "('s, 'w, 'st, 'b) exec_env \<Rightarrow> tool_call_context \<Rightarrow> ('s, 'w, 'st, 'b) runtime
   \<Rightarrow> json res \<times> ('s, 'w, 'st, 'b) runtime" where
  "gate_call env ctx rt =
     (let (decision, g1) = intercept_tool_call (xe_pipeline env) ctx (rt_gate rt);
          (metadata, g2) = stamp_tool_metadata (xe_pipeline env) ctx (tcc_metadata ctx) g1;
          rt1 = rt\<lparr>rt_gate := g2\<rparr>;
          bd = backend_and_digest (tcc_tool_name ctx) (rt_registry rt);
          held = rt1\<lparr>rt_bus := emit_gate_blocked_effect (xe_emitter env)
                    (context_id (tcc_runtime_scope ctx)) (effect_metadata_of ctx metadata None bd) (rt_bus rt)\<rparr>
      in (case decision of
            Inl e \<Rightarrow> (Err e, rt1)
          | Inr (RequireAuthorization prompt) \<Rightarrow> (Err (GateAuthorizationRequired prompt), held)
          | Inr (Block msg) \<Rightarrow> (Err (ToolExecution (''Tool call blocked by interceptor: '' @ msg)), held)
          | Inr Allow \<Rightarrow> (Ok metadata, rt1)
          | Inr (Substitute _) \<Rightarrow> (Ok metadata, rt1)))"

definition start_effect ::
  "'b emitter option \<Rightarrow> string \<Rightarrow> tool_effect_metadata \<Rightarrow> 'b \<Rightarrow> tool_effect_metadata start_token option \<times> 'b" where
  "start_effect em c meta b =
     (case em of
        None \<Rightarrow> (None, b)
      | Some e \<Rightarrow>
          (case start_tool e c meta b of (Inl _, b') \<Rightarrow> (None, b') | (Inr tok, b') \<Rightarrow> (Some tok, b')))"

definition finish_effect ::
  "'b emitter option \<Rightarrow> tool_effect_metadata start_token option \<Rightarrow> nat \<Rightarrow> outcome \<Rightarrow> json option \<Rightarrow> 'b \<Rightarrow> 'b" where
  "finish_effect em tok d out res b =
     (case (tok, em) of (Some t, Some e) \<Rightarrow> snd (complete_tool e t d out res b) | _ \<Rightarrow> b)"

definition outcome_of :: "bool \<Rightarrow> outcome" where
  "outcome_of ok = (if ok then Success else Failure)"

definition call_context ::
  "('s, 'w, 'st, 'b) exec_env \<Rightarrow> string \<Rightarrow> runtime_scope \<Rightarrow> string \<Rightarrow> json \<Rightarrow> string option
   \<Rightarrow> ('s, 'w, 'st, 'b) runtime \<Rightarrow> tool_call_context" where
  "call_context env phase scope name args target rt =
     \<lparr>tcc_tool_name = name, tcc_function_name = None, tcc_args = args, tcc_runtime_scope = scope,
      tcc_metadata = call_metadata env phase scope name rt, tcc_agent_package = xe_agent_package env,
      tcc_delegation_target = target\<rparr>"

definition execute_tool ::
  "('s, 'w, 'st, 'b) exec_env \<Rightarrow> string \<Rightarrow> nat \<Rightarrow> runtime_scope \<Rightarrow> string \<Rightarrow> json \<Rightarrow> ('s, 'w, 'st, 'b) runtime
   \<Rightarrow> json res \<times> ('s, 'w, 'st, 'b) runtime" where
  "execute_tool env sid duration scope name args rt =
     (let ctx = call_context env ''execute'' scope name args None rt;
          c = context_id scope
      in (case gate_call env ctx rt of
            (Inl e, rt1) \<Rightarrow> (Err e, rt1)
          | (Inr metadata, rt1) \<Rightarrow>
              (let (tok, b1) = start_effect (xe_emitter env) c
                     (effect_metadata_of ctx metadata None (backend_and_digest name (rt_registry rt))) (rt_bus rt1);
                   (result, reg, w) = execute (xe_vtable env) sid name args c (agent_id scope) (rt_registry rt1) (rt_world rt1);
                   b2 = finish_effect (xe_emitter env) tok duration (outcome_of (is_ok result))
                          (case result of Inr v \<Rightarrow> Some v | Inl _ \<Rightarrow> None) b1;
                   g = notify_tool_call_complete (xe_pipeline env) ctx result duration (rt_gate rt1)
               in (result, rt1\<lparr>rt_registry := reg, rt_world := w, rt_bus := b2, rt_gate := g\<rparr>))))"

subsection \<open>Single calls in a function result\<close>

definition tool_name_forbidden :: baml_error where
  "tool_name_forbidden =
     InvalidArgument ''Tool call must not include tool_name; tool identity is derived from input schema''"

definition without_type :: "(string \<times> json) list \<Rightarrow> json" where
  "without_type obj = JObject (filter (\<lambda>(k, v). k \<noteq> ''__type'') obj)"

definition extract_tool_call :: "json \<Rightarrow> json option res" where
  "extract_tool_call result =
     (case as_object result of
        None \<Rightarrow> Ok None
      | Some obj \<Rightarrow>
          if obj_get obj ''tool_name'' \<noteq> None then Err tool_name_forbidden
          else if obj_get obj ''__type'' \<noteq> None then Ok (Some (without_type obj))
          else (case obj of
                  [(_, v)] \<Rightarrow>
                    (case as_object v of
                       None \<Rightarrow> Ok None
                     | Some inner \<Rightarrow>
                         if obj_get inner ''tool_name'' \<noteq> None then Err tool_name_forbidden
                         else Ok (Some (without_type inner)))
                | _ \<Rightarrow> Ok None))"

definition input_matches_schema :: "json \<Rightarrow> json \<Rightarrow> bool" where
  "input_matches_schema input schema =
     (case (as_object input, as_object schema) of
        (Some i, Some s) \<Rightarrow>
          (case Option.bind (obj_get s ''type'') as_str of Some t \<Rightarrow> t = ''object'' | None \<Rightarrow> True)
          \<and> (case obj_get s ''required'' of
               Some (JArray reqs) \<Rightarrow>
                 list_all (\<lambda>q. case as_str q of Some k \<Rightarrow> obj_get i k \<noteq> None | None \<Rightarrow> True) reqs
             | _ \<Rightarrow> True)
      | _ \<Rightarrow> False)"

definition resolve_tool_name_from_input_with_registry ::
  "(json \<Rightarrow> string) \<Rightarrow> ('s, 'w) tool_registry \<Rightarrow> json \<Rightarrow> tool_name res" where
  "resolve_tool_name_from_input_with_registry show_json r input =
     (case map tfm_name (filter (\<lambda>m. input_matches_schema input (tfm_input_schema m)) (all_metadata r)) of
        [] \<Rightarrow> Err (InvalidArgument (''No tool input schema matched input: '' @ show_json input))
      | [n] \<Rightarrow> Ok n
      | ns \<Rightarrow> Err (InvalidArgument (''Multiple tools matched input schema: '' @ join '', '' (map display_tool_name ns))))"

definition execute_tool_from_baml_result ::
  "(json \<Rightarrow> string) \<Rightarrow> ('s, 'w, 'st, 'b) exec_env \<Rightarrow> string \<Rightarrow> nat \<Rightarrow> runtime_scope \<Rightarrow> json \<Rightarrow> ('s, 'w, 'st, 'b) runtime
   \<Rightarrow> json res \<times> ('s, 'w, 'st, 'b) runtime" where
  "execute_tool_from_baml_result show_json env sid duration scope result rt =
     (case extract_tool_call result of
        Inl e \<Rightarrow> (Err e, rt)
      | Inr None \<Rightarrow> (Err (InvalidArgument ''No tool call found in result''), rt)
      | Inr (Some args) \<Rightarrow>
          (case resolve_tool_name_from_input_with_registry show_json (rt_registry rt) args of
             Inl e \<Rightarrow> (Err e, rt)
           | Inr n \<Rightarrow> execute_tool env sid duration scope (display_tool_name n) args rt))"

subsection \<open>The tier of a call is the registry's\<close>

lemma insert_field_object [simp]: "insert_field k v (JObject obj) = JObject (obj_insert k v obj)"
  by (simp add: insert_field_def)

lemma json_get_object [simp]: "json_get (JObject obj) k = obj_get obj k"
  by (simp add: json_get_def)

lemma all_strings_map [simp]: "all_strings (map JString ts) = Some ts"
  by (induction ts) simp_all

lemma base_metadata:
  "\<exists>obj. stamp_agent_package pkg (stamp_tool_effect_metadata_scope scope (build_metadata_map_with_phase corr scope phase))
       = JObject obj \<and> obj_get obj ''access_level'' = None \<and> obj_get obj ''tags'' = None"
  by (auto simp: stamp_agent_package_def stamp_tool_effect_metadata_scope_def build_metadata_map_with_phase_def
      Let_def obj_get_def [of "[]"] obj_get_def [of "[(k, v)]" for k v] split: option.split)

lemma call_metadata_fields:
  assumes "get_metadata name (rt_registry rt) = Some m"
  shows "json_get (call_metadata env phase scope name rt) ''access_level'' = map_option (\<lambda>a. JString (access_str a)) (tfm_access m)"
    and "json_get (call_metadata env phase scope name rt) ''tags'' =
      (if tfm_tags m = [] then None else Some (JArray (map JString (tfm_tags m))))"
proof -
  obtain obj where o: "stamp_agent_package (xe_agent_package env) (stamp_tool_effect_metadata_scope scope
      (build_metadata_map_with_phase (xe_correlation_id env) scope (Some phase))) = JObject obj"
    "obj_get obj ''access_level'' = None" "obj_get obj ''tags'' = None"
    using base_metadata by blast
  show "json_get (call_metadata env phase scope name rt) ''access_level'' = map_option (\<lambda>a. JString (access_str a)) (tfm_access m)"
    and "json_get (call_metadata env phase scope name rt) ''tags'' =
      (if tfm_tags m = [] then None else Some (JArray (map JString (tfm_tags m))))"
    using o assms
    by (auto simp: call_metadata_def stamp_tool_registry_metadata_def stamp_planning_step_def Let_def split: option.split)
qed

lemma call_context_fields [simp]:
  "tcc_tool_name (call_context env phase scope name args target rt) = name"
  "tcc_args (call_context env phase scope name args target rt) = args"
  "tcc_runtime_scope (call_context env phase scope name args target rt) = scope"
  "tcc_delegation_target (call_context env phase scope name args target rt) = target"
  "tcc_metadata (call_context env phase scope name args target rt) = call_metadata env phase scope name rt"
  by (simp_all add: call_context_def)

lemma call_tier_registry:
  assumes "get_metadata name (rt_registry rt) = Some m" "tfm_access m = Some a"
  shows "call_tier (call_context env phase scope name args target rt) = classify_tier
     \<lparr>ttm_access_level = a, ttm_tags = tfm_tags m, ttm_read_only_hint = None, ttm_destructive_hint = None,
      ttm_is_delegation = (target \<noteq> None)\<rparr>"
proof -
  have "(if access_str a = ''delete'' then Delete else if access_str a = ''write'' then Write else Read) = a"
    by (cases a) simp_all
  then show ?thesis using call_metadata_fields [OF assms(1)] assms(2)
    by (simp add: call_tier_def tool_meta_from_context_def as_str_def tags_of_json_def)
qed

subsection \<open>A held call does not run\<close>

lemma gate_call_keeps:
  "rt_world (snd (gate_call env ctx rt)) = rt_world rt" "rt_registry (snd (gate_call env ctx rt)) = rt_registry rt"
  "rt_scopes (snd (gate_call env ctx rt)) = rt_scopes rt" "rt_states (snd (gate_call env ctx rt)) = rt_states rt"
  "rt_tokens (snd (gate_call env ctx rt)) = rt_tokens rt" "rt_anchors (snd (gate_call env ctx rt)) = rt_anchors rt"
  "rt_execution_sessions (snd (gate_call env ctx rt)) = rt_execution_sessions rt"
  by (auto simp: gate_call_def Let_def split: prod.split sum.split interceptor_decision.split)

lemma gate_call_ok_iff:
  "is_ok (fst (gate_call env ctx rt)) \<longleftrightarrow> fst (intercept_tool_call (xe_pipeline env) ctx (rt_gate rt)) = Ok Allow"
  using intercept_tool_call_shape [of "xe_pipeline env" ctx "rt_gate rt"]
  by (auto simp: gate_call_def Let_def stops_def split: prod.splits sum.splits interceptor_decision.splits)

text \<open>A pipeline with the semiotic gate in it, wherever it stands.\<close>

definition gate_state :: "'st tool_interceptor list \<Rightarrow> tool_call_context \<Rightarrow> ('s, 'w, 'st, 'b) runtime \<Rightarrow> 'st" where
  "gate_state before ctx rt = snd (intercept_tool_call before ctx (rt_gate rt))"

lemma gate_call_passes_gate:
  assumes "is_ok (fst (gate_call env ctx rt))" "xe_pipeline env = before @ semiotic_interceptor senv now # after"
  shows "fst (semiotic_intercept senv now ctx (gate_state before ctx rt)) = Ok Allow"
proof -
  let ?r = "fst (semiotic_intercept senv now ctx (gate_state before ctx rt))"
  have "\<not> stops ?r"
    using assms pipeline_allow_split [of before "semiotic_interceptor senv now" after ctx "rt_gate rt"]
    by (simp add: gate_call_ok_iff gate_state_def semiotic_interceptor_def)
  moreover have "\<exists>d. ?r = Ok d \<and> (d = Allow \<or> stops (Ok d))" by (rule semiotic_decides)
  ultimately show ?thesis by auto
qed

definition declared_irreversible :: "string \<Rightarrow> ('s, 'w) tool_registry \<Rightarrow> bool" where
  "declared_irreversible name r \<longleftrightarrow>
     (\<exists>m. get_metadata name r = Some m \<and> tfm_access m = Some Delete \<and> tier_of_tags (tfm_tags m) = None)"

lemma declared_irreversible_tier:
  "declared_irreversible name (rt_registry rt) \<Longrightarrow>
   call_tier (call_context env phase scope name args None rt) = TIrreversible"
  by (auto simp: declared_irreversible_def call_tier_registry classify_tier_def)

lemma gate_holds:
  assumes "declared_irreversible name (rt_registry rt)"
    "xe_pipeline env = before @ semiotic_interceptor senv now # after"
    "ctx = call_context env phase scope name args None rt"
    "should_enforce (config_for ctx (gate_state before ctx rt)) 3"
    "\<not> authorized senv ctx (gate_state before ctx rt)"
  shows "\<exists>e. fst (gate_call env ctx rt) = Err e"
proof (rule ccontr)
  assume "\<nexists>e. fst (gate_call env ctx rt) = Err e"
  then have "is_ok (fst (gate_call env ctx rt))" by (cases "fst (gate_call env ctx rt)") auto
  from gate_call_passes_gate [OF this assms(2)]
  have "fst (semiotic_intercept senv now ctx (gate_state before ctx rt)) = Ok Allow" .
  moreover have "call_tier ctx = TIrreversible" using declared_irreversible_tier assms(1,3) by blast
  ultimately show False
    using assms(4,5) by (auto simp: intercept_decision enforced_def should_enforce_def)
qed


subsection \<open>Effects of a call are balanced\<close>

context effect_liveness
begin

lemma start_effect_finish:
  assumes "tools c b + 1 < 2 ^ 32" "is_ok (fst (start_tool em c meta b))"
  shows "tools c' (finish_effect (Some em) (fst (start_effect (Some em) c meta b)) d out res
           (snd (start_effect (Some em) c meta b))) = tools c' b"
proof -
  obtain tok b1 where "start_tool em c meta b = (Ok tok, b1)"
    using assms(2) by (cases "start_tool em c meta b"; cases "fst (start_tool em c meta b)") auto
  then show ?thesis using bracket_neutral [OF assms(1)]
    by (simp add: start_effect_def finish_effect_def)
qed

lemma blocked_effect_neutral:
  assumes "tools c b + 1 < 2 ^ 32" "is_ok (fst (start_tool em c meta b))"
  shows "tools c' (emit_gate_blocked_effect (Some em) c meta b) = tools c' b"
proof -
  obtain tok b1 where "start_tool em c meta b = (Ok tok, b1)"
    using assms(2) by (cases "start_tool em c meta b"; cases "fst (start_tool em c meta b)") auto
  then show ?thesis using bracket_neutral [OF assms(1)] by (simp add: emit_gate_blocked_effect_def)
qed

lemma execute_tool_neutral:
  assumes "xe_emitter env = Some em" "tools (context_id scope) (rt_bus rt) + 1 < 2 ^ 32"
    "\<And>meta. is_ok (fst (start_tool em (context_id scope) meta (rt_bus rt)))"
  shows "tools c (rt_bus (snd (execute_tool env sid d scope name args rt))) = tools c (rt_bus rt)"
proof -
  let ?ctx = "call_context env ''execute'' scope name args None rt"
  have "rt_bus (snd (gate_call env ?ctx rt)) = rt_bus rt
      \<or> (\<exists>meta. rt_bus (snd (gate_call env ?ctx rt)) = emit_gate_blocked_effect (Some em) (context_id scope) meta (rt_bus rt))
        \<and> \<not> is_ok (fst (gate_call env ?ctx rt))"
    using assms(1)
    by (auto simp: gate_call_def Let_def split: prod.split sum.split interceptor_decision.split)
  moreover have "is_ok (fst (gate_call env ?ctx rt)) \<or> \<not> is_ok (fst (gate_call env ?ctx rt))" by blast
  ultimately consider
      (run) metadata where "fst (gate_call env ?ctx rt) = Ok metadata" "rt_bus (snd (gate_call env ?ctx rt)) = rt_bus rt"
    | (held) e where "fst (gate_call env ?ctx rt) = Err e"
        "tools c (rt_bus (snd (gate_call env ?ctx rt))) = tools c (rt_bus rt)"
    using blocked_effect_neutral [OF assms(2,3)] by (cases "fst (gate_call env ?ctx rt)") auto
  then show ?thesis
  proof cases
    case run
    let ?meta = "effect_metadata_of ?ctx metadata None (backend_and_digest name (rt_registry rt))"
    have "\<exists>out res. rt_bus (snd (execute_tool env sid d scope name args rt)) =
        finish_effect (Some em) (fst (start_effect (Some em) (context_id scope) ?meta (rt_bus rt))) d out res
          (snd (start_effect (Some em) (context_id scope) ?meta (rt_bus rt)))"
      using run assms(1) by (auto simp: execute_tool_def Let_def split: prod.splits) blast
    then show ?thesis using start_effect_finish [OF assms(2,3)] by metis
  next
    case held
    then show ?thesis by (auto simp: execute_tool_def Let_def split: prod.split)
  qed
qed

end


subsection \<open>A concrete runtime\<close>

definition drop_metadata :: tool_function_metadata where
  "drop_metadata = witness_metadata\<lparr>tfm_access := Some Delete\<rparr>"

definition drop_registry :: "(json list host_session, json list) tool_registry" where
  "drop_registry = insert_tool witness_name drop_metadata (witness_handler open_one_shot (Ok JNull)) registry_new"

definition drop_runtime :: "(json list host_session, json list, semiotic_state, unit bus_with_effects) runtime" where
  "drop_runtime = \<lparr>rt_registry = drop_registry, rt_world = [], rt_gate = enforce_state, rt_bus = bus_new (),
     rt_execution_sessions = Map.empty, rt_scopes = Map.empty, rt_states = Map.empty, rt_tokens = Map.empty,
     rt_anchors = Map.empty\<rparr>"

definition drop_env :: "(json list host_session, json list, semiotic_state, unit bus_with_effects) exec_env" where
  "drop_env = \<lparr>xe_vtable = host_vtable, xe_pipeline = [semiotic_interceptor witness_env 0],
     xe_emitter = Some (emit 0 None), xe_agent_package = None, xe_correlation_id = None, xe_session_order = []\<rparr>"

lemma drop_declared: "declared_irreversible ''support/calculate'' drop_registry"
  by (simp add: declared_irreversible_def get_metadata_def get_metadata_by_name_def witness_parse drop_registry_def
      insert_tool_def registry_new_def drop_metadata_def witness_metadata_def build_metadata_def
      metadata_builder_new_def from_types_def)



end
