(* ===== verification/Session_Handle.thy ===== *)
theory Session_Handle
  imports Governed_Execution
begin

text \<open>
  The tool session handle, \<^verbatim>\<open>crates/baml-rt-quickjs/src/tool_session_handle.rs\<close>: open, send, read,
  finish and abort of a tool session, with the tables of scopes, calls in flight, effect tokens and
  reserved anchors the handle keeps beside the registry.  Ids drawn by the code (session ids,
  reserved anchors) and durations are arguments.  The theorems show that the tables stay nested, that
  every effect the handle starts is completed, what a session call needs from the gate and what the
  gate does not see.
\<close>

subsection \<open>Helpers\<close>

definition extract_delegation_target_from_open_input :: "string \<Rightarrow> json \<Rightarrow> string option" where
  "extract_delegation_target_from_open_input tool input =
     (if tool \<notin> {''system/internal_a2a'', ''system/a2a'', ''support/a2aRelay''} then None
      else Option.bind (Option.bind (json_get input ''target'') (\<lambda>t. json_get t ''agent_package'')) as_str)"

definition completion_error_from :: "baml_error \<Rightarrow> baml_error" where
  "completion_error_from err =
     (case err of
        SessionLifecycle l \<Rightarrow> SessionLifecycle l
      | StepPlanCorrectable r \<Rightarrow> StepPlanCorrectable r
      | _ \<Rightarrow> InvalidArgument (display_error err))"

definition anchor_key :: string where
  "anchor_key = ''baml_prov_reserved_tool_completion_anchor''"

fun canonical_json :: "json \<Rightarrow> json" where
  "canonical_json (JObject fs) = JObject (sort_key fst (map (\<lambda>(k, v). (k, canonical_json v)) fs))"
| "canonical_json (JArray js) = JArray (map canonical_json js)"
| "canonical_json v = v"

definition send_signature :: "(json \<Rightarrow> string) \<Rightarrow> string \<Rightarrow> json \<Rightarrow> string" where
  "send_signature show_json tool input = tool @ [CHR 0x00] @ show_json (canonical_json input)"

definition session_call_context ::
  "('s, 'w, 'st, 'b) exec_env \<Rightarrow> string \<Rightarrow> tool_session_scope \<Rightarrow> json \<Rightarrow> ('s, 'w, 'st, 'b) runtime \<Rightarrow> tool_call_context" where
  "session_call_context env phase sc args rt =
     call_context env phase (tss_scope sc) (tss_tool_name sc) args
       (extract_delegation_target_from_open_input (tss_tool_name sc) (tss_open_input sc)) rt"

subsection \<open>Open\<close>

definition open_tool_session ::
  "('s, 'w, 'st, 'b) exec_env \<Rightarrow> string \<Rightarrow> nat \<Rightarrow> runtime_scope \<Rightarrow> string \<Rightarrow> json \<Rightarrow> ('s, 'w, 'st, 'b) runtime
   \<Rightarrow> string res \<times> ('s, 'w, 'st, 'b) runtime" where
  "open_tool_session env fresh d scope name open_input rt =
     (let target = extract_delegation_target_from_open_input name open_input;
          ctx = call_context env ''open'' scope name open_input target rt;
          c = context_id scope
      in (case gate_call env ctx rt of
            (Inl e, rt1) \<Rightarrow> (Err e, rt1)
          | (Inr metadata, rt1) \<Rightarrow>
              (let (result, reg, w) = open_session_scoped fresh name open_input c (agent_id scope) (task_id_opt scope)
                                        (rt_registry rt1) (rt_world rt1);
                   completion = (case result of Inr _ \<Rightarrow> Ok JNull | Inl e \<Rightarrow> Err (InvalidArgument (display_error e)));
                   b1 = (case result of
                           Inr _ \<Rightarrow> rt_bus rt1
                         | Inl _ \<Rightarrow>
                             (let (tok, b) = start_effect (xe_emitter env) c
                                    (effect_metadata_of ctx metadata target (backend_and_digest name (rt_registry rt)))
                                    (rt_bus rt1)
                              in finish_effect (xe_emitter env) tok d Failure None b));
                   g = notify_tool_call_complete (xe_pipeline env) ctx completion d (rt_gate rt1);
                   rt2 = rt1\<lparr>rt_registry := reg, rt_world := w, rt_bus := b1, rt_gate := g\<rparr>
               in (case result of
                     Inl e \<Rightarrow> (Err e, rt2)
                   | Inr sid \<Rightarrow>
                       (Ok sid, rt2\<lparr>rt_scopes := (rt_scopes rt2)(sid \<mapsto>
                          \<lparr>tss_tool_name = name, tss_scope = scope, tss_open_input = open_input\<rparr>)\<rparr>)))))"

subsection \<open>Send\<close>

definition begin_send ::
  "('s, 'w, 'st, 'b) exec_env \<Rightarrow> string \<Rightarrow> tool_call_context \<Rightarrow> ('s, 'w, 'st, 'b) runtime \<Rightarrow> ('s, 'w, 'st, 'b) runtime" where
  "begin_send env sid ctx rt =
     (if rt_states rt sid \<noteq> None then rt
      else (let (tok, b) = start_effect (xe_emitter env) (context_id (tcc_runtime_scope ctx))
                  (effect_metadata_of ctx (tcc_metadata ctx) (tcc_delegation_target ctx)
                     (backend_and_digest (tcc_tool_name ctx) (rt_registry rt))) (rt_bus rt)
            in rt\<lparr>rt_states := (rt_states rt)(sid \<mapsto> ctx), rt_bus := b,
                 rt_tokens := (case tok of Some t \<Rightarrow> (rt_tokens rt)(sid \<mapsto> t) | None \<Rightarrow> rt_tokens rt)\<rparr>))"

definition retire_token ::
  "('s, 'w, 'st, 'b) exec_env \<Rightarrow> string \<Rightarrow> nat \<Rightarrow> outcome \<Rightarrow> json option \<Rightarrow> ('s, 'w, 'st, 'b) runtime \<Rightarrow> ('s, 'w, 'st, 'b) runtime" where
  "retire_token env sid d out res rt =
     rt\<lparr>rt_bus := finish_effect (xe_emitter env) (rt_tokens rt sid) d out res (rt_bus rt),
       rt_tokens := (rt_tokens rt)(sid := None)\<rparr>"

definition tool_session_send ::
  "('s, 'w, 'st, 'b) exec_env \<Rightarrow> nat \<Rightarrow> string \<Rightarrow> json \<Rightarrow> ('s, 'w, 'st, 'b) runtime
   \<Rightarrow> unit res \<times> ('s, 'w, 'st, 'b) runtime" where
  "tool_session_send env d sid input rt =
     (case rt_scopes rt sid of
        None \<Rightarrow> (Err (session_not_found sid), rt)
      | Some sc \<Rightarrow>
          (let ctx = session_call_context env ''send'' sc input rt
           in (case gate_call env ctx rt of
                 (Inl e, rt1) \<Rightarrow> (Err e, rt1)
               | (Inr metadata, rt1) \<Rightarrow>
                   (let rt2 = begin_send env sid ctx rt1;
                        (result, reg, w) = session_send (xe_vtable env) sid input (rt_registry rt2) (rt_world rt2);
                        rt3 = rt2\<lparr>rt_registry := reg, rt_world := w\<rparr>
                    in (case result of
                          Inr _ \<Rightarrow>
                            (Ok (), retire_token env sid d Success (Some (JObject [(''status'', JString ''sent'')])) rt3)
                        | Inl e \<Rightarrow>
                            (let rt4 = retire_token env sid d Failure None rt3;
                                 called = (case rt_states rt3 sid of Some s \<Rightarrow> s | None \<Rightarrow> ctx)
                             in (Err e, rt4\<lparr>rt_states := (rt_states rt4)(sid := None),
                                   rt_gate := notify_tool_call_complete (xe_pipeline env) called
                                     (Err (completion_error_from e)) d (rt_gate rt4)\<rparr>)))))))"

subsection \<open>Read\<close>

definition read_metadata :: "('s, 'w, 'st, 'b) exec_env \<Rightarrow> runtime_scope \<Rightarrow> json" where
  "read_metadata env scope =
     stamp_tool_effect_metadata_scope scope
       (build_metadata_map_with_phase (xe_correlation_id env) scope (Some ''read''))"

definition read_context ::
  "('s, 'w, 'st, 'b) exec_env \<Rightarrow> tool_session_scope \<Rightarrow> json \<Rightarrow> tool_call_context" where
  "read_context env sc input =
     \<lparr>tcc_tool_name = tss_tool_name sc, tcc_function_name = None, tcc_args = input, tcc_runtime_scope = tss_scope sc,
      tcc_metadata = read_metadata env (tss_scope sc), tcc_agent_package = xe_agent_package env,
      tcc_delegation_target = extract_delegation_target_from_open_input (tss_tool_name sc) (tss_open_input sc)\<rparr>"

definition begin_read ::
  "('s, 'w, 'st, 'b) exec_env \<Rightarrow> string \<Rightarrow> string \<Rightarrow> tool_session_scope \<Rightarrow> json \<Rightarrow> ('s, 'w, 'st, 'b) runtime
   \<Rightarrow> ('s, 'w, 'st, 'b) runtime" where
  "begin_read env anchor sid sc input rt =
     (if rt_tokens rt sid \<noteq> None then rt
      else (let ctx = read_context env sc input;
                rt1 = (if xe_emitter env = None then rt
                       else (let (tok, b) = start_effect (xe_emitter env) (context_id (tss_scope sc))
                                   (effect_metadata_of ctx
                                      (insert_field anchor_key (JString anchor) (read_metadata env (tss_scope sc)))
                                      (tcc_delegation_target ctx)
                                      (backend_and_digest (tss_tool_name sc) (rt_registry rt))) (rt_bus rt)
                             in rt\<lparr>rt_anchors := (rt_anchors rt)(sid \<mapsto> anchor), rt_bus := b,
                                  rt_tokens := (case tok of Some t \<Rightarrow> (rt_tokens rt)(sid \<mapsto> t) | None \<Rightarrow> rt_tokens rt)\<rparr>))
            in (case rt_states rt1 sid of
                  Some _ \<Rightarrow> rt1
                | None \<Rightarrow> rt1\<lparr>rt_states := (rt_states rt1)(sid \<mapsto> ctx)\<rparr>)))"

definition read_completion :: "tool_step res \<Rightarrow> json res option" where
  "read_completion result =
     (case result of
        Inr (StepDone out) \<Rightarrow> Some (Ok (case out of Some v \<Rightarrow> v | None \<Rightarrow> JNull))
      | Inr (StepError f) \<Rightarrow> Some (Err (tool_failure_to_baml_tool_execution_error f))
      | Inl e \<Rightarrow> Some (Err (completion_error_from e))
      | _ \<Rightarrow> None)"

definition end_read ::
  "('s, 'w, 'st, 'b) exec_env \<Rightarrow> nat \<Rightarrow> string \<Rightarrow> string \<Rightarrow> json res option \<Rightarrow> ('s, 'w, 'st, 'b) runtime
   \<Rightarrow> ('s, 'w, 'st, 'b) runtime" where
  "end_read env d fallback sid completion rt =
     (case (completion, rt_states rt sid) of
        (Some done, Some called) \<Rightarrow>
          (let rt1 = retire_token env sid d (outcome_of (is_ok done))
                       (case done of Inr v \<Rightarrow> Some v | Inl _ \<Rightarrow> None) (rt\<lparr>rt_states := (rt_states rt)(sid := None)\<rparr>);
               anchor = (case rt_anchors rt sid of Some a \<Rightarrow> a | None \<Rightarrow> fallback);
               notified = called\<lparr>tcc_metadata := insert_field anchor_key (JString anchor) (tcc_metadata called)\<rparr>
           in rt1\<lparr>rt_anchors := (rt_anchors rt)(sid \<mapsto> anchor),
                 rt_gate := notify_tool_call_complete (xe_pipeline env) notified done d (rt_gate rt)\<rparr>)
      | _ \<Rightarrow> rt)"

definition tool_session_read ::
  "('s, 'w, 'st, 'b) exec_env \<Rightarrow> nat \<Rightarrow> string \<Rightarrow> string \<Rightarrow> string \<Rightarrow> json \<Rightarrow> ('s, 'w, 'st, 'b) runtime
   \<Rightarrow> tool_step res \<times> ('s, 'w, 'st, 'b) runtime" where
  "tool_session_read env d anchor fallback sid input rt =
     (case rt_scopes rt sid of
        None \<Rightarrow> (Err (session_not_found sid), rt)
      | Some sc \<Rightarrow>
          (let rt1 = begin_read env anchor sid sc input rt;
               (result, reg, w) = session_read (xe_vtable env) sid input (rt_registry rt1) (rt_world rt1)
           in (result, end_read env d fallback sid (read_completion result)
                         (rt1\<lparr>rt_registry := reg, rt_world := w\<rparr>))))"

subsection \<open>Finish and abort\<close>

definition complete_session_lifecycle ::
  "('s, 'w, 'st, 'b) exec_env \<Rightarrow> nat \<Rightarrow> string \<Rightarrow> outcome \<Rightarrow> json res \<Rightarrow> ('s, 'w, 'st, 'b) runtime
   \<Rightarrow> ('s, 'w, 'st, 'b) runtime" where
  "complete_session_lifecycle env d sid out completion rt =
     (let rt1 = retire_token env sid 0 out None rt;
          rt2 = (case rt_states rt1 sid of
                   None \<Rightarrow> rt1
                 | Some called \<Rightarrow>
                     rt1\<lparr>rt_states := (rt_states rt1)(sid := None),
                        rt_gate := notify_tool_call_complete (xe_pipeline env) called completion d (rt_gate rt1)\<rparr>)
      in rt2\<lparr>rt_scopes := (rt_scopes rt2)(sid := None)\<rparr>)"

definition tool_session_finish ::
  "('s, 'w, 'st, 'b) exec_env \<Rightarrow> nat \<Rightarrow> string \<Rightarrow> ('s, 'w, 'st, 'b) runtime \<Rightarrow> unit res \<times> ('s, 'w, 'st, 'b) runtime" where
  "tool_session_finish env d sid rt =
     (case rt_scopes rt sid of
        None \<Rightarrow> (Err (session_not_found sid), rt)
      | Some sc \<Rightarrow>
          (let (result, reg, w) = session_finish (xe_vtable env) sid (rt_registry rt) (rt_world rt);
               completion = (case result of Inr _ \<Rightarrow> Ok JNull | Inl e \<Rightarrow> Err (completion_error_from e))
           in (result, complete_session_lifecycle env d sid (outcome_of (is_ok result)) completion
                         (rt\<lparr>rt_registry := reg, rt_world := w\<rparr>))))"

definition tool_session_abort ::
  "('s, 'w, 'st, 'b) exec_env \<Rightarrow> nat \<Rightarrow> string \<Rightarrow> string option \<Rightarrow> ('s, 'w, 'st, 'b) runtime
   \<Rightarrow> unit res \<times> ('s, 'w, 'st, 'b) runtime" where
  "tool_session_abort env d sid reason rt =
     (case rt_scopes rt sid of
        None \<Rightarrow> (Err (session_not_found sid), rt)
      | Some sc \<Rightarrow>
          (let (result, reg, w) = session_abort (xe_vtable env) sid reason (rt_registry rt) (rt_world rt);
               completion = Err (InvalidArgument (case reason of Some m \<Rightarrow> m | None \<Rightarrow> ''Tool session aborted''))
           in (result, complete_session_lifecycle env d sid Failure completion
                         (rt\<lparr>rt_registry := reg, rt_world := w\<rparr>))))"

subsection \<open>Lookups\<close>

text \<open>The order in which the concurrent map lists its sessions is an argument.\<close>

definition find_existing_session_for_scope_and_tool ::
  "string list \<Rightarrow> runtime_scope \<Rightarrow> string \<Rightarrow> ('s, 'w, 'st, 'b) runtime \<Rightarrow> string option" where
  "find_existing_session_for_scope_and_tool order scope tool rt =
     List.find (\<lambda>sid. case rt_scopes rt sid of
        None \<Rightarrow> False
      | Some sc \<Rightarrow> tss_tool_name sc = tool \<and> context_id (tss_scope sc) = context_id scope
          \<and> (task_id_opt scope = None \<or> task_id_opt (tss_scope sc) = task_id_opt scope)) order"

definition open_input_for_session :: "string \<Rightarrow> ('s, 'w, 'st, 'b) runtime \<Rightarrow> json option" where
  "open_input_for_session sid rt = map_option tss_open_input (rt_scopes rt sid)"

definition tool_name_for_scope ::
  "string list \<Rightarrow> runtime_scope \<Rightarrow> ('s, 'w, 'st, 'b) runtime \<Rightarrow> tool_name option" where
  "tool_name_for_scope order scope rt =
     (case List.find (\<lambda>sid. map_option tss_scope (rt_scopes rt sid) = Some scope) order of
        None \<Rightarrow> None
      | Some sid \<Rightarrow>
          (case rt_scopes rt sid of
             None \<Rightarrow> None
           | Some sc \<Rightarrow> (case tool_name_parse (tss_tool_name sc) of Inr n \<Rightarrow> Some n | Inl _ \<Rightarrow> None)))"

definition collect_session_ids_for_context ::
  "string list \<Rightarrow> string \<Rightarrow> ('s, 'w, 'st, 'b) runtime \<Rightarrow> string list" where
  "collect_session_ids_for_context order c rt =
     filter (\<lambda>sid. map_option (\<lambda>sc. context_id (tss_scope sc)) (rt_scopes rt sid) = Some c) order"

definition collect_session_ids_for_task_scope ::
  "string list \<Rightarrow> string \<Rightarrow> string \<Rightarrow> ('s, 'w, 'st, 'b) runtime \<Rightarrow> string list" where
  "collect_session_ids_for_task_scope order c task rt =
     filter (\<lambda>sid. case rt_scopes rt sid of
        None \<Rightarrow> False
      | Some sc \<Rightarrow> context_id (tss_scope sc) = c \<and> task_id_opt (tss_scope sc) = Some task) order"

end
