(* ===== verification/Session_Effects.thy ===== *)
theory Session_Effects
  imports Session_Handle
begin

text \<open>
  Properties of the tool session handle: its tables stay nested, every effect it starts is completed,
  what a session call needs from the gate, and what reaches a tool without passing the gate.
\<close>

subsection \<open>Tables\<close>

definition handle_inv :: "('s, 'w, 'st, 'b) runtime \<Rightarrow> bool" where
  "handle_inv rt \<longleftrightarrow> dom (rt_tokens rt) \<subseteq> dom (rt_states rt) \<and> dom (rt_states rt) \<subseteq> dom (rt_scopes rt)
     \<and> finite (dom (rt_tokens rt))"

definition token_count :: "string \<Rightarrow> (string \<Rightarrow> tool_effect_metadata start_token option) \<Rightarrow> nat" where
  "token_count c f = card {sid. \<exists>m. f sid = Some (StartToken c m)}"

lemma token_set_finite: "finite (dom f) \<Longrightarrow> finite {sid. \<exists>m. f sid = Some (StartToken c m)}"
  by (rule finite_subset [of _ "dom f"]) auto

lemma token_count_add:
  assumes "finite (dom f)" "f sid = None"
  shows "token_count c (f(sid \<mapsto> StartToken c' m)) = token_count c f + (if c = c' then 1 else 0)"
proof -
  have "{s. \<exists>n. (f(sid \<mapsto> StartToken c' m)) s = Some (StartToken c n)} =
      (if c = c' then insert sid {s. \<exists>n. f s = Some (StartToken c n)} else {s. \<exists>n. f s = Some (StartToken c n)})"
    using assms(2) by auto
  moreover have "sid \<notin> {s. \<exists>n. f s = Some (StartToken c n)}" using assms(2) by simp
  ultimately show ?thesis
    using card_insert_disjoint [OF token_set_finite [OF assms(1)], of sid c]
    by (cases "c = c'") (simp_all add: token_count_def)
qed

lemma token_count_remove:
  assumes "finite (dom f)" "f sid = Some (StartToken c' m)"
  shows "token_count c (f(sid := None)) + (if c = c' then 1 else 0) = token_count c f"
proof -
  have "finite (dom (f(sid := None)))" using assms(1) by simp
  from token_count_add [OF this, of sid c c' m] assms(2) show ?thesis by (simp add: fun_upd_idem)
qed

lemma token_count_empty [simp]: "token_count c Map.empty = 0"
  by (simp add: token_count_def)

lemma retire_token_fields [simp]:
  "rt_states (retire_token env sid d out res rt) = rt_states rt"
  "rt_scopes (retire_token env sid d out res rt) = rt_scopes rt"
  "rt_tokens (retire_token env sid d out res rt) = (rt_tokens rt)(sid := None)"
  "rt_world (retire_token env sid d out res rt) = rt_world rt"
  "rt_registry (retire_token env sid d out res rt) = rt_registry rt"
  "rt_gate (retire_token env sid d out res rt) = rt_gate rt"
  by (simp_all add: retire_token_def)

text \<open>A handle operation: each starts on a bus that is ready for the start of one effect.\<close>

inductive handle_step ::
  "('s, 'w, 'st, 'b) exec_env \<Rightarrow> ('b \<Rightarrow> bool) \<Rightarrow> ('s, 'w, 'st, 'b) runtime \<Rightarrow> ('s, 'w, 'st, 'b) runtime \<Rightarrow> bool"
  for env ready where
  hs_open: "ready (rt_bus rt) \<Longrightarrow> handle_step env ready rt (snd (open_tool_session env fresh d scope name i rt))"
| hs_send: "ready (rt_bus rt) \<Longrightarrow> handle_step env ready rt (snd (tool_session_send env d sid i rt))"
| hs_read: "ready (rt_bus rt) \<Longrightarrow> handle_step env ready rt (snd (tool_session_read env d anchor fallback sid i rt))"
| hs_finish: "handle_step env ready rt (snd (tool_session_finish env d sid rt))"
| hs_abort: "handle_step env ready rt (snd (tool_session_abort env d sid reason rt))"
| hs_execute: "ready (rt_bus rt) \<Longrightarrow> handle_step env ready rt (snd (execute_tool env fresh d scope name i rt))"

inductive_cases handle_stepE: "handle_step env ready rt rt'"

subsection \<open>Balance\<close>

text \<open>What an operation must keep: the tables nested, and one unfinished effect per token.\<close>

definition effect_ready :: "'b emitter \<Rightarrow> (string \<Rightarrow> 'b \<Rightarrow> nat) \<Rightarrow> 'b \<Rightarrow> bool" where
  "effect_ready em tools b \<longleftrightarrow> (\<forall>c m. is_ok (fst (start_tool em c m b))) \<and> (\<forall>c. tools c b + 1 < 2 ^ 32)"

definition balanced :: "(string \<Rightarrow> 'b \<Rightarrow> nat) \<Rightarrow> ('s, 'w, 'st, 'b) runtime \<Rightarrow> bool" where
  "balanced tools rt \<longleftrightarrow> handle_inv rt \<and> (\<forall>c. tools c (rt_bus rt) = token_count c (rt_tokens rt))"

context effect_liveness
begin

lemma start_effect_ready:
  assumes "effect_ready em tools b"
  shows "start_effect (Some em) c m b = (Some (StartToken c m), snd (em (ToolStarted c m) b))"
    and "tools c' (snd (em (ToolStarted c m) b)) = tools c' b + (if c' = c then 1 else 0)"
proof -
  have "is_ok (fst (start_tool em c m b))" using assms by (simp add: effect_ready_def)
  then show "start_effect (Some em) c m b = (Some (StartToken c m), snd (em (ToolStarted c m) b))"
    by (auto simp: start_effect_def start_tool_def split: prod.split sum.split)
  show "tools c' (snd (em (ToolStarted c m) b)) = tools c' b + (if c' = c then 1 else 0)"
    using assms started by (simp add: effect_ready_def)
qed

lemma finish_effect_tools:
  "tools c' (finish_effect (Some em) (Some (StartToken c m)) d out res b) = tools c' b - (if c' = c then 1 else 0)"
  "finish_effect (Some em) None d out res b = b"
  by (simp_all add: finish_effect_def completed)

lemma retire_balanced:
  assumes "balanced tools rt" "xe_emitter env = Some em"
  shows "balanced tools (retire_token env sid d out res rt)"
proof -
  have inv: "handle_inv rt" using assms(1) by (simp add: balanced_def)
  have "tools c (rt_bus (retire_token env sid d out res rt)) = token_count c ((rt_tokens rt)(sid := None))" for c
  proof (cases "rt_tokens rt sid")
    case None
    then show ?thesis using assms by (simp add: retire_token_def finish_effect_tools balanced_def fun_upd_idem)
  next
    case (Some t)
    obtain c' m where t: "t = StartToken c' m" by (cases t)
    have "token_count c ((rt_tokens rt)(sid := None)) + (if c = c' then 1 else 0) = token_count c (rt_tokens rt)"
      using token_count_remove [of "rt_tokens rt" sid c' m c] Some t inv by (simp add: handle_inv_def)
    then show ?thesis using Some t assms
      by (simp add: retire_token_def finish_effect_tools balanced_def split: if_splits)
  qed
  moreover have "handle_inv (retire_token env sid d out res rt)"
    using inv by (auto simp: handle_inv_def)
  ultimately show ?thesis by (simp add: balanced_def)
qed

lemma started_balanced:
  assumes "balanced tools rt" "effect_ready em tools (rt_bus rt)" "rt_tokens rt sid = None"
    "rt_states rt' = rt_states rt \<or> (\<exists>ctx. rt_states rt' = (rt_states rt)(sid \<mapsto> ctx))"
    "rt_states rt' sid \<noteq> None" "rt_scopes rt' = rt_scopes rt" "rt_scopes rt sid \<noteq> None"
    "rt_tokens rt' = (rt_tokens rt)(sid \<mapsto> StartToken c m)"
    "rt_bus rt' = snd (em (ToolStarted c m) (rt_bus rt))"
  shows "balanced tools rt'"
proof -
  have fin: "finite (dom (rt_tokens rt))" using assms(1) by (simp add: balanced_def handle_inv_def)
  have d: "dom (rt_states rt') = insert sid (dom (rt_states rt))"
    using assms(4,5) by (auto simp: insert_absorb domIff)
  have "sid \<in> dom (rt_scopes rt)" using assms(7) by auto
  then have "handle_inv rt'" using assms(1,6,8) unfolding balanced_def handle_inv_def d by simp blast
  then show ?thesis
    using assms(1,9) start_effect_ready(2) [OF assms(2)] token_count_add [OF fin assms(3)] assms(8)
    by (simp add: balanced_def)
qed

lemma begin_send_balanced:
  assumes "balanced tools rt" "effect_ready em tools (rt_bus rt)" "xe_emitter env = Some em" "rt_scopes rt sid \<noteq> None"
  shows "balanced tools (begin_send env sid ctx rt)"
proof (cases "rt_states rt sid")
  case None
  then have "rt_tokens rt sid = None" using assms(1) by (auto simp: balanced_def handle_inv_def)
  from started_balanced [OF assms(1,2) this, where rt' = "begin_send env sid ctx rt"
      and c = "context_id (tcc_runtime_scope ctx)" and m = "effect_metadata_of ctx (tcc_metadata ctx)
        (tcc_delegation_target ctx) (backend_and_digest (tcc_tool_name ctx) (rt_registry rt))"]
  show ?thesis using None assms(2-4) by (auto simp: begin_send_def start_effect_ready(1))
qed (use assms(1) in \<open>simp add: begin_send_def\<close>)

lemma begin_read_balanced:
  assumes "balanced tools rt" "effect_ready em tools (rt_bus rt)" "xe_emitter env = Some em" "rt_scopes rt sid = Some sc"
  shows "balanced tools (begin_read env anchor sid sc input rt)"
proof (cases "rt_tokens rt sid")
  case None
  from started_balanced [OF assms(1,2) None, where rt' = "begin_read env anchor sid sc input rt"
      and c = "context_id (tss_scope sc)" and m = "effect_metadata_of (read_context env sc input)
        (insert_field anchor_key (JString anchor) (read_metadata env (tss_scope sc)))
        (tcc_delegation_target (read_context env sc input)) (backend_and_digest (tss_tool_name sc) (rt_registry rt))"]
  show ?thesis using None assms(2-4)
    by (cases "rt_states rt sid") (auto simp: begin_read_def start_effect_ready(1) Let_def)
qed (use assms(1) in \<open>simp add: begin_read_def\<close>)

lemma balanced_cong:
  "rt_tokens rt' = rt_tokens rt \<Longrightarrow> rt_states rt' = rt_states rt \<Longrightarrow> dom (rt_scopes rt) \<subseteq> dom (rt_scopes rt') \<Longrightarrow>
   (\<And>c. tools c (rt_bus rt') = tools c (rt_bus rt)) \<Longrightarrow> balanced tools rt \<Longrightarrow> balanced tools rt'"
  by (simp add: balanced_def handle_inv_def) (metis subset_trans)

lemma drop_state_balanced:
  "balanced tools rt \<Longrightarrow> rt_tokens rt sid = None \<Longrightarrow> balanced tools (rt\<lparr>rt_states := (rt_states rt)(sid := None), rt_gate := g\<rparr>)"
  by (auto simp: balanced_def handle_inv_def)

lemma gate_call_tools:
  assumes "effect_ready em tools (rt_bus rt)" "xe_emitter env = Some em"
  shows "tools c (rt_bus (snd (gate_call env ctx rt))) = tools c (rt_bus rt)"
    and "is_ok (fst (gate_call env ctx rt)) \<Longrightarrow> rt_bus (snd (gate_call env ctx rt)) = rt_bus rt"
proof -
  have "tools c (emit_gate_blocked_effect (Some em) c' m (rt_bus rt)) = tools c (rt_bus rt)" for c' m
    using blocked_effect_neutral assms(1) by (simp add: effect_ready_def)
  then show "tools c (rt_bus (snd (gate_call env ctx rt))) = tools c (rt_bus rt)"
    using assms(2) by (auto simp: gate_call_def Let_def split: prod.split sum.split interceptor_decision.split)
  show "is_ok (fst (gate_call env ctx rt)) \<Longrightarrow> rt_bus (snd (gate_call env ctx rt)) = rt_bus rt"
    by (auto simp: gate_call_def Let_def split: prod.splits sum.splits interceptor_decision.splits)
qed

lemma gate_call_balanced:
  assumes "balanced tools rt" "effect_ready em tools (rt_bus rt)" "xe_emitter env = Some em"
  shows "balanced tools (snd (gate_call env ctx rt))"
  by (rule balanced_cong [OF _ _ _ _ assms(1)]) (simp_all add: gate_call_keeps gate_call_tools(1) [OF assms(2,3)])

lemma send_balanced:
  assumes "balanced tools rt" "effect_ready em tools (rt_bus rt)" "xe_emitter env = Some em"
  shows "balanced tools (snd (tool_session_send env d sid input rt))"
proof (cases "rt_scopes rt sid")
  case (Some sc)
  let ?ctx = "session_call_context env ''send'' sc input rt"
  obtain g rt1 where g: "gate_call env ?ctx rt = (g, rt1)" by (rule prod.exhaust)
  have b1: "balanced tools rt1" using gate_call_balanced [OF assms, of ?ctx] g by simp
  show ?thesis
  proof (cases g)
    case (Inl e)
    then show ?thesis using Some g b1 by (simp add: tool_session_send_def Let_def)
  next
    case (Inr metadata)
    have "rt_bus rt1 = rt_bus rt" "rt_scopes rt1 sid \<noteq> None"
      using gate_call_tools(2) [OF assms(2,3), of ?ctx] gate_call_keeps(3) [of env ?ctx rt] g Inr Some by auto
    then have b2: "balanced tools (begin_send env sid ?ctx rt1)"
      using begin_send_balanced [OF b1] assms(2,3) by simp
    obtain result reg w where r: "session_send (xe_vtable env) sid input (rt_registry (begin_send env sid ?ctx rt1))
        (rt_world (begin_send env sid ?ctx rt1)) = (result, reg, w)" by (rule prod_cases3)
    let ?rt3 = "begin_send env sid ?ctx rt1\<lparr>rt_registry := reg, rt_world := w\<rparr>"
    have b3: "balanced tools ?rt3" by (rule balanced_cong [OF _ _ _ _ b2]) simp_all
    note b4 = retire_balanced [OF b3 assms(3)]
    show ?thesis
    proof (cases result)
      case (Inl e)
      then show ?thesis
        using drop_state_balanced [OF b4 [of sid d Failure None], of sid] Some g \<open>g = Inr metadata\<close> r
        by (simp add: tool_session_send_def Let_def)
    next
      case (Inr u)
      then show ?thesis using b4 Some g \<open>g = Inr metadata\<close> r by (simp add: tool_session_send_def Let_def)
    qed
  qed
qed (use assms(1) in \<open>simp add: tool_session_send_def\<close>)

lemma read_balanced:
  assumes "balanced tools rt" "effect_ready em tools (rt_bus rt)" "xe_emitter env = Some em"
  shows "balanced tools (snd (tool_session_read env d anchor fallback sid input rt))"
proof (cases "rt_scopes rt sid")
  case (Some sc)
  let ?rt1 = "begin_read env anchor sid sc input rt"
  obtain result reg w where r: "session_read (xe_vtable env) sid input (rt_registry ?rt1) (rt_world ?rt1) = (result, reg, w)"
    by (rule prod_cases3)
  let ?rt2 = "?rt1\<lparr>rt_registry := reg, rt_world := w\<rparr>"
  have b2: "balanced tools ?rt2"
    by (rule balanced_cong [OF _ _ _ _ begin_read_balanced [OF assms Some]]) simp_all
  have "balanced tools (end_read env d fallback sid completion ?rt2)" for completion
  proof (cases "\<exists>done called. completion = Some done \<and> rt_states ?rt2 sid = Some called")
    case True
    then obtain don called where c: "completion = Some don" "rt_states ?rt1 sid = Some called" by auto
    let ?rt3 = "retire_token env sid d (outcome_of (is_ok don)) (case don of Inr v \<Rightarrow> Some v | Inl _ \<Rightarrow> None) ?rt2"
    have b3: "balanced tools ?rt3" using retire_balanced [OF b2 assms(3)] .
    show ?thesis
      by (rule balanced_cong [OF _ _ _ _ drop_state_balanced [OF b3, of sid]])
         (use c in \<open>simp_all add: end_read_def Let_def retire_token_def\<close>)
  next
    case False
    then show ?thesis using b2 by (auto simp: end_read_def split: option.split)
  qed
  then show ?thesis using Some r by (simp add: tool_session_read_def Let_def)
qed (use assms(1) in \<open>simp add: tool_session_read_def\<close>)

lemma lifecycle_balanced:
  assumes "balanced tools rt" "xe_emitter env = Some em"
  shows "balanced tools (complete_session_lifecycle env d sid out completion rt)"
proof -
  let ?rt1 = "retire_token env sid 0 out None rt"
  note b1 = retire_balanced [OF assms, of sid 0 out None]
  have b2: "balanced tools (?rt1\<lparr>rt_states := (rt_states ?rt1)(sid := None), rt_gate := g\<rparr>)" for g
    by (rule drop_state_balanced [OF b1]) simp
  have close: "balanced tools (rt'\<lparr>rt_scopes := (rt_scopes rt')(sid := None)\<rparr>)"
    if "balanced tools rt'" "rt_states rt' sid = None" for rt' :: "('s, 'w, 'st, 'b) runtime"
    using that by (auto simp: balanced_def handle_inv_def)
  show ?thesis
  proof (cases "rt_states rt sid")
    case None
    then show ?thesis using close [OF b1] by (simp add: complete_session_lifecycle_def Let_def)
  next
    case (Some called)
    then show ?thesis using close [OF b2] by (simp add: complete_session_lifecycle_def Let_def)
  qed
qed

lemma finish_balanced:
  assumes "balanced tools rt" "xe_emitter env = Some em"
  shows "balanced tools (snd (tool_session_finish env d sid rt))" "balanced tools (snd (tool_session_abort env d sid reason rt))"
proof -
  have "balanced tools (rt\<lparr>rt_registry := reg, rt_world := w\<rparr>)" for reg w
    by (rule balanced_cong [OF _ _ _ _ assms(1)]) simp_all
  note b = lifecycle_balanced [OF this assms(2)]
  show "balanced tools (snd (tool_session_finish env d sid rt))" "balanced tools (snd (tool_session_abort env d sid reason rt))"
    using b assms(1)
    by (auto simp: tool_session_finish_def tool_session_abort_def Let_def split: option.split prod.split)
qed

lemma open_balanced:
  assumes "balanced tools rt" "effect_ready em tools (rt_bus rt)" "xe_emitter env = Some em"
  shows "balanced tools (snd (open_tool_session env fresh d scope name input rt))"
proof -
  let ?ctx = "call_context env ''open'' scope name input (extract_delegation_target_from_open_input name input) rt"
  let ?out = "snd (open_tool_session env fresh d scope name input rt)"
  obtain g rt1 where g: "gate_call env ?ctx rt = (g, rt1)" by (rule prod.exhaust)
  have b1: "balanced tools rt1" using gate_call_balanced [OF assms, of ?ctx] g by simp
  show ?thesis
  proof (cases g)
    case (Inl e)
    then show ?thesis using g b1 by (simp add: open_tool_session_def Let_def)
  next
    case (Inr metadata)
    have bus: "rt_bus rt1 = rt_bus rt" using gate_call_tools(2) [OF assms(2,3), of ?ctx] g Inr by simp
    have fin: "tools c (finish_effect (Some em) (fst (start_effect (Some em) c' m (rt_bus rt))) d Failure None
        (snd (start_effect (Some em) c' m (rt_bus rt)))) = tools c (rt_bus rt)" for c c' m
      using start_effect_finish assms(2) by (simp add: effect_ready_def)
    obtain result reg w where r: "open_session_scoped fresh name input (context_id scope) (agent_id scope)
        (task_id_opt scope) (rt_registry rt1) (rt_world rt1) = (result, reg, w)" by (rule prod_cases3)
    show ?thesis
      by (rule balanced_cong [OF _ _ _ _ b1])
         (use g Inr r fin bus assms(3) in \<open>cases result; auto simp: open_tool_session_def Let_def case_prod_beta\<close>)+
  qed
qed

lemma execute_balanced:
  assumes "balanced tools rt" "effect_ready em tools (rt_bus rt)" "xe_emitter env = Some em"
  shows "balanced tools (snd (execute_tool env fresh d scope name input rt))"
proof (rule balanced_cong [OF _ _ _ _ assms(1)])
  let ?ctx = "call_context env ''execute'' scope name input None rt"
  have k: "rt_tokens (snd (execute_tool env fresh d scope name input rt)) = rt_tokens (snd (gate_call env ?ctx rt))
      \<and> rt_states (snd (execute_tool env fresh d scope name input rt)) = rt_states (snd (gate_call env ?ctx rt))
      \<and> rt_scopes (snd (execute_tool env fresh d scope name input rt)) = rt_scopes (snd (gate_call env ?ctx rt))"
    by (auto simp: execute_tool_def Let_def split: prod.splits sum.splits)
  then show "rt_tokens (snd (execute_tool env fresh d scope name input rt)) = rt_tokens rt"
    "rt_states (snd (execute_tool env fresh d scope name input rt)) = rt_states rt"
    "dom (rt_scopes rt) \<subseteq> dom (rt_scopes (snd (execute_tool env fresh d scope name input rt)))"
    by (simp_all add: gate_call_keeps)
  show "tools c (rt_bus (snd (execute_tool env fresh d scope name input rt))) = tools c (rt_bus rt)" for c
    by (rule execute_tool_neutral [OF assms(3)]) (use assms(2) in \<open>simp_all add: effect_ready_def\<close>)
qed

lemma step_balanced:
  "handle_step env (effect_ready em tools) rt rt' \<Longrightarrow> xe_emitter env = Some em \<Longrightarrow> balanced tools rt \<Longrightarrow> balanced tools rt'"
  by (erule handle_stepE) (simp_all add: open_balanced send_balanced read_balanced finish_balanced execute_balanced)

lemma run_balanced:
  assumes "(handle_step env (effect_ready em tools))\<^sup>*\<^sup>* rt rt'" "xe_emitter env = Some em" "balanced tools rt"
  shows "balanced tools rt'"
  using assms(1)
proof (induction rule: rtranclp_induct)
  case base
  show ?case by (rule assms(3))
next
  case (step y z)
  then show ?case using step_balanced [OF step.hyps(2) assms(2)] by blast
qed

end


subsection \<open>Sessions and the gate\<close>

lemma send_context [simp]:
  "session_call_context env phase sc args rt =
     call_context env phase (tss_scope sc) (tss_tool_name sc) args
       (extract_delegation_target_from_open_input (tss_tool_name sc) (tss_open_input sc)) rt"
  by (simp add: session_call_context_def)

lemma held_send:
  assumes "rt_scopes rt sid = Some sc" "fst (gate_call env (session_call_context env ''send'' sc input rt) rt) = Err e"
  shows "tool_session_send env d sid input rt = (Err e, snd (gate_call env (session_call_context env ''send'' sc input rt) rt))"
  using assms by (auto simp: tool_session_send_def Let_def split: prod.split)


text \<open>
  C38: the input of a read reaches the tool without passing the gate.  A one-shot session runs its
  tool when it is read, on the input that was sent overlaid with the input of the read.  The gate is
  asked about the sent input only: whatever the interceptors are, reading with an object runs the
  tool on arguments no interceptor has seen.
\<close>

theorem read_input_ungated:
  assumes "rt_scopes rt sid = Some sc" "xe_vtable env = host_vtable"
    "reg_sessions (rt_registry rt) sid = Some (HostOneShot s)" "os_state s = SessionOpen"
    "os_send_input s = Some (JObject sent)"
  shows "rt_world (snd (tool_session_read env d anchor fallback sid (JObject refine) rt)) =
    snd (os_executor s (JObject (insert_all sent refine)) (rt_world rt))"
proof -
  let ?rt1 = "begin_read env anchor sid sc (JObject refine) rt"
  have k: "rt_registry ?rt1 = rt_registry rt" "rt_world ?rt1 = rt_world rt"
    by (auto simp: begin_read_def Let_def split: prod.split option.split)
  have e: "rt_world (end_read env d fallback sid completion x) = rt_world x" for completion x
    by (auto simp: end_read_def Let_def split: option.split)
  have "snd (snd (session_read host_vtable sid (JObject refine) (rt_registry rt) (rt_world rt))) =
      snd (os_executor s (JObject (insert_all sent refine)) (rt_world rt))"
    using assms(3-5)
    by (auto simp: session_read_def host_vtable_def one_shot_read_def is_closed_def merge_input_def Let_def
        split: prod.splits sum.splits)
  then show ?thesis
    using assms(1,2) k e by (auto simp: tool_session_read_def Let_def split: prod.split)
qed

lemma complete_consumes:
  assumes "sp_enabled (config_for ctx st)" "scope_key (tcc_runtime_scope ctx) = scope_key scope"
  shows "get_live later scope ARTIFACT_TTL (semiotic_complete env ctx (Ok v) st) = None"
  using assms by (simp add: semiotic_complete_def Let_def get_live_consume case_prod_beta split: option.split)

lemma semiotic_keeps_config:
  "ss_config (snd (semiotic_intercept env now ctx st)) = ss_config st"
  "ss_config (snd (semiotic_stamp ctx m st)) = ss_config st"
  "ss_config (semiotic_complete env ctx r st) = ss_config st"
proof -
  have "ss_config (snd (apply_policy env now p v ctx st')) = ss_config st'" for p v st'
    by (simp add: apply_policy_def Let_def set_pending_def record_denied_def)
  then show "ss_config (snd (semiotic_intercept env now ctx st)) = ss_config st"
    by (auto simp: semiotic_intercept_def granted_cases Let_def case_prod_beta)
  show "ss_config (snd (semiotic_stamp ctx m st)) = ss_config st"
    by (auto simp: semiotic_stamp_def take_gate_outcome_def Let_def split: option.split json.split)
  show "ss_config (semiotic_complete env ctx r st) = ss_config st"
    by (auto simp: semiotic_complete_def Let_def take_pending_postconditions_def take_gate_outcome_def
        record_gate_outcome_def consume_def split: option.split)
qed

lemma config_for_same:
  "ss_config st' = ss_config st \<Longrightarrow> tcc_agent_package ctx' = tcc_agent_package ctx \<Longrightarrow> config_for ctx' st' = config_for ctx st"
  by (simp add: config_for_def resolve_semiotic_policy_def)

lemma open_session_tools: "reg_tools (fst (snd (open_session_scoped fresh name i c a t r w))) = reg_tools r"
  by (auto simp: open_session_scoped_def Let_def split: sum.split option.split prod.split)

lemma get_metadata_tools: "reg_tools r' = reg_tools r \<Longrightarrow> get_metadata name r' = get_metadata name r"
  by (simp add: get_metadata_def get_metadata_by_name_def split: sum.split)

text \<open>What a successful open through the semiotic gate alone leaves behind.\<close>

lemma opened:
  assumes "xe_pipeline env = [semiotic_interceptor senv now]"
    "open_tool_session env fresh d scope name i rt = (Ok sid, rt1)"
    "sp_enabled (config_for ctx (rt_gate rt))" "tcc_agent_package ctx = xe_agent_package env"
  shows "rt_scopes rt1 sid = Some \<lparr>tss_tool_name = name, tss_scope = scope, tss_open_input = i\<rparr>"
    "reg_tools (rt_registry rt1) = reg_tools (rt_registry rt)"
    "ss_config (rt_gate rt1) = ss_config (rt_gate rt)"
    "get_live later scope ARTIFACT_TTL (rt_gate rt1) = None"
    "grant_open k (rt_gate rt1) \<le> grant_open k (rt_gate rt)"
proof -
  let ?c = "call_context env ''open'' scope name i (extract_delegation_target_from_open_input name i) rt"
  obtain metadata rtg where g: "gate_call env ?c rt = (Ok metadata, rtg)"
    using assms(2) by (auto simp: open_tool_session_def Let_def split: prod.splits sum.splits)
  obtain res reg w where r: "open_session_scoped fresh name i (context_id scope) (agent_id scope) (task_id_opt scope)
      (rt_registry rtg) (rt_world rtg) = (res, reg, w)" by (rule prod_cases3)
  have res: "res = Ok sid" and rt1: "rt_gate rt1 = semiotic_complete senv ?c (Ok JNull) (rt_gate rtg)"
      "rt_scopes rt1 sid = Some \<lparr>tss_tool_name = name, tss_scope = scope, tss_open_input = i\<rparr>" "rt_registry rt1 = reg"
    using assms(1,2) g r
    by (auto simp: open_tool_session_def Let_def semiotic_interceptor_def split: sum.splits)
  show "rt_scopes rt1 sid = Some \<lparr>tss_tool_name = name, tss_scope = scope, tss_open_input = i\<rparr>" by (rule rt1(2))
  show "reg_tools (rt_registry rt1) = reg_tools (rt_registry rt)"
    using rt1(3) open_session_tools [of fresh name i "context_id scope" "agent_id scope" "task_id_opt scope"
        "rt_registry rtg" "rt_world rtg"] r gate_call_keeps(2) [of env ?c rt] g by simp
  have gs: "rt_gate rtg = snd (semiotic_stamp ?c (tcc_metadata ?c) (snd (semiotic_intercept senv now ?c (rt_gate rt))))"
  proof -
    have "rt_gate rtg = snd (stamp_tool_metadata (xe_pipeline env) ?c (tcc_metadata ?c)
        (snd (intercept_tool_call (xe_pipeline env) ?c (rt_gate rt))))"
      using g by (auto simp: gate_call_def Let_def split: prod.splits sum.splits interceptor_decision.splits)
    moreover have "snd (intercept_tool_call [semiotic_interceptor senv now] ?c st) = snd (semiotic_intercept senv now ?c st)" for st
      unfolding intercept_tool_call_Cons by (simp add: semiotic_interceptor_def Let_def case_prod_beta)
    ultimately show ?thesis using assms(1) by (simp add: semiotic_interceptor_def case_prod_beta)
  qed
  then have cfg: "ss_config (rt_gate rtg) = ss_config (rt_gate rt)" by (simp add: semiotic_keeps_config)
  show "grant_open k (rt_gate rt1) \<le> grant_open k (rt_gate rt)"
    using call_potential [of senv k now ?c "rt_gate rt"] grant_open_same [OF stamp_auth] grant_open_same [OF complete_auth]
    by (simp add: rt1 gs)
  show "ss_config (rt_gate rt1) = ss_config (rt_gate rt)" using cfg by (simp add: rt1 semiotic_keeps_config)
  have "config_for ?c (rt_gate rtg) = config_for ctx (rt_gate rt)"
    using config_for_same [OF cfg] assms(4) by (simp add: call_context_def)
  then show "get_live later scope ARTIFACT_TTL (rt_gate rt1) = None"
    using complete_consumes [of ?c "rt_gate rtg" scope] assms(3) by (simp add: rt1)
qed

text \<open>
  opening a session uses up the grounding its sends need.  The gate judges the open and every
  send, and the open completes at once, which consumes the artifact of the scope.  Under enforcement
  the first send to a session of a tool with write access is therefore held after every successful
  open, however the call was grounded, when no authorization of the user is open.
\<close>

theorem open_uses_up_grounding:
  assumes "xe_pipeline env = [semiotic_interceptor senv now]"
    "open_tool_session env fresh d scope name i rt = (Ok sid, rt1)"
    "get_metadata name (rt_registry rt) = Some m" "tfm_access m = Some Write" "tier_of_tags (tfm_tags m) = None"
    "extract_delegation_target_from_open_input name i = None"
    "ctx = call_context env ''send'' scope name input None rt1"
    "should_enforce (config_for ctx (rt_gate rt)) 2" "grant_open (scope_key scope) (rt_gate rt) = 0"
  shows "\<not> is_ok (fst (tool_session_send env d' sid input rt1))"
proof -
  have "sp_enabled (config_for ctx (rt_gate rt))" "tcc_agent_package ctx = xe_agent_package env"
    using assms(7,8) by (auto simp: should_enforce_def call_context_def)
  note o = opened [OF assms(1,2) this]
  have tier: "call_tier ctx = TMutating"
    using call_tier_registry [of name rt1 m Write env "''send''" scope input None] assms(3-5,7) get_metadata_tools [OF o(2)]
    by (simp add: classify_tier_def)
  have "grant_open (scope_key (tcc_runtime_scope ctx)) (rt_gate rt1) = 0"
    using o(5) [of "scope_key scope"] assms(7,9) by (simp add: call_context_def)
  then have "\<not> authorized senv ctx (rt_gate rt1)" using authorized_open [of senv ctx "rt_gate rt1"] by auto
  moreover have "config_for ctx (rt_gate rt1) = config_for ctx (rt_gate rt)" by (rule config_for_same [OF o(3) refl])
  ultimately have "fst (semiotic_intercept senv now ctx (rt_gate rt1)) \<noteq> Ok Allow"
    using tier assms(7,8) o(4)
    by (auto simp: intercept_decision enforced_def should_enforce_def well_grounded_def)
  then have "\<not> is_ok (fst (gate_call env ctx rt1))"
    using gate_call_passes_gate [of env ctx rt1 "[]" senv now "[]"] assms(1) by (auto simp: gate_state_def)
  then obtain e where "fst (gate_call env ctx rt1) = Err e" by (cases "fst (gate_call env ctx rt1)") auto
  then show ?thesis using held_send [OF o(1)] assms(6,7) by simp
qed

subsection \<open>Concrete sessions\<close>

definition write_metadata :: tool_function_metadata where
  "write_metadata = witness_metadata\<lparr>tfm_access := Some Write\<rparr>"

definition write_runtime :: "(json list host_session, json list, semiotic_state, unit bus_with_effects) runtime" where
  "write_runtime = drop_runtime\<lparr>rt_registry :=
     insert_tool witness_name write_metadata (witness_handler open_one_shot (Ok JNull)) registry_new\<rparr>"

definition task_scope :: runtime_scope where
  "task_scope = TaskScope ''c'' ''a'' ''m'' ''t''"

definition open_entry :: tool_session_scope where
  "open_entry = \<lparr>tss_tool_name = ''support/calculate'', tss_scope = task_scope, tss_open_input = JObject []\<rparr>"

definition sent_session :: "json list one_shot_session" where
  "sent_session = (one_shot_new witness_ctx (\<lambda>i w. (Ok i, i # w)))\<lparr>os_send_input := Some (JObject [(''q'', JNull)])\<rparr>"


theorem read_input_ungated_witness:
  "rt_world (snd (tool_session_read drop_env 0 ''anchor'' ''anchor'' ''s'' (JObject [(''q'', JString ''other'')])
     (drop_runtime\<lparr>rt_scopes := [''s'' \<mapsto> open_entry],
        rt_registry := drop_registry\<lparr>reg_sessions := [''s'' \<mapsto> HostOneShot sent_session]\<rparr>\<rparr>))) =
   [JObject [(''q'', JString ''other'')]]"
  by (subst read_input_ungated [where sc = open_entry and s = sent_session and sent = "[(''q'', JNull)]"])
     (simp_all add: drop_env_def sent_session_def one_shot_new_def drop_runtime_def)

lemma single_gate_allows:
  assumes "xe_pipeline env = [semiotic_interceptor senv now]" "fst (semiotic_intercept senv now ctx (rt_gate rt)) = Ok Allow"
  shows "is_ok (fst (gate_call env ctx rt))"
  using assms by (auto simp: gate_call_def Let_def semiotic_interceptor_def split: prod.splits sum.splits)

lemma open_ok:
  assumes "is_ok (fst (gate_call env (call_context env ''open'' scope name i (extract_delegation_target_from_open_input name i) rt) rt))"
    "fst (open_session_scoped fresh name i (context_id scope) (agent_id scope) (task_id_opt scope) (rt_registry rt) (rt_world rt)) = Ok fresh"
  shows "fst (open_tool_session env fresh d scope name i rt) = Ok fresh"
  using assms gate_call_keeps(1,2) [of env "call_context env ''open'' scope name i (extract_delegation_target_from_open_input name i) rt" rt]
  by (auto simp: open_tool_session_def Let_def split: prod.splits sum.splits)

definition grounded_runtime :: "(json list host_session, json list, semiotic_state, unit bus_with_effects) runtime" where
  "grounded_runtime = write_runtime\<lparr>rt_gate :=
     submit_grounding 0 task_scope (art_of ''archive'' [node_of ''ACTION'' Icon ''set deleted_at'']) None enforce_state\<rparr>"

lemma write_declared:
  "get_metadata ''support/calculate'' (rt_registry grounded_runtime) = Some write_metadata"
  "tfm_access write_metadata = Some Write" "tier_of_tags (tfm_tags write_metadata) = None"
  by (simp_all add: get_metadata_def get_metadata_by_name_def witness_parse grounded_runtime_def write_runtime_def
      insert_tool_def registry_new_def write_metadata_def witness_metadata_def build_metadata_def
      metadata_builder_new_def from_types_def)

lemma no_target: "extract_delegation_target_from_open_input ''support/calculate'' (JObject []) = None"
  by (simp add: extract_delegation_target_from_open_input_def)

lemma grounded_gate:
  "is_ok (fst (gate_call drop_env (call_context drop_env ''open'' task_scope ''support/calculate'' (JObject []) None grounded_runtime)
     grounded_runtime))" (is "is_ok (fst (gate_call _ ?ctx _))")
proof (rule single_gate_allows)
  show "xe_pipeline drop_env = [semiotic_interceptor witness_env 0]" by (simp add: drop_env_def)
  have t: "call_tier ?ctx = TMutating"
    using write_declared by (simp add: call_tier_registry classify_tier_def)
  have f: "tcc_runtime_scope ?ctx = task_scope" "tcc_args ?ctx = JObject []" "tcc_tool_name ?ctx = ''support/calculate''"
    by (simp_all add: call_context_def)
  let ?art = "art_of ''archive'' [node_of ''ACTION'' Icon ''set deleted_at'']"
  have "set (deficient_nodes gate_default (lint (se_re witness_env) ?art) TMutating) = {}"
    by (subst deficient_default) (auto simp: lint_def Let_def art_of_def node_of_def grounded_def)
  moreover have "covers_match (se_re witness_env) (se_ser witness_env) (pa_covers ?art) ''support/calculate'' (JObject [])"
    by (simp add: covers_match_def witness_env_def art_of_def)
  moreover have "get_live 0 task_scope ARTIFACT_TTL (rt_gate grounded_runtime) = Some ?art"
    by (simp add: grounded_runtime_def get_live_submit)
  moreover have "pa_postconditions ?art \<noteq> []" by (simp add: art_of_def)
  ultimately have "well_grounded witness_env 0 ?ctx (rt_gate grounded_runtime)"
    by (simp add: well_grounded_def t f)
  then show "fst (semiotic_intercept witness_env 0 ?ctx (rt_gate grounded_runtime)) = Ok Allow"
    using t by (simp add: intercept_decision)
qed

lemma grounded_open:
  "fst (open_tool_session drop_env ''s'' 0 task_scope ''support/calculate'' (JObject []) grounded_runtime) = Ok ''s''"
proof (rule open_ok)
  show "is_ok (fst (gate_call drop_env (call_context drop_env ''open'' task_scope ''support/calculate'' (JObject [])
      (extract_delegation_target_from_open_input ''support/calculate'' (JObject [])) grounded_runtime) grounded_runtime))"
    using grounded_gate by (simp add: no_target)
  show "fst (open_session_scoped ''s'' ''support/calculate'' (JObject []) (context_id task_scope) (agent_id task_scope)
      (task_id_opt task_scope) (rt_registry grounded_runtime) (rt_world grounded_runtime)) = Ok ''s''"
    by (simp add: open_session_scoped_def witness_parse grounded_runtime_def write_runtime_def insert_tool_def
        registry_new_def not_in_allowlist_def witness_handler_def open_one_shot_def Let_def
        validate_open_input_def witness_tool_def)
qed

theorem open_uses_up_grounding_witness:
  "let rt1 = snd (open_tool_session drop_env ''s'' 0 task_scope ''support/calculate'' (JObject []) grounded_runtime)
   in \<not> is_ok (fst (tool_session_send drop_env 0 ''s'' JNull rt1))"
proof -
  define rt1 where "rt1 = snd (open_tool_session drop_env ''s'' 0 task_scope ''support/calculate'' (JObject []) grounded_runtime)"
  let ?ctx = "call_context drop_env ''send'' task_scope ''support/calculate'' JNull None rt1"
  have o: "open_tool_session drop_env ''s'' 0 task_scope ''support/calculate'' (JObject []) grounded_runtime = (Ok ''s'', rt1)"
    using grounded_open by (simp add: rt1_def prod_eq_iff)
  have cfg: "config_for ?ctx (rt_gate grounded_runtime) = sc_default enforce_config"
    by (simp add: config_for_def resolve_semiotic_policy_def call_context_def drop_env_def grounded_runtime_def
        submit_grounding_def enforce_state_def resolve_policy_def enforce_config_def)
  have "grant_open (scope_key task_scope) (rt_gate grounded_runtime) = 0"
    by (simp add: grant_open_def grounded_runtime_def submit_grounding_def enforce_state_def state_init_def)
  moreover have "should_enforce (config_for ?ctx (rt_gate grounded_runtime)) 2"
    unfolding cfg by (simp add: should_enforce_def enforce_config_def policy_default_def)
  ultimately have "\<not> is_ok (fst (tool_session_send drop_env 0 ''s'' JNull rt1))"
    by (intro open_uses_up_grounding [OF _ o write_declared no_target refl]) (simp_all add: drop_env_def)
  then show ?thesis by (simp add: rt1_def Let_def)
qed

lemma open_ok_bus:
  assumes "fst (open_tool_session env fresh d scope name i rt) = Ok sid"
  shows "rt_bus (snd (open_tool_session env fresh d scope name i rt)) = rt_bus rt"
proof -
  let ?g = "gate_call env (call_context env ''open'' scope name i (extract_delegation_target_from_open_input name i) rt) rt"
  obtain m rt1 where g: "?g = (Ok m, rt1)"
    using assms by (auto simp: open_tool_session_def Let_def split: prod.splits sum.splits)
  then have "rt_bus rt1 = rt_bus rt"
    by (auto simp: gate_call_def Let_def split: prod.splits sum.splits interceptor_decision.splits)
  then show ?thesis
    using assms g by (auto simp: open_tool_session_def Let_def split: prod.splits sum.splits)
qed

lemma new_bus_ready: "effect_ready (emit 0 None) (unfinished InTool) (bus_new ())"
  by (simp add: effect_ready_def start_tool_def emit_def bus_emit_def process_effect_inner_def Let_def runs_tiered_def
      bus_new_def unfinished_def in_flight_def)


end
