(* ===== verification/Net_Guard.thy ===== *)
theory Net_Guard
  imports Prelude
begin

text \<open>
  The guard of outgoing cluster requests (\<^verbatim>\<open>baml-rt-router/src/ssrf.rs\<close>) and of incoming control
  requests (\<^verbatim>\<open>auth.rs\<close>).  Addresses are words as in the standard library; the URL parser, name
  resolution, the HTTP client builder and the digest are third-party code and parameters.
\<close>

unbundle bit_operations_syntax

subsection \<open>Addresses\<close>

type_synonym ipv4_addr = "32 word"
type_synonym ipv6_addr = "128 word"

datatype ip_addr = V4 ipv4_addr | V6 ipv6_addr

record socket_addr =
  sa_ip :: ip_addr
  sa_port :: nat

definition octets :: "ipv4_addr \<Rightarrow> 8 word list" where
  "octets a = [ucast (drop_bit 24 a), ucast (drop_bit 16 a), ucast (drop_bit 8 a), ucast a]"

definition segments :: "ipv6_addr \<Rightarrow> 16 word list" where
  "segments a = map (\<lambda>i. ucast (drop_bit (112 - 16 * i) a)) [0..<8]"

fun ip_is_loopback :: "ip_addr \<Rightarrow> bool" where
  "ip_is_loopback (V4 a) \<longleftrightarrow> octets a ! 0 = 127"
| "ip_is_loopback (V6 a) \<longleftrightarrow> a = 1"

fun ip_is_unspecified :: "ip_addr \<Rightarrow> bool" where
  "ip_is_unspecified (V4 a) \<longleftrightarrow> a = 0"
| "ip_is_unspecified (V6 a) \<longleftrightarrow> a = 0"

fun is_link_local_or_metadata :: "ip_addr \<Rightarrow> bool" where
  "is_link_local_or_metadata (V4 a) \<longleftrightarrow> octets a ! 0 = 169 \<and> octets a ! 1 = 254"
| "is_link_local_or_metadata (V6 a) \<longleftrightarrow> segments a ! 0 AND 0xffc0 = 0xfe80"

fun is_cloud_metadata_ip :: "ip_addr \<Rightarrow> bool" where
  "is_cloud_metadata_ip (V4 a) \<longleftrightarrow> octets a = [100, 100, 100, 200]"
| "is_cloud_metadata_ip (V6 a) \<longleftrightarrow> segments a ! 0 = 0xfd00 \<and> segments a ! 1 = 0x0ec2"

definition host_is :: "string \<Rightarrow> string \<Rightarrow> string" where
  "host_is host what = ''endpoint host '' @ [CHR 0x27] @ host @ [CHR 0x27] @ '' is '' @ what"

definition reject_dangerous_ip :: "ip_addr \<Rightarrow> string \<Rightarrow> (string, unit) result" where
  "reject_dangerous_ip ip host =
     (if ip_is_loopback ip then Err (host_is host ''a loopback address'')
      else if ip_is_unspecified ip then Err (host_is host ''an unspecified address'')
      else if is_link_local_or_metadata ip then Err (host_is host ''a link-local or metadata address'')
      else if is_cloud_metadata_ip ip then Err (host_is host ''a cloud metadata address'')
      else Ok ())"

subsection \<open>Endpoints\<close>

text \<open>What \<^verbatim>\<open>url::Url\<close> exposes of a parsed URL.\<close>

datatype url_host = Domain string | HostV4 ipv4_addr | HostV6 ipv6_addr

record parsed_url =
  u_scheme :: string
  u_username :: string
  u_password :: "string option"
  u_host :: "url_host option"
  u_host_str :: "string option"
  u_port_or_default :: "nat option"
  u_path :: "string list"
  u_query :: "string option"
  u_fragment :: "string option"
  u_is_base :: bool

definition is_ascii :: "string \<Rightarrow> bool" where
  "is_ascii s = list_all (\<lambda>c. code c < 128) s"

definition blocked_hostnames :: "string list" where
  "blocked_hostnames = [''localhost'', ''metadata.google.internal'', ''metadata.aws.internal'', ''metadata.azure.internal'']"

definition hostname_blocked :: "string \<Rightarrow> bool" where
  "hostname_blocked host =
     list_ex (\<lambda>b. to_lowercase host = b \<or> ends_with (to_lowercase host) (''.'' @ b)) blocked_hostnames"

definition quote_url :: "string \<Rightarrow> string" where
  "quote_url s = [CHR 0x27] @ s @ [CHR 0x27]"

fun literal_ip :: "url_host option \<Rightarrow> ip_addr option" where
  "literal_ip (Some (HostV4 a)) = Some (V4 a)"
| "literal_ip (Some (HostV6 a)) = Some (V6 a)"
| "literal_ip _ = None"

definition validate_cluster_endpoint ::
  "(string \<Rightarrow> (string, parsed_url) result) \<Rightarrow> string \<Rightarrow> (string, parsed_url) result" where
  "validate_cluster_endpoint url_parse raw =
     (if \<not> is_ascii raw then Err ''endpoint URL contains non-ASCII characters''
      else (case url_parse raw of
              Inl e \<Rightarrow> Err (''invalid endpoint URL '' @ quote_url raw @ '': '' @ e)
            | Inr parsed \<Rightarrow>
                if u_scheme parsed \<noteq> ''http'' \<and> u_scheme parsed \<noteq> ''https''
                then Err (''endpoint scheme must be http or https, got '' @ quote_url (u_scheme parsed))
                else (case u_host_str parsed of
                        None \<Rightarrow> Err (''endpoint '' @ quote_url raw @ '' has no host'')
                      | Some host \<Rightarrow>
                          if hostname_blocked host then Err (''endpoint host '' @ quote_url host @ '' is blocked'')
                          else (case literal_ip (u_host parsed) of
                                  None \<Rightarrow> Ok parsed
                                | Some ip \<Rightarrow> res_bind (reject_dangerous_ip ip host) (\<lambda>_. Ok parsed)))))"

fun reject_all :: "socket_addr list \<Rightarrow> string \<Rightarrow> (string, unit) result" where
  "reject_all [] host = Ok ()"
| "reject_all (a # as) host = res_bind (reject_dangerous_ip (sa_ip a) host) (\<lambda>_. reject_all as host)"

definition resolve_and_validate_cluster_endpoint ::
  "(string \<Rightarrow> (string, parsed_url) result) \<Rightarrow> (string \<Rightarrow> (string, socket_addr list) result) \<Rightarrow> string
   \<Rightarrow> (string, parsed_url \<times> socket_addr list) result" where
  "resolve_and_validate_cluster_endpoint url_parse lookup_host raw =
     res_bind (validate_cluster_endpoint url_parse raw) (\<lambda>parsed.
       let host = (case u_host_str parsed of Some h \<Rightarrow> h | None \<Rightarrow> []);
           port = (case u_port_or_default parsed of Some p \<Rightarrow> p | None \<Rightarrow> 80)
       in (case literal_ip (u_host parsed) of
             Some ip \<Rightarrow> Ok (parsed, [\<lparr>sa_ip = ip, sa_port = port\<rparr>])
           | None \<Rightarrow>
               (case lookup_host (host @ '':'' @ show_nat port) of
                  Inl e \<Rightarrow> Err (''DNS resolution failed for '' @ quote_url host @ '': '' @ e)
                | Inr ips \<Rightarrow>
                    if ips = [] then Err (''DNS resolution returned no addresses for '' @ quote_url host)
                    else res_bind (reject_all ips host) (\<lambda>_. Ok (parsed, ips)))))"

definition origin_url :: "parsed_url \<Rightarrow> string" where
  "origin_url u = u_scheme u @ ''://'' @ (case u_host_str u of Some h \<Rightarrow> h | None \<Rightarrow> [])
     @ '':'' @ show_nat (case u_port_or_default u of Some p \<Rightarrow> p | None \<Rightarrow> 80)"

text \<open>The settings of the client that \<^verbatim>\<open>reqwest\<close> is asked to build.\<close>

record http_client =
  hc_connect_timeout :: nat
  hc_timeout :: nat
  hc_follow_redirects :: bool
  hc_resolve :: "string \<times> socket_addr list"

definition build_validated_peer_client ::
  "(string \<Rightarrow> (string, parsed_url) result) \<Rightarrow> (string \<Rightarrow> (string, socket_addr list) result)
   \<Rightarrow> (ip_addr \<Rightarrow> string) \<Rightarrow> (http_client \<Rightarrow> (string, http_client) result)
   \<Rightarrow> string \<Rightarrow> string \<Rightarrow> nat \<Rightarrow> (string, http_client \<times> parsed_url) result" where
  "build_validated_peer_client url_parse lookup_host show_ip build endpoint path_segment timeout =
     res_bind (resolve_and_validate_cluster_endpoint url_parse lookup_host endpoint) (\<lambda>(validated, resolved_addrs).
       res_bind (case u_host validated of
                   Some (Domain d) \<Rightarrow> Ok d
                 | Some (HostV4 a) \<Rightarrow> Ok (show_ip (V4 a))
                 | Some (HostV6 a) \<Rightarrow> Ok (show_ip (V6 a))
                 | None \<Rightarrow> Err ''endpoint has no host'') (\<lambda>host.
         if \<not> u_is_base validated then Err ''endpoint URL is not a base''
         else (case build \<lparr>hc_connect_timeout = timeout, hc_timeout = timeout, hc_follow_redirects = False,
                           hc_resolve = (host, resolved_addrs)\<rparr> of
                 Inl e \<Rightarrow> Err (''client build: '' @ e)
               | Inr client \<Rightarrow>
                   Ok (client, validated\<lparr>u_query := None, u_fragment := None, u_path := [path_segment]\<rparr>))))"

subsection \<open>Truncation of diagnostic bodies\<close>

definition is_char_boundary :: "string \<Rightarrow> nat \<Rightarrow> bool" where
  "is_char_boundary s i \<longleftrightarrow>
     i = 0 \<or> i = length s \<or> (i < length s \<and> \<not> (128 \<le> code (s ! i) \<and> code (s ! i) < 192))"

fun floor_boundary_from :: "string \<Rightarrow> nat \<Rightarrow> nat" where
  "floor_boundary_from s 0 = 0"
| "floor_boundary_from s (Suc i) = (if is_char_boundary s (Suc i) then Suc i else floor_boundary_from s i)"

definition floor_char_boundary :: "string \<Rightarrow> nat \<Rightarrow> nat" where
  "floor_char_boundary s i = (if length s \<le> i then length s else floor_boundary_from s i)"

definition truncate_body :: "string \<Rightarrow> nat \<Rightarrow> string" where
  "truncate_body s max_bytes =
     (if length s \<le> max_bytes then s
      else take (floor_char_boundary s max_bytes) s @ ''...[truncated]'')"

subsection \<open>Control endpoints\<close>

datatype cluster_mode = Standalone | Cluster

datatype control_denial = InvalidToken | TokenNotConfigured

definition tokens_match :: "(string \<Rightarrow> 'd) \<Rightarrow> string \<Rightarrow> string \<Rightarrow> bool" where
  "tokens_match sha256 provided expected \<longleftrightarrow> sha256 provided = sha256 expected"

definition check_control_auth ::
  "(string \<Rightarrow> 'd) \<Rightarrow> string option \<Rightarrow> cluster_mode \<Rightarrow> string \<Rightarrow> (control_denial, unit) result" where
  "check_control_auth sha256 runner_token mode provided =
     (case runner_token of
        Some expected \<Rightarrow> if \<not> tokens_match sha256 provided expected then Err InvalidToken else Ok ()
      | None \<Rightarrow> if mode = Cluster then Err TokenNotConfigured else Ok ())"

record cluster_auth_config =
  ca_runner_token :: "string option"
  ca_cluster_mode :: cluster_mode

text \<open>\<^const>\<open>None\<close> is the panic of the constructor.\<close>

definition cluster_auth_layer_new :: "cluster_auth_config \<Rightarrow> cluster_auth_config option" where
  "cluster_auth_layer_new config = (if ca_runner_token config = Some [] then None else Some config)"

text \<open>
  \<^verbatim>\<open>ClusterAuthService::call\<close>: the header is its bytes; \<^verbatim>\<open>to_str\<close> accepts visible ASCII, space and
  tab only.  The inner service is a function of the request.
\<close>

definition header_to_str :: "string \<Rightarrow> string option" where
  "header_to_str v = (if list_all (\<lambda>c. (32 \<le> code c \<and> code c < 127) \<or> code c = 9) v then Some v else None)"

definition cluster_auth_call ::
  "(string \<Rightarrow> 'd) \<Rightarrow> cluster_auth_config \<Rightarrow> (control_denial \<Rightarrow> 'resp) \<Rightarrow> ('req \<Rightarrow> string option) \<Rightarrow> ('req \<Rightarrow> 'resp)
   \<Rightarrow> 'req \<Rightarrow> 'resp" where
  "cluster_auth_call sha256 config deny token_header inner req =
     (let provided = (case token_header req of
                        Some v \<Rightarrow> (case header_to_str v of Some s \<Rightarrow> s | None \<Rightarrow> [])
                      | None \<Rightarrow> [])
      in (case check_control_auth sha256 (ca_runner_token config) (ca_cluster_mode config) provided of
            Inr _ \<Rightarrow> inner req
          | Inl denial \<Rightarrow> deny denial))"

subsection \<open>Address blocks\<close>

text \<open>An address block in CIDR notation: the addresses that share the first \<open>n\<close> bits with the base.\<close>

definition in_cidr :: "'a::len word \<Rightarrow> nat \<Rightarrow> 'a word \<Rightarrow> bool" where
  "in_cidr base n a \<longleftrightarrow> drop_bit (LENGTH('a) - n) a = drop_bit (LENGTH('a) - n) base"

definition dotted :: "nat \<Rightarrow> nat \<Rightarrow> nat \<Rightarrow> nat \<Rightarrow> ipv4_addr" where
  "dotted a b c d = of_nat (a * 2 ^ 24 + b * 2 ^ 16 + c * 2 ^ 8 + d)"

text \<open>The blocks the documentation of the guard lists.\<close>

fun blocked_ip :: "ip_addr \<Rightarrow> bool" where
  "blocked_ip (V4 a) \<longleftrightarrow> in_cidr (dotted 127 0 0 0) 8 a \<or> a = dotted 0 0 0 0
     \<or> in_cidr (dotted 169 254 0 0) 16 a \<or> a = dotted 100 100 100 200"
| "blocked_ip (V6 a) \<longleftrightarrow> a = 1 \<or> a = 0 \<or> in_cidr (push_bit 112 0xfe80) 10 a \<or> in_cidr (push_bit 96 0xfd000ec2) 32 a"

lemma unat_drop: "unat (drop_bit k a) = unat a div 2 ^ k" for a :: "'a::len word"
  by (subst unat_drop_bit_eq) (rule drop_bit_eq_div)

lemma field_eq:
  fixes a :: "'a::len word" and b :: "'b::len word"
  shows "ucast (drop_bit k a) = b \<longleftrightarrow> unat a div 2 ^ k mod 2 ^ LENGTH('b) = unat b"
proof -
  have "ucast (drop_bit k a) = b \<longleftrightarrow> unat (ucast (drop_bit k a) :: 'b word) = unat b"
    by (metis unsigned_word_eqI)
  then show ?thesis by (simp only: unsigned_ucast_eq unat_drop take_bit_eq_mod)
qed

lemma in_cidr_div: "in_cidr base n a \<longleftrightarrow> unat a div 2 ^ (LENGTH('a) - n) = unat base div 2 ^ (LENGTH('a) - n)"
  for a :: "'a::len word"
  unfolding in_cidr_def by (metis unat_drop unsigned_word_eqI)

text \<open>The fields of an address as the digits of its value.\<close>

lemma digits4:
  assumes "(n :: nat) < 2 ^ 32"
  obtains p q r t where "n = ((p * 256 + q) * 256 + r) * 256 + t" "p < 256" "q < 256" "r < 256" "t < 256"
    "n div 2 ^ 24 mod 2 ^ 8 = p" "n div 2 ^ 16 mod 2 ^ 8 = q" "n div 2 ^ 8 mod 2 ^ 8 = r" "n mod 2 ^ 8 = t"
    "n div 2 ^ 24 = p" "n div 2 ^ 16 = p * 256 + q"
proof -
  let ?m = "n div 256" and ?l = "n div 256 div 256"
  have "n = ((?l div 256 * 256 + ?l mod 256) * 256 + ?m mod 256) * 256 + n mod 256" by simp
  moreover have "n div 2 ^ 24 = ?l div 256" "n div 2 ^ 16 = ?l" "n div 2 ^ 8 = ?m" by (simp_all flip: div_mult2_eq)
  moreover have "?l div 256 < 256" using assms by (simp flip: div_mult2_eq)
  ultimately show thesis
    using that [of "?l div 256" "?l mod 256" "?m mod 256" "n mod 256"] by simp
qed

lemma blocked_v4:
  "ip_is_loopback (V4 a) \<or> ip_is_unspecified (V4 a) \<or> is_link_local_or_metadata (V4 a) \<or> is_cloud_metadata_ip (V4 a)
     \<longleftrightarrow> blocked_ip (V4 a)"
proof -
  have "unat a < 2 ^ 32" using unsigned_less [of a] by simp
  then obtain p q r t where n: "unat a = ((p * 256 + q) * 256 + r) * 256 + t" "p < 256" "q < 256" "r < 256" "t < 256"
    and d: "unat a div 2 ^ 24 mod 2 ^ 8 = p" "unat a div 2 ^ 16 mod 2 ^ 8 = q" "unat a div 2 ^ 8 mod 2 ^ 8 = r"
      "unat a mod 2 ^ 8 = t" "unat a div 2 ^ 24 = p" "unat a div 2 ^ 16 = p * 256 + q"
    by (rule digits4)
  have o: "octets a = [b3, b2, b1, b0] \<longleftrightarrow> p = unat b3 \<and> q = unat b2 \<and> r = unat b1 \<and> t = unat b0" for b3 b2 b1 b0
    using field_eq [of 24 a b3] field_eq [of 16 a b2] field_eq [of 8 a b1] field_eq [of 0 a b0] d
    by (simp add: octets_def)
  have o0: "octets a ! 0 = b \<longleftrightarrow> p = unat b" and o1: "octets a ! 1 = b \<longleftrightarrow> q = unat b" for b
    using field_eq [of 24 a b] field_eq [of 16 a b] d by (simp_all add: octets_def)
  have "a = dotted 100 100 100 200 \<longleftrightarrow> unat a = 1684301000"
    by (auto simp: dotted_def word_unat_eq_iff)
  moreover have "unat a = 1684301000 \<longleftrightarrow> p = 100 \<and> q = 100 \<and> r = 100 \<and> t = 200"
  proof
    assume "unat a = 1684301000"
    then show "p = 100 \<and> q = 100 \<and> r = 100 \<and> t = 200" using d(1-4) by simp
  qed (simp add: n(1))
  moreover have "in_cidr (dotted 127 0 0 0) 8 a \<longleftrightarrow> p = 127" using d by (simp add: in_cidr_div dotted_def)
  moreover have "in_cidr (dotted 169 254 0 0) 16 a \<longleftrightarrow> p = 169 \<and> q = 254"
  proof -
    have "p * 256 + q = 43518 \<longleftrightarrow> p = 169 \<and> q = 254" using n(3) by presburger
    then show ?thesis using d(6) by (simp add: in_cidr_div dotted_def)
  qed
  ultimately show ?thesis using o1 by (simp add: o o0 dotted_def)
qed

lemma link_local_bits: "w AND 0xffc0 = 0xfe80 \<longleftrightarrow> unat w div 2 ^ 6 = 0x3fa" for w :: "16 word"
proof -
  have m: "x AND 0xffc0 = push_bit 6 (drop_bit 6 x)" for x :: "16 word"
  proof -
    have "(0xffc0 :: 16 word) = NOT (mask 6)" by (simp add: mask_eq_exp_minus_1)
    moreover have "x AND NOT (mask 6) = push_bit 6 (drop_bit 6 x)" by (rule bit_word_eqI) (auto simp: bit_simps)
    ultimately show ?thesis by (simp only:)
  qed
  have "w AND 0xffc0 = 0xfe80 \<longleftrightarrow> drop_bit 6 w = (0x3fa :: 16 word)"
  proof
    assume "w AND 0xffc0 = 0xfe80"
    then have "drop_bit 6 (push_bit 6 (drop_bit 6 w)) = drop_bit 6 (0xfe80 :: 16 word)" by (simp add: m)
    moreover have "drop_bit 6 (push_bit 6 (drop_bit 6 w)) = drop_bit 6 w"
      by (rule bit_word_eqI) (auto simp: bit_simps dest: bit_imp_le_length)
    ultimately show "drop_bit 6 w = 0x3fa" by simp
  qed (simp add: m)
  also have "\<dots> \<longleftrightarrow> unat (drop_bit 6 w) = unat (0x3fa :: 16 word)" by (metis unsigned_word_eqI)
  finally show ?thesis by (simp only: unat_drop) simp
qed

lemma blocked_v6:
  "ip_is_loopback (V6 a) \<or> ip_is_unspecified (V6 a) \<or> is_link_local_or_metadata (V6 a) \<or> is_cloud_metadata_ip (V6 a)
     \<longleftrightarrow> blocked_ip (V6 a)"
proof -
  have b: "unat a < 2 ^ 128" using unsigned_less [of a] by simp
  have h: "unat a div 2 ^ 112 mod 2 ^ 16 = unat a div 2 ^ 112" using b by simp
  have seg: "segments a ! 0 = ucast (drop_bit 112 a)" "segments a ! 1 = ucast (drop_bit 96 a)"
    by (simp_all add: segments_def)
  have "unat (segments a ! 0) = unat a div 2 ^ 112"
    by (simp only: seg unsigned_ucast_eq unat_drop take_bit_eq_mod) (use h in simp)
  then have l: "is_link_local_or_metadata (V6 a) \<longleftrightarrow> unat a div 2 ^ 118 = 0x3fa"
    using link_local_bits [of "segments a ! 0"] by (simp flip: div_mult2_eq)
  have c: "is_cloud_metadata_ip (V6 a) \<longleftrightarrow> unat a div 2 ^ 112 = 0xfd00 \<and> unat a div 2 ^ 96 mod 2 ^ 16 = 0x0ec2"
    using field_eq [of 112 a "0xfd00 :: 16 word"] field_eq [of 96 a "0x0ec2 :: 16 word"] h seg(2) by (simp add: seg(1))
  have e: "unat a div 2 ^ 112 = unat a div 2 ^ 96 div 2 ^ 16" by (simp flip: div_mult2_eq)
  have "m div 2 ^ 16 = 0xfd00 \<and> m mod 2 ^ 16 = 0x0ec2 \<longleftrightarrow> m = 0xfd000ec2" for m :: nat
  proof
    assume "m div 2 ^ 16 = 0xfd00 \<and> m mod 2 ^ 16 = 0x0ec2"
    then have "m = 0xfd00 * 2 ^ 16 + 0x0ec2" by (metis div_mult_mod_eq)
    then show "m = 0xfd000ec2" by simp
  qed simp
  with c e have "is_cloud_metadata_ip (V6 a) \<longleftrightarrow> unat a div 2 ^ 96 = 0xfd000ec2" by metis
  moreover have "in_cidr (push_bit 112 0xfe80) 10 a \<longleftrightarrow> unat a div 2 ^ 118 = 0x3fa"
    by (simp add: in_cidr_div)
  moreover have "in_cidr (push_bit 96 0xfd000ec2) 32 a \<longleftrightarrow> unat a div 2 ^ 96 = 0xfd000ec2"
    by (simp add: in_cidr_div)
  ultimately show ?thesis using l by simp
qed

lemma dangerous_ok: "reject_dangerous_ip ip host = Ok u \<longleftrightarrow> \<not> blocked_ip ip"
proof (cases ip)
  case (V4 a)
  then show ?thesis using blocked_v4 [of a] by (auto simp: reject_dangerous_ip_def simp del: blocked_ip.simps)
next
  case (V6 a)
  then show ?thesis using blocked_v6 [of a] by (auto simp: reject_dangerous_ip_def simp del: blocked_ip.simps)
qed

text \<open>
  C21: the byte and segment tests of the guard decide membership in address blocks.  An address is
  let through exactly when it lies in none of the blocks that the guard documents: for version 4,
  127.0.0.0/8, 0.0.0.0, 169.254.0.0/16 and 100.100.100.200, for version 6, ::1, ::, fe80::/10 and
  fd00:ec2::/32.
\<close>

theorem reject_dangerous_ip_iff_block: "reject_dangerous_ip ip host = Ok () \<longleftrightarrow> \<not> blocked_ip ip"
  by (rule dangerous_ok)

subsection \<open>Validated endpoints\<close>

lemma reject_all_ok: "reject_all as host = Ok u \<longleftrightarrow> (\<forall>a \<in> set as. \<not> blocked_ip (sa_ip a))"
  by (induction as) (auto simp: res_bind_eq_Inr dangerous_ok)

lemma validated:
  assumes "validate_cluster_endpoint url_parse raw = Ok u"
  shows "url_parse raw = Ok u" "u_scheme u = ''http'' \<or> u_scheme u = ''https''"
    "\<exists>h. u_host_str u = Some h \<and> \<not> hostname_blocked h"
    "literal_ip (u_host u) = Some ip \<Longrightarrow> \<not> blocked_ip ip"
  using assms
  by (auto simp: validate_cluster_endpoint_def res_bind_eq_Inr dangerous_ok split: if_splits sum.splits option.splits)

lemma resolved:
  assumes "resolve_and_validate_cluster_endpoint url_parse lookup_host raw = Ok (u, addrs)"
  shows "validate_cluster_endpoint url_parse raw = Ok u" "addrs \<noteq> []" "\<forall>a \<in> set addrs. \<not> blocked_ip (sa_ip a)"
proof -
  from assms obtain p where v: "validate_cluster_endpoint url_parse raw = Ok p"
    by (auto simp: resolve_and_validate_cluster_endpoint_def res_bind_eq_Inr)
  have *: "u = p \<and> addrs \<noteq> [] \<and> (\<forall>a \<in> set addrs. \<not> blocked_ip (sa_ip a))"
  proof (cases "literal_ip (u_host p)")
    case None
    then obtain ips host where "reject_all ips host = Ok ()" "ips \<noteq> []" "u = p" "addrs = ips"
      using assms v by (auto simp: resolve_and_validate_cluster_endpoint_def res_bind_eq_Inr Let_def
          split: if_split_asm sum.split_asm)
    then show ?thesis by (simp add: reject_all_ok)
  next
    case (Some ip)
    then have "u = p" "map sa_ip addrs = [ip]"
      using assms v by (auto simp: resolve_and_validate_cluster_endpoint_def Let_def)
    then show ?thesis using validated(4) [OF v Some] by auto
  qed
  then show "validate_cluster_endpoint url_parse raw = Ok u" "addrs \<noteq> []" "\<forall>a \<in> set addrs. \<not> blocked_ip (sa_ip a)"
    using v by simp_all
qed

text \<open>
  a client for a cluster peer can only reach addresses the guard has checked.  When
  \<^verbatim>\<open>build_validated_peer_client\<close> returns a client, its host is pinned to a non-empty list of addresses
  none of which is blocked, it follows no redirect, and the URL has the scheme and host of the
  endpoint, exactly the given path segment and neither query nor fragment.
\<close>

theorem peer_client_pinned:
  assumes "build_validated_peer_client url_parse lookup_host show_ip build endpoint seg timeout = Ok (client, url)"
    and "\<And>c c'. build c = Ok c' \<Longrightarrow> c' = c"
  shows "(\<exists>host addrs. hc_resolve client = (host, addrs) \<and> addrs \<noteq> [] \<and> (\<forall>a \<in> set addrs. \<not> blocked_ip (sa_ip a)))
    \<and> \<not> hc_follow_redirects client
    \<and> (\<exists>u. url_parse endpoint = Ok u \<and> u_scheme url = u_scheme u \<and> u_host url = u_host u
        \<and> (u_scheme u = ''http'' \<or> u_scheme u = ''https'') \<and> (\<exists>h. u_host_str u = Some h \<and> \<not> hostname_blocked h))
    \<and> u_path url = [seg] \<and> u_query url = None \<and> u_fragment url = None"
proof -
  from assms(1) obtain u addrs host c where
    r: "resolve_and_validate_cluster_endpoint url_parse lookup_host endpoint = Ok (u, addrs)"
    and c: "build \<lparr>hc_connect_timeout = timeout, hc_timeout = timeout, hc_follow_redirects = False,
      hc_resolve = (host, addrs)\<rparr> = Ok client"
    and url: "url = u\<lparr>u_query := None, u_fragment := None, u_path := [seg]\<rparr>"
    by (auto simp: build_validated_peer_client_def res_bind_eq_Inr split: if_splits sum.splits option.splits url_host.splits)
  note v = validated [OF resolved(1) [OF r]]
  show ?thesis using resolved(2,3) [OF r] assms(2) [OF c] v(1-3) url by auto
qed

text \<open>The IPv6 address that maps an IPv4 address.\<close>

definition mapped_v6 :: "ipv4_addr \<Rightarrow> ipv6_addr" where
  "mapped_v6 a = of_nat (0xffff * 2 ^ 32 + unat a)"

text \<open>
  an IPv4-mapped IPv6 address passes the guard whatever the IPv4 address is: ::ffff:127.0.0.1 and
  ::ffff:169.254.169.254 are let through, as literals and as results of name resolution, although
  the addresses they stand for are blocked.
\<close>

theorem mapped_addresses_pass: "reject_dangerous_ip (V6 (mapped_v6 a)) host = Ok ()"
proof -
  have b: "unat a < 2 ^ 32" using unsigned_less [of a] by simp
  then have u: "unat (mapped_v6 a) = 0xffff * 2 ^ 32 + unat a"
    unfolding mapped_v6_def by (subst unsigned_of_nat) (simp add: take_bit_nat_eq_self)
  then have "mapped_v6 a \<noteq> 0" "mapped_v6 a \<noteq> 1" using b by auto
  moreover have "unat (mapped_v6 a) < 2 ^ 96" using u b by simp
  then have "unat (mapped_v6 a) div 2 ^ 118 = 0" "unat (mapped_v6 a) div 2 ^ 96 = 0" by auto
  ultimately show ?thesis by (simp add: dangerous_ok in_cidr_div)
qed

subsection \<open>Concrete endpoints\<close>

definition peer_url :: parsed_url where
  "peer_url = \<lparr>u_scheme = ''http'', u_username = [], u_password = None, u_host = Some (Domain ''runner-0''),
     u_host_str = Some ''runner-0'', u_port_or_default = Some 18080, u_path = [''x''], u_query = Some ''q'',
     u_fragment = None, u_is_base = True\<rparr>"

definition peer_addr :: socket_addr where
  "peer_addr = \<lparr>sa_ip = V4 (dotted 10 0 0 7), sa_port = 18080\<rparr>"

lemma peer_resolved:
  "resolve_and_validate_cluster_endpoint (\<lambda>_. Ok peer_url) (\<lambda>_. Ok [peer_addr]) ''http://runner-0:18080/x?q''
     = Ok (peer_url, [peer_addr])"
proof -
  have p: "\<not> blocked_ip (V4 (dotted 10 0 0 7))" by (simp add: in_cidr_div dotted_def)
  have h: "\<not> hostname_blocked ''runner-0''"
    by (simp add: hostname_blocked_def blocked_hostnames_def ends_with_def strip_suffix_def to_lowercase_def lower_char_def
        is_ascii_uppercase_def)
  show ?thesis
    using p h dangerous_ok [of "V4 (dotted 10 0 0 7)" "''runner-0''" "()"]
    by (simp add: resolve_and_validate_cluster_endpoint_def validate_cluster_endpoint_def
        is_ascii_def peer_url_def peer_addr_def Let_def del: blocked_ip.simps)
qed

theorem peer_client_pinned_witness:
  "\<exists>client url. build_validated_peer_client (\<lambda>_. Ok peer_url) (\<lambda>_. Ok [peer_addr]) (\<lambda>_. []) Ok ''http://runner-0:18080/x?q''
     ''agents'' 5 = Ok (client, url) \<and> hc_resolve client = (''runner-0'', [peer_addr]) \<and> u_path url = [''agents'']"
proof -
  obtain client url where r: "build_validated_peer_client (\<lambda>_. Ok peer_url) (\<lambda>_. Ok [peer_addr]) (\<lambda>_. []) Ok
      ''http://runner-0:18080/x?q'' ''agents'' 5 = Ok (client, url)" and c: "hc_resolve client = (''runner-0'', [peer_addr])"
    by (simp add: build_validated_peer_client_def peer_resolved) (simp add: peer_url_def)
  from peer_client_pinned [OF r] c r show ?thesis by auto
qed

end
