(* ===== verification/Sse.thy ===== *)
theory Sse
  imports Prelude "HOL-Library.While_Combinator"
begin

text \<open>
  The event-stream framing of agent-to-agent responses (\<^verbatim>\<open>baml-rt-core/src/a2a_sse.rs\<close>).  Bodies are
  byte strings; the JSON parser is a parameter.  The incremental decoder and the full-body parser are
  shown to agree, however the body is cut into chunks.
\<close>

datatype a2a_sse_parse_error = MissingDataLines | SseUtf8 | SseJson string

subsection \<open>Bytes and text\<close>

definition utf8_cont :: "char \<Rightarrow> bool" where
  "utf8_cont c \<longleftrightarrow> 0x80 \<le> code c \<and> code c \<le> 0xBF"

definition byte_in :: "nat \<Rightarrow> nat \<Rightarrow> char \<Rightarrow> bool" where
  "byte_in l h c \<longleftrightarrow> l \<le> code c \<and> code c \<le> h"

text \<open>Well-formed UTF-8, the acceptance condition of \<^verbatim>\<open>String::from_utf8\<close>.\<close>

fun utf8_valid :: "string \<Rightarrow> bool" where
  "utf8_valid [] \<longleftrightarrow> True"
| "utf8_valid [a] \<longleftrightarrow> code a < 0x80"
| "utf8_valid [a, b] \<longleftrightarrow>
     (if code a < 0x80 then utf8_valid [b] else byte_in 0xC2 0xDF a \<and> utf8_cont b)"
| "utf8_valid [a, b, c] \<longleftrightarrow>
     (if code a < 0x80 then utf8_valid [b, c]
      else if byte_in 0xC2 0xDF a then utf8_cont b \<and> utf8_valid [c]
      else ((code a = 0xE0 \<and> byte_in 0xA0 0xBF b) \<or> (byte_in 0xE1 0xEC a \<and> utf8_cont b)
            \<or> (code a = 0xED \<and> byte_in 0x80 0x9F b) \<or> (byte_in 0xEE 0xEF a \<and> utf8_cont b)) \<and> utf8_cont c)"
| "utf8_valid (a # b # c # d # s) \<longleftrightarrow>
     (if code a < 0x80 then utf8_valid (b # c # d # s)
      else if byte_in 0xC2 0xDF a then utf8_cont b \<and> utf8_valid (c # d # s)
      else if byte_in 0xE0 0xEF a then
        ((code a = 0xE0 \<and> byte_in 0xA0 0xBF b) \<or> (byte_in 0xE1 0xEC a \<and> utf8_cont b)
         \<or> (code a = 0xED \<and> byte_in 0x80 0x9F b) \<or> (byte_in 0xEE 0xEF a \<and> utf8_cont b))
        \<and> utf8_cont c \<and> utf8_valid (d # s)
      else ((code a = 0xF0 \<and> byte_in 0x90 0xBF b) \<or> (byte_in 0xF1 0xF3 a \<and> utf8_cont b)
            \<or> (code a = 0xF4 \<and> byte_in 0x80 0x8F b)) \<and> utf8_cont c \<and> utf8_cont d \<and> utf8_valid s)"

abbreviation LF :: char where "LF \<equiv> CHR 0x0A"
abbreviation CR :: char where "CR \<equiv> CHR 0x0D"

text \<open>\<^verbatim>\<open>replace\<close> of carriage return and line feed by line feed, and \<^verbatim>\<open>str::lines\<close>.\<close>

fun normalize_newlines :: "string \<Rightarrow> string" where
  "normalize_newlines [] = []"
| "normalize_newlines [c] = [c]"
| "normalize_newlines (c # d # s) =
     (if c = CR \<and> d = LF then LF # normalize_newlines s else c # normalize_newlines (d # s))"

definition strip_cr :: "string \<Rightarrow> string" where
  "strip_cr s = (case strip_suffix [CR] s of Some r \<Rightarrow> r | None \<Rightarrow> s)"

definition str_lines :: "string \<Rightarrow> string list" where
  "str_lines s =
     (let parts = split_on LF s
      in map strip_cr (butlast parts) @ (if last parts = [] then [] else [last parts]))"

definition trim_end_cr :: "string \<Rightarrow> string" where
  "trim_end_cr s = rev (dropWhile (\<lambda>c. c = CR) (rev s))"

subsection \<open>Events\<close>

fun find_event_delimiter :: "string \<Rightarrow> (nat \<times> nat) option" where
  "find_event_delimiter (c # d # s) =
     (if c = LF \<and> d = LF then Some (0, 2)
      else if c = CR \<and> d = LF \<and> starts_with s [CR, LF] then Some (0, 4)
      else map_option (\<lambda>(i, n). (Suc i, n)) (find_event_delimiter (d # s)))"
| "find_event_delimiter _ = None"

definition parse_sse_event_payload :: "string \<Rightarrow> string option" where
  "parse_sse_event_payload raw =
     (let raw_event = trim (normalize_newlines raw)
      in if raw_event = [] then None
         else (let data_lines = List.map_filter (\<lambda>line. map_option trim_start (strip_prefix ''data:'' (trim_end_cr line)))
                     (str_lines raw_event)
               in if data_lines = [] then None else Some (join [LF] data_lines)))"

definition parse_sse_event_bytes ::
  "(string \<Rightarrow> (string, json) result) \<Rightarrow> string \<Rightarrow> (a2a_sse_parse_error, json option) result" where
  "parse_sse_event_bytes from_str event_bytes =
     (if \<not> utf8_valid event_bytes then Err SseUtf8
      else (case parse_sse_event_payload event_bytes of
              None \<Rightarrow> Ok None
            | Some payload \<Rightarrow>
                (case from_str payload of Inl e \<Rightarrow> Err (SseJson e) | Inr v \<Rightarrow> Ok (Some v))))"

definition push_value :: "json option \<Rightarrow> json list \<Rightarrow> json list" where
  "push_value v vs = (case v of Some x \<Rightarrow> x # vs | None \<Rightarrow> vs)"

lemma delimiter_bounds:
  "find_event_delimiter s = Some (i, n) \<Longrightarrow> 2 \<le> n \<and> i + n \<le> length s"
proof (induction s arbitrary: i n rule: find_event_delimiter.induct)
  case (1 c d s)
  show ?case
  proof (cases "c = LF \<and> d = LF \<or> c = CR \<and> d = LF \<and> starts_with s [CR, LF]")
    case True
    then show ?thesis using "1.prems" by (auto simp: starts_with_iff prefix_def split: if_splits)
  next
    case False
    then obtain j where "find_event_delimiter (d # s) = Some (j, n)" "i = Suc j"
      using "1.prems" by (auto split: if_splits)
    then show ?thesis using "1.IH" False by fastforce
  qed
qed simp_all

text \<open>
  \<^verbatim>\<open>A2aSseDecoder::drain_complete_events\<close>: the loop over complete events, and the flush of the tail.
  The second component is the pending buffer afterwards.
\<close>

function drain_events ::
  "(string \<Rightarrow> (string, json) result) \<Rightarrow> string \<Rightarrow> (a2a_sse_parse_error, json list) result \<times> string" where
  "drain_events from_str pending =
     (case find_event_delimiter pending of
        None \<Rightarrow> (Ok [], pending)
      | Some (event_end, delimiter_len) \<Rightarrow>
          (let rest = drop (event_end + delimiter_len) pending
           in (case parse_sse_event_bytes from_str (take event_end pending) of
                 Inl e \<Rightarrow> (Err e, rest)
               | Inr v \<Rightarrow>
                   (let (r, p) = drain_events from_str rest
                    in (res_bind r (\<lambda>vs. Ok (push_value v vs)), p)))))"
  by pat_completeness auto
termination
  by (relation "measure (length \<circ> snd)") (auto dest: delimiter_bounds)

declare drain_events.simps [simp del]

definition drain_complete_events ::
  "(string \<Rightarrow> (string, json) result) \<Rightarrow> bool \<Rightarrow> string \<Rightarrow> (a2a_sse_parse_error, json list) result \<times> string" where
  "drain_complete_events from_str flush_tail pending =
     (case drain_events from_str pending of
        (Inl e, p) \<Rightarrow> (Err e, p)
      | (Inr out, p) \<Rightarrow>
          if flush_tail \<and> p \<noteq> []
          then (res_bind (parse_sse_event_bytes from_str p) (\<lambda>v. Ok (out @ push_value v [])), [])
          else (Ok out, p))"

subsection \<open>The decoder\<close>

record a2a_sse_decoder =
  dec_pending :: string

definition decoder_new :: a2a_sse_decoder where
  "decoder_new = \<lparr>dec_pending = []\<rparr>"

definition decoder_feed ::
  "(string \<Rightarrow> (string, json) result) \<Rightarrow> string \<Rightarrow> a2a_sse_decoder
   \<Rightarrow> (a2a_sse_parse_error, json list) result \<times> a2a_sse_decoder" where
  "decoder_feed from_str bytes d =
     (let (r, p) = drain_complete_events from_str False (dec_pending d @ bytes) in (r, d\<lparr>dec_pending := p\<rparr>))"

definition decoder_finish ::
  "(string \<Rightarrow> (string, json) result) \<Rightarrow> a2a_sse_decoder \<Rightarrow> (a2a_sse_parse_error, json list) result" where
  "decoder_finish from_str d = fst (drain_complete_events from_str True (dec_pending d))"

definition parse_a2a_sse_json_rpc_chunks ::
  "(string \<Rightarrow> (string, json) result) \<Rightarrow> string \<Rightarrow> (a2a_sse_parse_error, json list) result" where
  "parse_a2a_sse_json_rpc_chunks from_str body =
     (let (r, d) = decoder_feed from_str body decoder_new
      in res_bind r (\<lambda>out. res_bind (decoder_finish from_str d) (\<lambda>out'.
           if out @ out' = [] \<and> trim body \<noteq> [] \<and> (starts_with (trim body) ''{'' \<or> starts_with (trim body) ''['')
           then Err MissingDataLines else Ok (out @ out'))))"

subsection \<open>Chunks do not matter\<close>

text \<open>A delimiter found in a prefix of the body is the first delimiter of the body.\<close>

lemma delimiter_prefix:
  "find_event_delimiter p = Some x \<Longrightarrow> find_event_delimiter (p @ s) = Some x"
proof (induction p arbitrary: x rule: find_event_delimiter.induct)
  case (1 c d r)
  show ?case
  proof (cases "c = LF \<and> d = LF \<or> c = CR \<and> d = LF \<and> starts_with r [CR, LF]")
    case True
    then show ?thesis using "1.prems" by (auto simp: starts_with_iff prefix_def split: if_splits)
  next
    case False
    then obtain i n where f: "find_event_delimiter (d # r) = Some (i, n)" "x = (Suc i, n)"
      using "1.prems" by (auto split: if_splits)
    have IH: "find_event_delimiter (d # r @ s) = Some (i, n)" using "1.IH" False f(1) by auto
    have "\<not> (c = CR \<and> d = LF \<and> starts_with (r @ s) [CR, LF])"
    proof
      assume a: "c = CR \<and> d = LF \<and> starts_with (r @ s) [CR, LF]"
      have "r = [] \<or> r = [CR]"
        using a False f(1) by (cases r; cases "tl r") (auto simp: starts_with_iff prefix_def)
      then show False using f(1) a by auto
    qed
    then show ?thesis using False IH f(2) by auto
  qed
qed simp_all

definition prepend :: "json list \<Rightarrow> (a2a_sse_parse_error, json list) result \<times> string \<Rightarrow> (a2a_sse_parse_error, json list) result \<times> string" where
  "prepend vs x = (res_bind (fst x) (\<lambda>ws. Ok (vs @ ws)), snd x)"

lemma drain_append:
  "(case drain_events from_str p of
      (Inl e, _) \<Rightarrow> fst (drain_events from_str (p @ s)) = Err e
    | (Inr vs, q) \<Rightarrow> drain_events from_str (p @ s) = prepend vs (drain_events from_str (q @ s)))"
proof (induction from_str p rule: drain_events.induct)
  case (1 from_str p)
  show ?case
  proof (cases "find_event_delimiter p")
    case None
    then have "drain_events from_str p = (Ok [], p)" by (subst drain_events.simps) simp
    then show ?thesis by (cases "fst (drain_events from_str (p @ s))") (auto simp: prepend_def prod_eq_iff)
  next
    case (Some x)
    obtain i n where x: "x = (i, n)" by (cases x)
    note f = Some [unfolded x] delimiter_prefix [OF Some, of s, unfolded x]
    have b: "i + n \<le> length p" using delimiter_bounds f(1) by blast
    show ?thesis
    proof (cases "parse_sse_event_bytes from_str (take i p)")
      case (Inl e)
      then show ?thesis using f b by (subst (1 2) drain_events.simps) simp
    next
      case (Inr v)
      have d: "drain_events from_str (p @ s) =
          (let (r, q) = drain_events from_str (drop (i + n) p @ s) in (res_bind r (\<lambda>vs. Ok (push_value v vs)), q))"
        "drain_events from_str p =
          (let (r, q) = drain_events from_str (drop (i + n) p) in (res_bind r (\<lambda>vs. Ok (push_value v vs)), q))"
        using f b Inr by (subst drain_events.simps, simp)+
      show ?thesis
        using "1.IH" [OF Some x [symmetric] refl Inr] unfolding d
        by (cases "fst (drain_events from_str (drop (i + n) p))")
           (auto simp: prepend_def push_value_def res_bind_def split: prod.splits sum.splits option.splits)
    qed
  qed
qed

text \<open>A body that arrives in chunks: each chunk is fed, then the decoder is finished.\<close>

fun decode_chunks ::
  "(string \<Rightarrow> (string, json) result) \<Rightarrow> string list \<Rightarrow> a2a_sse_decoder \<Rightarrow> (a2a_sse_parse_error, json list) result" where
  "decode_chunks from_str [] d = decoder_finish from_str d"
| "decode_chunks from_str (c # cs) d =
     (let (r, d') = decoder_feed from_str c d
      in res_bind r (\<lambda>vs. res_bind (decode_chunks from_str cs d') (\<lambda>ws. Ok (vs @ ws))))"

definition decode_all :: "(string \<Rightarrow> (string, json) result) \<Rightarrow> string \<Rightarrow> (a2a_sse_parse_error, json list) result" where
  "decode_all from_str s = fst (drain_complete_events from_str True s)"

lemma decode_all_append:
  "(case drain_events from_str p of
      (Inl e, _) \<Rightarrow> decode_all from_str (p @ s) = Err e
    | (Inr vs, q) \<Rightarrow> decode_all from_str (p @ s) = res_bind (decode_all from_str (q @ s)) (\<lambda>ws. Ok (vs @ ws)))"
  using drain_append [of from_str p s]
  by (auto simp: decode_all_def drain_complete_events_def prepend_def res_bind_def split: prod.splits sum.splits if_splits)

lemma decode_chunks_all: "decode_chunks from_str cs d = decode_all from_str (dec_pending d @ concat cs)"
proof (induction cs arbitrary: d)
  case Nil
  show ?case by (simp add: decoder_finish_def decode_all_def)
next
  case (Cons c cs)
  obtain r p where dr: "drain_events from_str (dec_pending d @ c) = (r, p)" by (rule prod.exhaust)
  have f: "decoder_feed from_str c d = (r, d\<lparr>dec_pending := p\<rparr>)"
    using dr by (cases r) (simp_all add: decoder_feed_def drain_complete_events_def)
  show ?case
    using decode_all_append [of from_str "dec_pending d @ c" "concat cs"] dr f Cons.IH [of "d\<lparr>dec_pending := p\<rparr>"]
    by (cases r) simp_all
qed

lemma parse_as_chunks:
  "parse_a2a_sse_json_rpc_chunks from_str (concat chunks) =
     res_bind (decode_chunks from_str chunks decoder_new) (\<lambda>out.
       if out = [] \<and> (starts_with (trim (concat chunks)) ''{'' \<or> starts_with (trim (concat chunks)) ''['')
       then Err MissingDataLines else Ok out)"
proof -
  have "decode_chunks from_str [concat chunks] decoder_new = decode_chunks from_str chunks decoder_new"
    by (simp only: decode_chunks_all) simp
  then have *: "(let (r, d') = decoder_feed from_str (concat chunks) decoder_new
      in res_bind r (\<lambda>vs. res_bind (decoder_finish from_str d') (\<lambda>ws. Ok (vs @ ws)))) = decode_chunks from_str chunks decoder_new"
    by simp
  have "trim (concat chunks) \<noteq> []" if "starts_with (trim (concat chunks)) [c]" for c
    using that by (auto simp: starts_with_iff)
  then show ?thesis
    unfolding * [symmetric] parse_a2a_sse_json_rpc_chunks_def
    by (auto simp: res_bind_def Let_def split: prod.splits sum.splits)
qed

lemma sse_parse_chunks:
  "parse_a2a_sse_json_rpc_chunks from_str (concat chunks) = Ok vs \<Longrightarrow> decode_chunks from_str chunks decoder_new = Ok vs"
  unfolding parse_as_chunks by (auto simp: res_bind_eq_Inr split: if_splits)

text \<open>
  C22: the incremental decoder agrees with the full-body parser.  However a body is cut into chunks,
  feeding the chunks and finishing gives the values, or the first error, that parsing the whole body
  gives; the full-body parser adds only its refusal of a body that is bare JSON without any event.
\<close>

theorem sse_chunks_irrelevant:
  "parse_a2a_sse_json_rpc_chunks from_str (concat chunks) =
     res_bind (decode_chunks from_str chunks decoder_new) (\<lambda>out.
       if out = [] \<and> (starts_with (trim (concat chunks)) ''{'' \<or> starts_with (trim (concat chunks)) ''['')
       then Err MissingDataLines else Ok out)"
  by (rule parse_as_chunks)

subsection \<open>The loop of the decoder ends\<close>

text \<open>
  The loop of \<^verbatim>\<open>drain_complete_events\<close> as the code has it: its condition and its body on the pending buffer,
  the values pushed so far, and the error that made it return.
\<close>

definition drain_cond :: "string \<times> json list \<times> a2a_sse_parse_error option \<Rightarrow> bool" where
  "drain_cond = (\<lambda>(pending, out, e). e = None \<and> find_event_delimiter pending \<noteq> None)"

definition drain_body ::
  "(string \<Rightarrow> (string, json) result) \<Rightarrow> string \<times> json list \<times> a2a_sse_parse_error option
   \<Rightarrow> string \<times> json list \<times> a2a_sse_parse_error option" where
  "drain_body from_str = (\<lambda>(pending, out, e).
     (case find_event_delimiter pending of
        None \<Rightarrow> (pending, out, e)
      | Some (event_end, delimiter_len) \<Rightarrow>
          (let rest = drop delimiter_len (drop event_end pending)
           in (case parse_sse_event_bytes from_str (take event_end pending) of
                 Inl err \<Rightarrow> (rest, out, Some err)
               | Inr v \<Rightarrow> (rest, out @ push_value v [], None)))))"

lemma push_value_append: "push_value v vs = push_value v [] @ vs"
  by (simp add: push_value_def split: option.split)

lemma drain_loop:
  "\<exists>p out' e. while_option drain_cond (drain_body from_str) (pending, out, None) = Some (p, out', e)
     \<and> \<not> drain_cond (p, out', e) \<and> length p \<le> length pending
     \<and> (case e of None \<Rightarrow> \<exists>vs. drain_events from_str pending = (Ok vs, p) \<and> out' = out @ vs
                | Some err \<Rightarrow> drain_events from_str pending = (Err err, p))"
proof (induction pending arbitrary: out rule: length_induct)
  case (1 pending)
  show ?case
  proof (cases "find_event_delimiter pending")
    case None
    then show ?thesis
      by (subst while_option_unfold) (simp add: drain_cond_def drain_events.simps [of _ pending])
  next
    case (Some d)
    then obtain i n where d: "find_event_delimiter pending = Some (i, n)" by (cases d) simp
    define rest where "rest = drop (i + n) pending"
    have shorter: "length rest < length pending" using delimiter_bounds [OF d] unfolding rest_def length_drop by linarith
    have unfold: "while_option drain_cond (drain_body from_str) (pending, out, None)
        = while_option drain_cond (drain_body from_str) (drain_body from_str (pending, out, None))"
      by (subst while_option_unfold) (simp add: drain_cond_def d)
    show ?thesis
    proof (cases "parse_sse_event_bytes from_str (take i pending)")
      case (Inl err)
      then have "drain_body from_str (pending, out, None) = (rest, out, Some err)" by (simp add: drain_body_def d rest_def Let_def add.commute)
      moreover have "while_option drain_cond (drain_body from_str) (rest, out, Some err) = Some (rest, out, Some err)"
        by (subst while_option_unfold) (simp add: drain_cond_def)
      moreover have "drain_events from_str pending = (Err err, rest)"
        using Inl d by (simp add: drain_events.simps [of _ pending] rest_def Let_def)
      ultimately show ?thesis using unfold shorter by (simp add: drain_cond_def)
    next
      case (Inr v)
      let ?out = "out @ push_value v []"
      have body: "drain_body from_str (pending, out, None) = (rest, ?out, None)"
        using Inr by (simp add: drain_body_def d rest_def Let_def add.commute)
      obtain p out' e where ih: "while_option drain_cond (drain_body from_str) (rest, ?out, None) = Some (p, out', e)"
        "\<not> drain_cond (p, out', e)" "length p \<le> length rest"
        "case e of None \<Rightarrow> \<exists>vs. drain_events from_str rest = (Ok vs, p) \<and> out' = ?out @ vs
           | Some err \<Rightarrow> drain_events from_str rest = (Err err, p)"
        using "1.IH" shorter by meson
      have ev: "drain_events from_str pending
          = (let (r, p) = drain_events from_str rest in (res_bind r (\<lambda>vs. Ok (push_value v vs)), p))"
        using Inr d by (simp add: drain_events.simps [of _ pending] rest_def Let_def)
      have "case e of None \<Rightarrow> \<exists>vs. drain_events from_str pending = (Ok vs, p) \<and> out' = out @ vs
          | Some err \<Rightarrow> drain_events from_str pending = (Err err, p)"
      proof (cases e)
        case None
        then obtain vs where "drain_events from_str rest = (Ok vs, p)" "out' = ?out @ vs" using ih(4) by auto
        then show ?thesis using None push_value_append [of v vs] by (simp add: ev)
      qed (use ih(4) in \<open>simp add: ev\<close>)
      then show ?thesis using unfold body ih(1-3) shorter by force
    qed
  qed
qed

text \<open>
  C24: The decoder's loop ends on every buffer: run as a while loop it reaches a state in which its condition
  is false, the buffer it leaves is no longer than the one it got, and its outcome is that of the
  recursive definition the other theorems speak about.
\<close>

theorem drain_loop_terminates:
  "\<exists>p out e. while_option drain_cond (drain_body from_str) (pending, [], None) = Some (p, out, e)
     \<and> \<not> drain_cond (p, out, e) \<and> length p \<le> length pending
     \<and> drain_events from_str pending = ((case e of None \<Rightarrow> Ok out | Some err \<Rightarrow> Err err), p)"
proof -
  obtain p out e where "while_option drain_cond (drain_body from_str) (pending, [], None) = Some (p, out, e)"
    "\<not> drain_cond (p, out, e)" "length p \<le> length pending"
    "case e of None \<Rightarrow> \<exists>vs. drain_events from_str pending = (Ok vs, p) \<and> out = [] @ vs
       | Some err \<Rightarrow> drain_events from_str pending = (Err err, p)"
    using drain_loop [of from_str pending "[]"] by blast
  then show ?thesis by (cases e) auto
qed

end
