(* ===== verification/Cluster_Forward.thy ===== *)
theory Cluster_Forward
  imports Net_Guard Sse Core_Errors
begin

text \<open>
  Forwarding of agent-to-agent requests to another runner (\<^verbatim>\<open>baml-rt-router/src/forward.rs\<close>).  The
  HTTP exchange is a parameter: what the peer answers is a status and the sequence of body chunks the
  client hands out, each either bytes or a transport error; the sequence ends at the end of the body.
\<close>

definition MAX_RESPONSE_BYTES :: nat where
  "MAX_RESPONSE_BYTES = 50 * 1024 * 1024"

record forward_target =
  ft_url :: parsed_url
  ft_host :: string
  ft_resolved_addrs :: "socket_addr list"

text \<open>
  The setters of the URL library as its documentation gives them: user name and password can only be
  set on a URL that is a base and has a host, path segments only on a base.
\<close>

definition set_username :: "string \<Rightarrow> parsed_url \<Rightarrow> parsed_url option" where
  "set_username n u = (if u_is_base u \<and> u_host u \<noteq> None then Some (u\<lparr>u_username := n\<rparr>) else None)"

definition set_password :: "string option \<Rightarrow> parsed_url \<Rightarrow> parsed_url option" where
  "set_password p u = (if u_is_base u \<and> u_host u \<noteq> None then Some (u\<lparr>u_password := p\<rparr>) else None)"

definition set_path_segments :: "string list \<Rightarrow> parsed_url \<Rightarrow> parsed_url option" where
  "set_path_segments ps u = (if u_is_base u then Some (u\<lparr>u_path := ps\<rparr>) else None)"

definition build_a2a_forward_url :: "parsed_url \<Rightarrow> string \<Rightarrow> string \<Rightarrow> parsed_url res" where
  "build_a2a_forward_url validated agent_package agent_instance_id =
     (case set_username [] validated of
        None \<Rightarrow> Err (InvalidArgument ''cannot clear username on endpoint URL'')
      | Some u1 \<Rightarrow>
     (case set_password None u1 of
        None \<Rightarrow> Err (InvalidArgument ''cannot clear password on endpoint URL'')
      | Some u2 \<Rightarrow>
     (case set_path_segments [''agents'', agent_package, agent_instance_id, ''a2a''] (u2\<lparr>u_query := None, u_fragment := None\<rparr>) of
        None \<Rightarrow> Err (InvalidArgument ''endpoint URL cannot have path segments'')
      | Some u3 \<Rightarrow> Ok u3)))"

definition resolve_forward_target ::
  "(string \<Rightarrow> (string, parsed_url) result) \<Rightarrow> (string \<Rightarrow> (string, socket_addr list) result) \<Rightarrow> (ip_addr \<Rightarrow> string)
   \<Rightarrow> string \<Rightarrow> string \<Rightarrow> string \<Rightarrow> forward_target res" where
  "resolve_forward_target url_parse lookup_host show_ip endpoint agent_package agent_instance_id =
     (case resolve_and_validate_cluster_endpoint url_parse lookup_host endpoint of
        Inl e \<Rightarrow> Err (InvalidArgument (''cluster endpoint rejected: '' @ e))
      | Inr (validated, resolved_addrs) \<Rightarrow>
          res_bind (build_a2a_forward_url validated agent_package agent_instance_id) (\<lambda>forward_url.
            Ok \<lparr>ft_url = forward_url,
                ft_host = (case u_host validated of
                             Some (Domain d) \<Rightarrow> d
                           | Some (HostV4 a) \<Rightarrow> show_ip (V4 a)
                           | Some (HostV6 a) \<Rightarrow> show_ip (V6 a)
                           | None \<Rightarrow> []),
                ft_resolved_addrs = resolved_addrs\<rparr>))"

subsection \<open>Reading the response\<close>

type_synonym body_chunk = "(string, string) result"

record http_response =
  hr_success :: bool
  hr_status :: string
  hr_chunks :: "body_chunk list"

fun read_capped :: "nat \<Rightarrow> nat \<Rightarrow> string \<Rightarrow> body_chunk list \<Rightarrow> string res" where
  "read_capped max_bytes ttl buf [] = Ok buf"
| "read_capped max_bytes ttl buf (Inl e # cs) = Err (Io (''cluster A2A response read failed: '' @ e))"
| "read_capped max_bytes ttl buf (Inr chunk # cs) =
     (if ttl + length chunk > max_bytes
      then Err (Io (''cluster A2A response body exceeded '' @ show_nat max_bytes @ ''-byte cap''))
      else read_capped max_bytes (ttl + length chunk) (buf @ chunk) cs)"

definition read_body_capped :: "nat \<Rightarrow> body_chunk list \<Rightarrow> string res" where
  "read_body_capped max_bytes chunks = read_capped max_bytes 0 [] chunks"

definition sse_error_text :: "a2a_sse_parse_error \<Rightarrow> string" where
  "sse_error_text e =
     (case e of
        MissingDataLines \<Rightarrow> ''SSE stream contained non-whitespace text but no data: lines''
      | SseUtf8 \<Rightarrow> ''SSE stream event is not valid UTF-8: ''
      | SseJson m \<Rightarrow> ''invalid JSON in SSE data payload: '' @ m)"

fun read_lossy :: "nat \<Rightarrow> nat \<Rightarrow> string \<Rightarrow> body_chunk list \<Rightarrow> string" where
  "read_lossy max_bytes ttl buf [] = buf"
| "read_lossy max_bytes ttl buf (Inl e # cs) = buf"
| "read_lossy max_bytes ttl buf (Inr chunk # cs) =
     (if ttl + length chunk > max_bytes then buf
      else read_lossy max_bytes (ttl + length chunk) (buf @ chunk) cs)"

text \<open>
  The HTTP client: building it, building a request for a URL and a body, and executing the request.
  \<open>hx_lossy\<close> replaces the bytes of an error body that are not UTF-8.
\<close>

record 'req http_ops =
  hx_build :: "http_client \<Rightarrow> (string, http_client) result"
  hx_request :: "http_client \<Rightarrow> parsed_url \<Rightarrow> json \<Rightarrow> (string, 'req) result"
  hx_execute :: "http_client \<Rightarrow> 'req \<Rightarrow> (string, http_response) result"
  hx_lossy :: "string \<Rightarrow> string"

definition read_body_lossy :: "'req http_ops \<Rightarrow> nat \<Rightarrow> body_chunk list \<Rightarrow> string" where
  "read_body_lossy H max_bytes chunks = hx_lossy H (read_lossy max_bytes 0 [] chunks)"

definition forward_client :: "forward_target \<Rightarrow> http_client" where
  "forward_client target =
     \<lparr>hc_connect_timeout = 5, hc_timeout = 60, hc_follow_redirects = False,
      hc_resolve = (ft_host target, ft_resolved_addrs target)\<rparr>"

text \<open>The exchange both variants share: the response, or the error they return early.\<close>

definition forward_exchange :: "'req http_ops \<Rightarrow> forward_target \<Rightarrow> json \<Rightarrow> http_response res" where
  "forward_exchange H target body =
     (case hx_build H (forward_client target) of
        Inl e \<Rightarrow> Err (Io (''HTTP client build failed: '' @ e))
      | Inr client \<Rightarrow>
     (case hx_request H client (ft_url target) body of
        Inl e \<Rightarrow> Err (Io (''cluster A2A request build: '' @ e))
      | Inr request \<Rightarrow>
     (case hx_execute H client request of
        Inl e \<Rightarrow> Err (Io (''cluster A2A forward failed: '' @ e))
      | Inr resp \<Rightarrow>
          if \<not> hr_success resp
          then Err (Io (''cluster A2A forward returned '' @ hr_status resp @ '': ''
                        @ truncate_body (read_body_lossy H 512 (hr_chunks resp)) 512))
          else Ok resp)))"

definition forward_request_inner ::
  "(string \<Rightarrow> (string, json) result) \<Rightarrow> 'req http_ops \<Rightarrow> forward_target \<Rightarrow> json \<Rightarrow> json list res" where
  "forward_request_inner from_str H target body =
     res_bind (forward_exchange H target body) (\<lambda>resp.
       res_bind (read_body_capped MAX_RESPONSE_BYTES (hr_chunks resp)) (\<lambda>body_bytes.
         if \<not> utf8_valid body_bytes then Err (Io ''cluster A2A response body is not UTF-8: '')
         else (case parse_a2a_sse_json_rpc_chunks from_str body_bytes of
                 Inl e \<Rightarrow> Err (Io (''cluster A2A SSE parse: '' @ sse_error_text e))
               | Inr vs \<Rightarrow> Ok vs)))"

definition cluster_forward_error_label :: "baml_error \<Rightarrow> string" where
  "cluster_forward_error_label e =
     (case e of
        InvalidArgument _ \<Rightarrow> ''invalid_argument''
      | Io m \<Rightarrow>
          if str_contains m ''forward returned'' then ''http_error''
          else if str_contains m ''parse'' \<or> str_contains m ''JSON'' then ''parse_error''
          else ''transport_error''
      | _ \<Rightarrow> ''error'')"

text \<open>\<^verbatim>\<open>forward_request\<close>: the result and the label of the metric it records.\<close>

definition forward_request ::
  "(string \<Rightarrow> (string, json) result) \<Rightarrow> 'req http_ops \<Rightarrow> forward_target \<Rightarrow> json \<Rightarrow> json list res \<times> string" where
  "forward_request from_str H target body =
     (let out = forward_request_inner from_str H target body
      in (out, case out of Inr _ \<Rightarrow> ''success'' | Inl e \<Rightarrow> cluster_forward_error_label e))"

subsection \<open>Streaming the response\<close>

text \<open>
  The reader task of \<^verbatim>\<open>forward_stream_request\<close>: what it sends to the stream and the label it records.
  \<open>room\<close> is the number of values the receiver takes before it is dropped.
\<close>

fun stream_read ::
  "(string \<Rightarrow> (string, json) result) \<Rightarrow> nat \<Rightarrow> nat \<Rightarrow> a2a_sse_decoder \<Rightarrow> body_chunk list \<Rightarrow> json list \<times> string" where
  "stream_read from_str room ttl d [] =
     (case decoder_finish from_str d of
        Inl _ \<Rightarrow> ([], ''parse_error'')
      | Inr vs \<Rightarrow> (take room vs, ''success''))"
| "stream_read from_str room ttl d (Inl e # cs) = ([], ''transport_error'')"
| "stream_read from_str room ttl d (Inr chunk # cs) =
     (if ttl + length chunk > MAX_RESPONSE_BYTES then ([], ''invalid_argument'')
      else (case decoder_feed from_str chunk d of
              (Inl _, _) \<Rightarrow> ([], ''parse_error'')
            | (Inr vs, d') \<Rightarrow>
                if room < length vs then (take room vs, ''success'')
                else (let (ws, label) = stream_read from_str (room - length vs) (ttl + length chunk) d' cs
                      in (vs @ ws, label))))"

definition forward_stream_request ::
  "(string \<Rightarrow> (string, json) result) \<Rightarrow> 'req http_ops \<Rightarrow> nat \<Rightarrow> forward_target \<Rightarrow> json
   \<Rightarrow> (json list) res \<times> string" where
  "forward_stream_request from_str H room target body =
     (case forward_exchange H target body of
        Inl e \<Rightarrow> (Err e, cluster_forward_error_label e)
      | Inr resp \<Rightarrow>
          (let (sent, label) = stream_read from_str room 0 decoder_new (hr_chunks resp) in (Ok sent, label)))"

subsection \<open>Properties\<close>

lemmas url_setters = set_username_def set_password_def set_path_segments_def

lemma parse_step:
  "(if \<not> b then Err e else (case p of Inl x \<Rightarrow> Err (f x) | Inr vs \<Rightarrow> Ok vs)) = Ok vs \<Longrightarrow> b \<and> p = Ok vs"
  by (auto split: if_splits sum.splits)

lemma read_capped_ok:
  "read_capped m t buf cs = Ok body \<longleftrightarrow>
     (\<exists>bs. cs = map Inr bs \<and> body = buf @ concat bs \<and> (bs = [] \<or> t + length (concat bs) \<le> m))"
proof (induction m t buf cs rule: read_capped.induct)
  case (1 m t buf)
  then show ?case by auto
next
  case (2 m t buf e cs)
  then show ?case by (auto simp: Cons_eq_map_conv)
next
  case (3 m t buf chunk cs)
  show ?case
  proof (cases "t + length chunk > m")
    case True
    then show ?thesis by (auto simp: Cons_eq_map_conv)
  next
    case False
    then show ?thesis using 3 by (auto simp: Cons_eq_map_conv add.assoc)
  qed
qed

lemma stream_read_all:
  "decode_chunks from_str bs d = Ok vs \<Longrightarrow> t + length (concat bs) \<le> MAX_RESPONSE_BYTES
   \<Longrightarrow> stream_read from_str room t d (map Inr bs) = (take room vs, ''success'')"
proof (induction bs arbitrary: d vs room t)
  case Nil
  then show ?case by simp
next
  case (Cons b bs)
  obtain us d' where f: "decoder_feed from_str b d = (Ok us, d')"
    using Cons.prems(1) by (cases "decoder_feed from_str b d"; cases "fst (decoder_feed from_str b d)") auto
  then obtain ws where w: "decode_chunks from_str bs d' = Ok ws" "vs = us @ ws"
    using Cons.prems(1) by (auto simp: res_bind_eq_Inr)
  show ?case
    using Cons.IH [OF w(1), of "t + length b" "room - length us"] Cons.prems(2) f w(2) by simp
qed

text \<open>
  C23: streaming and buffered forwarding agree.  Whenever forwarding with a buffered response
  succeeds, the streaming variant on the same target, body and peer succeeds too and sends the receiver
  the same values in the same order, up to the point where the receiver stops taking them.
\<close>

theorem forward_stream_agrees:
  assumes "forward_request from_str H target body = (Ok vs, label)"
  shows "forward_stream_request from_str H room target body = (Ok (take room vs), label)"
proof -
  have i: "forward_request_inner from_str H target body = Ok vs" "label = ''success''"
    using assms by (auto simp: forward_request_def Let_def)
  from i(1) obtain resp bytes where a: "forward_exchange H target body = Ok resp"
    "read_body_capped MAX_RESPONSE_BYTES (hr_chunks resp) = Ok bytes" "parse_a2a_sse_json_rpc_chunks from_str bytes = Ok vs"
    by (auto simp: forward_request_inner_def res_bind_eq_Inr dest!: parse_step)
  from a(2) obtain bs where b: "hr_chunks resp = map Inr bs" "bytes = concat bs"
    "bs = [] \<or> length (concat bs) \<le> MAX_RESPONSE_BYTES"
    by (auto simp: read_body_capped_def read_capped_ok)
  then have "decode_chunks from_str bs decoder_new = Ok vs" using a(3) sse_parse_chunks by blast
  then show ?thesis
    using stream_read_all [of from_str bs decoder_new vs 0 room] a b i(2)
    by (auto simp: forward_stream_request_def)
qed


definition peer_http :: "string http_ops" where
  "peer_http = \<lparr>hx_build = Inr, hx_request = (\<lambda>_ _ _. Inr []),
     hx_execute = (\<lambda>_ _. Inr \<lparr>hr_success = True, hr_status = ''200'',
       hr_chunks = [Inr ''data: 1'', Inr (LF # ''data: 2''), Inr [LF, LF], Inr ''data: 3'']\<rparr>), hx_lossy = id\<rparr>"

definition peer_target :: forward_target where
  "peer_target = \<lparr>ft_url = peer_url, ft_host = ''runner-0'', ft_resolved_addrs = [peer_addr]\<rparr>"

lemma peer_stream:
  "utf8_valid (''data: 1'' @ LF # ''data: 2'' @ LF # LF # ''data: 3'')"
  "parse_a2a_sse_json_rpc_chunks (\<lambda>s. Inr (JString s)) (''data: 1'' @ LF # ''data: 2'' @ LF # LF # ''data: 3'')
     = Ok [JString (''1'' @ LF # ''2''), JString ''3'']"
  by code_simp+

theorem forward_stream_agrees_witness:
  "forward_request (\<lambda>s. Inr (JString s)) peer_http peer_target JNull
       = (Ok [JString (''1'' @ LF # ''2''), JString ''3''], ''success'')
   \<and> forward_stream_request (\<lambda>s. Inr (JString s)) peer_http 1 peer_target JNull
       = (Ok [JString (''1'' @ LF # ''2'')], ''success'')"
proof -
  have *: "forward_request (\<lambda>s. Inr (JString s)) peer_http peer_target JNull
       = (Ok [JString (''1'' @ LF # ''2''), JString ''3''], ''success'')"
    by (simp add: forward_request_def forward_request_inner_def forward_exchange_def peer_http_def read_body_capped_def
        MAX_RESPONSE_BYTES_def peer_stream(1) peer_stream(2) [simplified] Let_def)
  from * forward_stream_agrees [OF *, of 1] show ?thesis by simp
qed


end
