(* ===== verification/Event_Routing.thy ===== *)
theory Event_Routing
  imports Semiotic_Stores "HOL-Library.Multiset"
begin

text \<open>
  Host events: subscriptions and their matching (\<^verbatim>\<open>event_subscription.rs\<close>), route keys and the discovery
  catalogue (\<^verbatim>\<open>agent_routing/\<close>), dispatch requests and their task scope (\<^verbatim>\<open>dispatch.rs\<close>), stable ids
  (\<^verbatim>\<open>host_poll_lineage.rs\<close>), produced events (\<^verbatim>\<open>event_producer.rs\<close>) and the fan-out to subscribers
  (\<^verbatim>\<open>event_delivery.rs\<close>), all of \<^verbatim>\<open>baml-rt-core/src\<close>.  The state behind the port that delivers to an
  agent and behind the recorder is a type parameter; both are arguments.
\<close>

unbundle bit_operations_syntax

subsection \<open>Subscriptions\<close>

definition parse_trimmed :: "string \<Rightarrow> string option" where
  "parse_trimmed value = (let trimmed = trim value in if trimmed = [] then None else Some trimmed)"

definition parse_lowercased :: "string \<Rightarrow> string option" where
  "parse_lowercased value = (let trimmed = trim value in if trimmed = [] then None else Some (to_lowercase trimmed))"

definition collect_parsed :: "string list \<Rightarrow> (string \<Rightarrow> string option) \<Rightarrow> string list" where
  "collect_parsed values parse = List.map_filter parse values"

record event_subscription =
  es_schema_versions :: "string list"
  es_source_kinds :: "string list"
  es_source_keys :: "string list"
  es_source_key_prefixes :: "string list"

record event_subscription_filter =
  required_schema_versions :: "string list"
  required_source_kinds :: "string list"

record published_event =
  pe_schema_version :: string
  pe_source_kind :: string
  pe_source_key :: string

datatype published_event_build_error = EmptySchemaVersion | EmptySourceKind | EmptySourceKey

definition published_event_try_new ::
  "string \<Rightarrow> string \<Rightarrow> string \<Rightarrow> (published_event_build_error, published_event) result" where
  "published_event_try_new schema_version source_kind source_key =
     res_bind (ok_or (parse_trimmed schema_version) EmptySchemaVersion) (\<lambda>sv.
     res_bind (ok_or (parse_lowercased source_kind) EmptySourceKind) (\<lambda>sk.
     res_bind (ok_or (parse_trimmed source_key) EmptySourceKey) (\<lambda>key.
       Ok \<lparr>pe_schema_version = sv, pe_source_kind = sk, pe_source_key = key\<rparr>)))"

definition is_unconstrained :: "event_subscription \<Rightarrow> bool" where
  "is_unconstrained s \<longleftrightarrow>
     es_schema_versions s = [] \<and> es_source_kinds s = [] \<and> es_source_keys s = [] \<and> es_source_key_prefixes s = []"

definition matches_filter :: "event_subscription \<Rightarrow> event_subscription_filter \<Rightarrow> bool" where
  "matches_filter s flt =
     (let schema_ok = required_schema_versions flt = []
            \<or> list_ex (\<lambda>schema. schema \<in> set (required_schema_versions flt)) (es_schema_versions s);
          source_ok = required_source_kinds flt = []
            \<or> list_ex (\<lambda>kind. kind \<in> set (required_source_kinds flt)) (es_source_kinds s)
      in schema_ok \<and> source_ok)"

definition matches_published_event :: "event_subscription \<Rightarrow> published_event \<Rightarrow> bool" where
  "matches_published_event s event =
     (if is_unconstrained s then False
      else
        let schema_ok = es_schema_versions s = []
              \<or> list_ex (\<lambda>schema. schema = pe_schema_version event) (es_schema_versions s);
            source_kind_ok = es_source_kinds s = []
              \<or> list_ex (\<lambda>kind. kind = pe_source_kind event) (es_source_kinds s);
            source_key_ok = es_source_keys s = []
              \<or> list_ex (\<lambda>key. key = pe_source_key event) (es_source_keys s);
            source_key_prefix_ok = es_source_key_prefixes s = []
              \<or> list_ex (\<lambda>pfx. starts_with (pe_source_key event) pfx) (es_source_key_prefixes s)
        in schema_ok \<and> source_kind_ok \<and> source_key_ok \<and> source_key_prefix_ok)"

definition filter_new :: "string list \<Rightarrow> string list \<Rightarrow> event_subscription_filter" where
  "filter_new schema_versions source_kinds =
     \<lparr>required_schema_versions = collect_parsed schema_versions parse_trimmed,
      required_source_kinds = collect_parsed source_kinds parse_lowercased\<rparr>"

definition filter_is_empty :: "event_subscription_filter \<Rightarrow> bool" where
  "filter_is_empty flt \<longleftrightarrow> required_schema_versions flt = [] \<and> required_source_kinds flt = []"

definition subscriptions_match_filter :: "event_subscription list \<Rightarrow> event_subscription_filter \<Rightarrow> bool" where
  "subscriptions_match_filter subs flt = (if filter_is_empty flt then True else list_ex (\<lambda>s. matches_filter s flt) subs)"

definition subscriptions_match_published_event :: "event_subscription list \<Rightarrow> published_event \<Rightarrow> bool" where
  "subscriptions_match_published_event subs event = list_ex (\<lambda>s. matches_published_event s event) subs"

subsection \<open>Route keys and discovery\<close>

definition is_valid_identifier :: "string \<Rightarrow> bool" where
  "is_valid_identifier s = list_all (\<lambda>c. is_ascii_alphanumeric c \<or> c = CHR ''-'' \<or> c = CHR ''_'') s"

definition agent_package_name_parse :: "string \<Rightarrow> string option" where
  "agent_package_name_parse raw =
     (if trim raw = [] \<or> raw \<noteq> trim raw \<or> \<not> is_valid_identifier raw then None else Some raw)"

definition agent_instance_id_parse :: "string \<Rightarrow> string option" where
  "agent_instance_id_parse raw =
     (if trim raw = [] \<or> raw \<noteq> trim raw \<or> \<not> is_valid_identifier raw then None else Some raw)"

record agent_route_key =
  ark_package :: string
  ark_instance :: string

definition route_key_from_request :: "json \<Rightarrow> agent_route_key res" where
  "route_key_from_request request =
     res_bind (ok_or (Option.bind (json_get request ''params'') as_object)
       (InvalidArgument ''params must be an object'')) (\<lambda>params.
     res_bind (ok_or (Option.bind (obj_get params ''metadata'') as_object)
       (InvalidArgument ''params.metadata required for routing'')) (\<lambda>meta.
     res_bind (ok_or (Option.bind (obj_get meta ''target'') as_object)
       (InvalidArgument ''params.metadata.target required'')) (\<lambda>target.
     res_bind (ok_or (Option.bind (obj_get target ''agent_package'') as_str)
       (InvalidArgument ''params.metadata.target.agent_package required'')) (\<lambda>package_str.
     let instance_str = (case Option.bind (obj_get target ''agent_instance_id'') as_str of
                           Some s \<Rightarrow> s | None \<Rightarrow> ''default'') in
     res_bind (ok_or (agent_package_name_parse package_str)
       (InvalidArgument (''invalid agent_package '' @ CHR 0x27 # package_str @ [CHR 0x27]))) (\<lambda>package.
     res_bind (ok_or (agent_instance_id_parse instance_str)
       (InvalidArgument (''invalid agent_instance_id '' @ CHR 0x27 # instance_str @ [CHR 0x27]))) (\<lambda>instance_id.
       Ok \<lparr>ark_package = package, ark_instance = instance_id\<rparr>))))))"

record agent_card =
  ac_name :: string
  ac_version :: string
  ac_content_hash :: "string option"
  ac_repository_version :: "nat option"
  ac_agent_package :: string
  ac_agent_instance_id :: string
  ac_tools :: "string list"
  ac_baml_functions :: "string list"
  ac_description :: "string option"
  ac_capabilities :: "string list"
  ac_tags :: "string list"
  ac_subscriptions :: "event_subscription list"

record agent_discovery_entry =
  ade_agent_package :: string
  ade_agent_instance_id :: string
  ade_name :: string
  ade_version :: string
  ade_agent_card :: agent_card

record dispatch_target =
  dt_route :: agent_route_key
  dt_agent_id :: "string option"

subsection \<open>Stable ids\<close>

definition FNV_OFFSET_BASIS :: "64 word" where
  "FNV_OFFSET_BASIS = 0xcbf29ce484222325"

definition FNV_PRIME :: "64 word" where
  "FNV_PRIME = 0x00000100000001B3"

definition HASH_PART_SEPARATOR :: "64 word" where
  "HASH_PART_SEPARATOR = 0x1f"

definition hash_byte :: "64 word \<Rightarrow> 64 word \<Rightarrow> 64 word" where
  "hash_byte byte digest = (digest XOR byte) * FNV_PRIME"

definition hash_digest_extend :: "64 word \<Rightarrow> string \<Rightarrow> 64 word" where
  "hash_digest_extend digest part = hash_byte HASH_PART_SEPARATOR (fold (\<lambda>c. hash_byte (word_of_nat (code c))) part digest)"

definition hash_digest :: "string list \<Rightarrow> 64 word" where
  "hash_digest parts = foldl hash_digest_extend FNV_OFFSET_BASIS parts"

datatype stable_id_lane = Upper | Lower

definition lane_as_str :: "stable_id_lane \<Rightarrow> string" where
  "lane_as_str l = (case l of Upper \<Rightarrow> ''upper'' | Lower \<Rightarrow> ''lower'')"

definition hash_digest_with_namespace :: "string \<Rightarrow> stable_id_lane \<Rightarrow> string list \<Rightarrow> 64 word" where
  "hash_digest_with_namespace namespace lane parts =
     foldl hash_digest_extend (hash_digest [namespace, lane_as_str lane]) parts"

definition stable_id_parts :: "string \<Rightarrow> string list \<Rightarrow> 64 word \<times> 64 word" where
  "stable_id_parts namespace parts =
     (max (hash_digest_with_namespace namespace Upper parts) 1, max (hash_digest_with_namespace namespace Lower parts) 1)"

fun hex_digits :: "nat \<Rightarrow> nat \<Rightarrow> string" where
  "hex_digits 0 n = []"
| "hex_digits (Suc k) n = hex_digits k (n div 16) @ [hex_char (n mod 16)]"

definition hash_event_id :: "string \<Rightarrow> string list \<Rightarrow> string" where
  "hash_event_id pfx parts = pfx @ ''-'' @ hex_digits 16 (unat (hash_digest parts))"

definition stable_external_id :: "string \<Rightarrow> string list \<Rightarrow> string" where
  "stable_external_id namespace parts = hash_event_id namespace parts"

definition poll_batch_message_id :: "string \<Rightarrow> string \<Rightarrow> string list \<Rightarrow> string" where
  "poll_batch_message_id source_key source_cursor source_message_ts =
     (let first_ts = (case source_message_ts of [] \<Rightarrow> [] | t # _ \<Rightarrow> t);
          last_ts = (if source_message_ts = [] then [] else last source_message_ts)
      in hash_event_id ''td-poll-batch''
           [source_key, source_cursor, first_ts, last_ts, show_nat (length source_message_ts)])"

record poll_lineage_seed =
  pls_source_kind :: string
  pls_source_key :: string
  pls_source_cursor :: "string option"
  pls_source_message_ts :: "string list"

record host_poll_lineage =
  hpl_context_id :: string
  hpl_correlation_id :: string
  hpl_source_cursor :: "string option"
  hpl_source_message_ts :: "string list"
  hpl_poll_batch_id :: string

definition temporal_id :: "string \<Rightarrow> 64 word \<times> 64 word \<Rightarrow> string" where
  "temporal_id pfx p = pfx @ ''-'' @ show_nat (unat (fst p)) @ ''-'' @ show_nat (unat (snd p))"

definition mint_host_poll_lineage :: "poll_lineage_seed \<Rightarrow> host_poll_lineage option" where
  "mint_host_poll_lineage seed =
     (case pls_source_cursor seed of
        None \<Rightarrow> None
      | Some source_cursor \<Rightarrow>
          let seed_parts = [pls_source_kind seed, pls_source_key seed, source_cursor]
          in Some \<lparr>hpl_context_id = temporal_id ''ctx'' (stable_id_parts ''td-external-context'' seed_parts),
                   hpl_correlation_id = temporal_id ''corr'' (stable_id_parts ''td-external-correlation'' seed_parts),
                   hpl_source_cursor = Some source_cursor,
                   hpl_source_message_ts = pls_source_message_ts seed,
                   hpl_poll_batch_id = poll_batch_message_id (pls_source_key seed) source_cursor (pls_source_message_ts seed)\<rparr>)"

subsection \<open>Dispatch requests\<close>

record agent_dispatch_request =
  adr_routing_key :: string
  adr_message_type :: string
  adr_messages :: "json list"
  adr_context_id :: "string option"
  adr_task_id :: "string option"
  adr_message_id :: "string option"
  adr_source_kind :: "string option"
  adr_source_key :: "string option"
  adr_producer_key :: "string option"
  adr_metadata :: "json option"

record agent_dispatch_ack =
  ack_accepted :: bool
  ack_detail :: "string option"
  ack_context_id :: "string option"
  ack_task_id :: "string option"
  ack_message_id :: "string option"

definition with_resolved_scope :: "runtime_scope \<Rightarrow> agent_dispatch_ack \<Rightarrow> agent_dispatch_ack" where
  "with_resolved_scope scope ack =
     ack\<lparr>ack_context_id := Some (context_id scope), ack_message_id := Some (message_id scope),
         ack_task_id := task_id_opt scope\<rparr>"

definition scheduling_scope_from_dispatch_metadata :: "json \<Rightarrow> (string \<times> string) option" where
  "scheduling_scope_from_dispatch_metadata meta =
     Option.bind (Option.bind (json_get meta ''schedulingContextId'') as_str) (\<lambda>sched_ctx.
     Option.bind (Option.bind (json_get meta ''schedulingTaskId'') as_str) (\<lambda>sched_task.
       Some (sched_ctx, sched_task)))"

definition callback_scheduling_scopes_differ_from_dispatch :: "string \<Rightarrow> string \<Rightarrow> string \<Rightarrow> string \<Rightarrow> bool" where
  "callback_scheduling_scopes_differ_from_dispatch sched_ctx sched_task disp_ctx disp_task \<longleftrightarrow>
     sched_ctx \<noteq> disp_ctx \<or> sched_task \<noteq> disp_task"

definition ensure_dispatch_task_scope :: "agent_route_key \<Rightarrow> agent_dispatch_request \<Rightarrow> agent_dispatch_request" where
  "ensure_dispatch_task_scope target request =
     (if adr_task_id request \<noteq> None then request
      else (case (adr_context_id request, adr_message_id request) of
              (Some context, Some message) \<Rightarrow>
                request\<lparr>adr_task_id := Some (stable_external_id ''host-event-dispatch''
                  [context, message, adr_routing_key request, adr_message_type request,
                   case adr_source_kind request of Some k \<Rightarrow> k | None \<Rightarrow> [],
                   case adr_source_key request of Some k \<Rightarrow> k | None \<Rightarrow> [],
                   ark_package target, ark_instance target])\<rparr>
            | _ \<Rightarrow> request))"

text \<open>The synthetic scope is minted from the clock and a process-wide counter, so it is an argument.\<close>

definition invocation_scope_for_agent_dispatch ::
  "runtime_scope \<Rightarrow> string \<Rightarrow> agent_dispatch_request \<Rightarrow> runtime_scope" where
  "invocation_scope_for_agent_dispatch synthetic agent request =
     (case (adr_context_id request, adr_message_id request) of
        (Some context, Some message) \<Rightarrow>
          (case adr_task_id request of
             Some task \<Rightarrow> TaskScope context agent message task
           | None \<Rightarrow> MessageScope context agent message)
      | _ \<Rightarrow> synthetic)"

subsection \<open>Produced events\<close>

record produced_event =
  ev_routing_key :: string
  ev_schema_version :: string
  ev_source_kind :: string
  ev_source_key :: string
  ev_messages :: "json list"
  ev_context_id :: "string option"
  ev_task_id :: "string option"
  ev_message_id :: "string option"
  ev_producer_key :: "string option"
  ev_metadata :: "json option"

definition host_source_records ::
  "string \<Rightarrow> string \<Rightarrow> json \<Rightarrow> string option \<Rightarrow> json option \<Rightarrow> produced_event res" where
  "host_source_records source_kind source_key payload message metadata =
     res_bind (ok_or (parse_trimmed ''event:intake'')
       (InvalidArgument (''invalid source-records routing key: '' @ ''event:intake''))) (\<lambda>routing_key.
       Ok \<lparr>ev_routing_key = routing_key, ev_schema_version = ''host.source-records.v1'',
           ev_source_kind = source_kind, ev_source_key = source_key, ev_messages = [payload],
           ev_context_id = None, ev_task_id = None, ev_message_id = message, ev_producer_key = None,
           ev_metadata = metadata\<rparr>)"

definition as_published_event :: "produced_event \<Rightarrow> published_event" where
  "as_published_event e =
     \<lparr>pe_schema_version = ev_schema_version e, pe_source_kind = ev_source_kind e, pe_source_key = ev_source_key e\<rparr>"

definition into_dispatch_request :: "produced_event \<Rightarrow> agent_dispatch_request" where
  "into_dispatch_request e =
     \<lparr>adr_routing_key = ev_routing_key e, adr_message_type = ev_schema_version e, adr_messages = ev_messages e,
      adr_context_id = ev_context_id e, adr_task_id = ev_task_id e, adr_message_id = ev_message_id e,
      adr_source_kind = Some (ev_source_kind e), adr_source_key = Some (ev_source_key e),
      adr_producer_key = ev_producer_key e, adr_metadata = ev_metadata e\<rparr>"

datatype subscriber_delivery_failure = Rejected string | Dispatch string

fun failure_detail :: "subscriber_delivery_failure \<Rightarrow> string" where
  "failure_detail (Rejected d) = d"
| "failure_detail (Dispatch d) = d"

definition from_dispatch_error :: "baml_error \<Rightarrow> subscriber_delivery_failure" where
  "from_dispatch_error err = Dispatch (display_error err)"

record subscriber_acceptance =
  sa_agent_package :: string
  sa_agent_instance_id :: string
  sa_detail :: string

record event_delivery_outcome =
  subscribers_matched :: nat
  subscribers_accepted :: nat
  acceptances :: "subscriber_acceptance list"
  failures :: "(agent_route_key \<times> subscriber_delivery_failure) list"

subsection \<open>Fan-out\<close>

definition entry_route :: "agent_discovery_entry \<Rightarrow> agent_route_key option" where
  "entry_route entry =
     (case (agent_package_name_parse (ade_agent_package entry), agent_instance_id_parse (ade_agent_instance_id entry)) of
        (Some p, Some i) \<Rightarrow> Some \<lparr>ark_package = p, ark_instance = i\<rparr>
      | _ \<Rightarrow> None)"

definition matching_subscriber_routes :: "agent_discovery_entry list \<Rightarrow> published_event \<Rightarrow> agent_route_key list" where
  "matching_subscriber_routes entries event =
     List.map_filter entry_route
       (filter (\<lambda>entry. subscriptions_match_published_event (ac_subscriptions (ade_agent_card entry)) event) entries)"

type_synonym 's dispatch_port = "agent_route_key \<Rightarrow> agent_dispatch_request \<Rightarrow> 's \<Rightarrow> agent_dispatch_ack res \<times> 's"

definition empty_outcome :: event_delivery_outcome where
  "empty_outcome = \<lparr>subscribers_matched = 0, subscribers_accepted = 0, acceptances = [], failures = []\<rparr>"

definition note_dispatch ::
  "agent_route_key \<Rightarrow> agent_dispatch_ack res \<Rightarrow> event_delivery_outcome \<Rightarrow> event_delivery_outcome" where
  "note_dispatch target answer outcome =
     (case answer of
        Inr ack \<Rightarrow>
          if ack_accepted ack
          then outcome\<lparr>subscribers_accepted := subscribers_accepted outcome + 1,
                 acceptances := acceptances outcome @ [\<lparr>sa_agent_package = ark_package target,
                   sa_agent_instance_id = ark_instance target,
                   sa_detail = (case ack_detail ack of Some d \<Rightarrow> d | None \<Rightarrow> ''accepted'')\<rparr>]\<rparr>
          else outcome\<lparr>failures := failures outcome
                 @ [(target, Rejected (case ack_detail ack of Some d \<Rightarrow> d | None \<Rightarrow> ''rejected''))]\<rparr>
      | Inl err \<Rightarrow> outcome\<lparr>failures := failures outcome @ [(target, from_dispatch_error err)]\<rparr>)"

fun deliver_loop ::
  "'s dispatch_port \<Rightarrow> agent_dispatch_request \<Rightarrow> agent_route_key list \<Rightarrow> event_delivery_outcome \<times> 's
   \<Rightarrow> event_delivery_outcome \<times> 's" where
  "deliver_loop port request [] os = os"
| "deliver_loop port request (target # targets) (outcome, s) =
     (let (answer, s') = port target (ensure_dispatch_task_scope target request) s
      in deliver_loop port request targets (note_dispatch target answer outcome, s'))"

definition deliver_to_subscribers ::
  "agent_discovery_entry list \<Rightarrow> produced_event \<Rightarrow> 's dispatch_port \<Rightarrow> 's \<Rightarrow> event_delivery_outcome \<times> 's" where
  "deliver_to_subscribers entries event port s =
     (let targets = matching_subscriber_routes entries (as_published_event event)
      in if targets = [] then (empty_outcome, s)
         else deliver_loop port (into_dispatch_request event) targets
                (empty_outcome\<lparr>subscribers_matched := length targets\<rparr>, s))"

text \<open>The recorder writes provenance; the lookup finds the agent that is live on a route.\<close>

record 's host_ingress_recorder =
  record_source_poll :: "produced_event \<Rightarrow> 's \<Rightarrow> unit res \<times> 's"
  record_dispatch_rejected :: "agent_dispatch_request \<Rightarrow> dispatch_target \<Rightarrow> string \<Rightarrow> bool \<Rightarrow> 's \<Rightarrow> unit res \<times> 's"

record 's host_publish_service =
  hps_recorder :: "'s host_ingress_recorder option"
  hps_deployed_agent_lookup :: "(agent_route_key \<Rightarrow> string option) option"

fun record_failures ::
  "'s host_publish_service \<Rightarrow> 's host_ingress_recorder \<Rightarrow> agent_dispatch_request
   \<Rightarrow> (agent_route_key \<times> subscriber_delivery_failure) list \<Rightarrow> 's \<Rightarrow> 's" where
  "record_failures svc recorder request [] s = s"
| "record_failures svc recorder request ((route, Rejected _) # fs) s = record_failures svc recorder request fs s"
| "record_failures svc recorder request ((route, Dispatch detail) # fs) s =
     (let agent = (case hps_deployed_agent_lookup svc of Some lookup \<Rightarrow> lookup route | None \<Rightarrow> None);
          (_, s') = record_dispatch_rejected recorder request \<lparr>dt_route = route, dt_agent_id = agent\<rparr> detail True s
      in record_failures svc recorder request fs s')"

definition host_publish ::
  "'s host_publish_service \<Rightarrow> agent_discovery_entry list \<Rightarrow> produced_event \<Rightarrow> 's dispatch_port \<Rightarrow> 's
   \<Rightarrow> event_delivery_outcome res \<times> 's" where
  "host_publish svc entries event port s =
     (case hps_recorder svc of
        None \<Rightarrow> (let (outcome, s') = deliver_to_subscribers entries event port s in (Ok outcome, s'))
      | Some recorder \<Rightarrow>
          (case record_source_poll recorder event s of
             (Inl e, s1) \<Rightarrow> (Err e, s1)
           | (Inr _, s1) \<Rightarrow>
               (let (outcome, s2) = deliver_to_subscribers entries event port s1
                in (Ok outcome, record_failures svc recorder (into_dispatch_request event) (failures outcome) s2))))"

subsection \<open>Stable ids: lemmas\<close>

lemma fnv_prime_inj: "x * FNV_PRIME = y * FNV_PRIME \<Longrightarrow> x = y"
proof -
  assume "x * FNV_PRIME = y * FNV_PRIME"
  then have "x * (FNV_PRIME * 0xce965057aff6957b) = y * (FNV_PRIME * 0xce965057aff6957b)"
    by (simp add: mult.assoc [symmetric])
  moreover have "FNV_PRIME * 0xce965057aff6957b = 1" by (simp add: FNV_PRIME_def)
  ultimately show "x = y" by simp
qed

lemma xor_left_inj: "x XOR b = y XOR b \<Longrightarrow> x = y" for x y b :: "'a::len word"
proof -
  assume "x XOR b = y XOR b"
  then have "(x XOR b) XOR b = (y XOR b) XOR b" by simp
  then show "x = y" by (simp only: xor.assoc xor_self_eq xor.right_neutral)
qed

lemma hash_byte_inj: "hash_byte b x = hash_byte b y \<longleftrightarrow> x = y"
  unfolding hash_byte_def using fnv_prime_inj xor_left_inj by blast

lemma fold_hash_inj: "fold (\<lambda>c. hash_byte (f c)) cs x = fold (\<lambda>c. hash_byte (f c)) cs y \<longleftrightarrow> x = y"
  by (induction cs arbitrary: x y) (simp_all add: hash_byte_inj)

lemma extend_inj: "hash_digest_extend x part = hash_digest_extend y part \<longleftrightarrow> x = y"
  by (simp add: hash_digest_extend_def hash_byte_inj fold_hash_inj)

lemma foldl_extend_inj: "foldl hash_digest_extend x parts = foldl hash_digest_extend y parts \<longleftrightarrow> x = y"
  by (induction parts arbitrary: x y) (simp_all add: extend_inj)

lemma hash_byte_other: "hash_byte b x = hash_byte c x \<longleftrightarrow> b = c"
proof -
  have "b XOR x = c XOR x \<longleftrightarrow> b = c" using xor_left_inj by blast
  then show ?thesis unfolding hash_byte_def using fnv_prime_inj by (metis xor.commute)
qed

lemma code_word_inj: "(word_of_nat (code c) :: 64 word) = word_of_nat (code d) \<longleftrightarrow> c = d"
proof -
  have l: "code x < 2 ^ 64" for x :: char by (rule less_le_trans [of _ "2 ^ 8"]) (cases x, simp_all add: of_char_def horner_sum_bound)
  have "(word_of_nat (code c) :: 64 word) = word_of_nat (code d) \<longleftrightarrow> code c = code d"
    by (simp add: word_of_nat_eq_iff take_bit_nat_eq_self [OF l])
  then show ?thesis by simp
qed

lemma hex_digits_inj: "m < 16 ^ k \<Longrightarrow> n < 16 ^ k \<Longrightarrow> hex_digits k m = hex_digits k n \<Longrightarrow> m = n"
proof (induction k arbitrary: m n)
  case 0
  then show ?case by simp
next
  case (Suc k)
  have h: "hex_char a = hex_char b \<Longrightarrow> a < 16 \<Longrightarrow> b < 16 \<Longrightarrow> a = b" for a b
    by (auto simp: hex_char_def char_of_eq_iff take_bit_eq_mod split: if_splits)
  from Suc.prems have "m div 16 < 16 ^ k" "n div 16 < 16 ^ k" by auto
  then have d: "m div 16 = n div 16" using Suc by auto
  have "m mod 16 = n mod 16" using Suc.prems(3) by (intro h) auto
  with d show ?case by (metis div_mult_mod_eq)
qed

text \<open>
  stable ids keep apart inputs that differ in one byte.  If two lists of parts are equal except
  for one byte of one part, the ids derived from them differ, whatever the namespace and whatever comes
  before and after that byte.
\<close>

theorem stable_id_separates_bytes:
  assumes "c \<noteq> d"
  shows "stable_external_id namespace (ps @ (xs @ c # ys) # qs) \<noteq> stable_external_id namespace (ps @ (xs @ d # ys) # qs)"
proof -
  have "hash_digest (ps @ (xs @ c # ys) # qs) \<noteq> hash_digest (ps @ (xs @ d # ys) # qs)"
    using assms
    by (simp add: hash_digest_def foldl_extend_inj hash_digest_extend_def hash_byte_inj fold_hash_inj hash_byte_other code_word_inj)
  then have "unat (hash_digest (ps @ (xs @ c # ys) # qs)) \<noteq> unat (hash_digest (ps @ (xs @ d # ys) # qs))"
    using unsigned_word_eqI by blast
  moreover have "unat w < 16 ^ 16" for w :: "64 word" using unsigned_less [of w, where ?'a = nat] by simp
  ultimately show ?thesis
    using hex_digits_inj unfolding stable_external_id_def hash_event_id_def by blast
qed

theorem stable_id_separates_bytes_witness:
  "stable_external_id ''n'' [''k'', ''msg-1'', ''a''] \<noteq> stable_external_id ''n'' [''k'', ''msg-2'', ''a'']"
  using stable_id_separates_bytes [of "CHR ''1''" "CHR ''2''" "''n''" "[''k'']" "''msg-''" "[]" "[''a'']"] by simp

subsection \<open>Fan-out: lemmas\<close>

definition acceptance_route :: "subscriber_acceptance \<Rightarrow> agent_route_key" where
  "acceptance_route a = \<lparr>ark_package = sa_agent_package a, ark_instance = sa_agent_instance_id a\<rparr>"

definition answered :: "event_delivery_outcome \<Rightarrow> agent_route_key multiset" where
  "answered outcome = mset (map acceptance_route (acceptances outcome)) + mset (map fst (failures outcome))"

lemma note_dispatch_answered:
  "answered (note_dispatch target answer outcome) = add_mset target (answered outcome)"
  "subscribers_matched (note_dispatch target answer outcome) = subscribers_matched outcome"
  "subscribers_accepted outcome = length (acceptances outcome) \<Longrightarrow>
     subscribers_accepted (note_dispatch target answer outcome) = length (acceptances (note_dispatch target answer outcome))"
  by (auto simp: note_dispatch_def answered_def acceptance_route_def split: sum.splits)

lemma deliver_loop_answered:
  assumes "deliver_loop port request targets (outcome, s) = (outcome', s')"
    and "subscribers_accepted outcome = length (acceptances outcome)"
  shows "answered outcome' = answered outcome + mset targets \<and> subscribers_matched outcome' = subscribers_matched outcome
    \<and> subscribers_accepted outcome' = length (acceptances outcome')"
  using assms
proof (induction targets arbitrary: outcome s)
  case Nil
  then show ?case by simp
next
  case (Cons t ts)
  obtain answer s1 where p: "port t (ensure_dispatch_task_scope t request) s = (answer, s1)" by force
  then show ?case using Cons.IH [of "note_dispatch t answer outcome" s1] Cons.prems
    by (simp add: note_dispatch_answered)
qed

lemma deliver_answered:
  assumes "deliver_to_subscribers entries event port s = (outcome, s')"
  shows "answered outcome = mset (matching_subscriber_routes entries (as_published_event event))"
    and "subscribers_matched outcome = size (answered outcome)"
    and "subscribers_accepted outcome = length (acceptances outcome)"
proof -
  have *: "answered outcome = mset (matching_subscriber_routes entries (as_published_event event))
    \<and> subscribers_matched outcome = length (matching_subscriber_routes entries (as_published_event event))
    \<and> subscribers_accepted outcome = length (acceptances outcome)"
    using assms deliver_loop_answered [of port "into_dispatch_request event"
        "matching_subscriber_routes entries (as_published_event event)" _ s outcome s']
    by (auto simp: deliver_to_subscribers_def empty_outcome_def answered_def Let_def split: if_splits)
  then show "answered outcome = mset (matching_subscriber_routes entries (as_published_event event))"
    "subscribers_matched outcome = size (answered outcome)" "subscribers_accepted outcome = length (acceptances outcome)"
    by simp_all
qed

text \<open>
  C29: no subscriber is lost or counted twice.  Whatever the agents answer, every route whose
  subscriptions match the event ends up in exactly one of the acceptances and the failures, as often
  as it matched, and the two counters of the outcome are the numbers of matched routes and of acceptances.
\<close>

theorem delivery_accounts_for_every_subscriber:
  assumes "deliver_to_subscribers entries event port s = (outcome, s')"
  shows "mset (map acceptance_route (acceptances outcome)) + mset (map fst (failures outcome))
      = mset (matching_subscriber_routes entries (as_published_event event))
    \<and> subscribers_matched outcome = length (matching_subscriber_routes entries (as_published_event event))
    \<and> subscribers_accepted outcome = length (acceptances outcome)
    \<and> subscribers_matched outcome = subscribers_accepted outcome + length (failures outcome)"
proof -
  note d = deliver_answered [OF assms]
  have "size (answered outcome) = length (acceptances outcome) + length (failures outcome)" by (simp add: answered_def)
  moreover have "size (answered outcome) = length (matching_subscriber_routes entries (as_published_event event))"
    using d(1) by simp
  ultimately show ?thesis using d by (simp add: answered_def)
qed

definition sample_card :: agent_card where
  "sample_card = \<lparr>ac_name = ''a'', ac_version = ''1'', ac_content_hash = None, ac_repository_version = None,
     ac_agent_package = ''a'', ac_agent_instance_id = ''default'', ac_tools = [], ac_baml_functions = [],
     ac_description = None, ac_capabilities = [], ac_tags = [],
     ac_subscriptions = [\<lparr>es_schema_versions = [], es_source_kinds = [''slack''], es_source_keys = [],
       es_source_key_prefixes = []\<rparr>]\<rparr>"

definition sample_entry :: "string \<Rightarrow> agent_discovery_entry" where
  "sample_entry package = \<lparr>ade_agent_package = package, ade_agent_instance_id = ''default'', ade_name = package,
     ade_version = ''1'', ade_agent_card = sample_card\<rparr>"

definition sample_event :: produced_event where
  "sample_event = \<lparr>ev_routing_key = ''slack:intake'', ev_schema_version = ''v1'', ev_source_kind = ''slack'',
     ev_source_key = ''slack:C1'', ev_messages = [JNull], ev_context_id = None, ev_task_id = None,
     ev_message_id = Some ''m1'', ev_producer_key = None, ev_metadata = None\<rparr>"

definition sample_port :: "nat dispatch_port" where
  "sample_port target request n =
     (if ark_package target = ''b'' then (Err (AgentNotFound ''b''), n)
      else (Ok \<lparr>ack_accepted = True, ack_detail = None, ack_context_id = None, ack_task_id = None, ack_message_id = None\<rparr>, n + 1))"

theorem delivery_accounts_for_every_subscriber_witness:
  "\<exists>outcome s'. deliver_to_subscribers [sample_entry ''a'', sample_entry ''b'', sample_entry ''c d''] sample_event sample_port 0
       = (outcome, s')
     \<and> subscribers_matched outcome = 2 \<and> subscribers_matched outcome = subscribers_accepted outcome + length (failures outcome)"
proof -
  obtain outcome s' where d: "deliver_to_subscribers [sample_entry ''a'', sample_entry ''b'', sample_entry ''c d''] sample_event
      sample_port 0 = (outcome, s')" by force
  have "length (matching_subscriber_routes [sample_entry ''a'', sample_entry ''b'', sample_entry ''c d''] (as_published_event sample_event)) = 2"
    by code_simp
  with delivery_accounts_for_every_subscriber [OF d] d show ?thesis by auto
qed

end
