(* ===== verification/Runner_State.thy ===== *)
theory Runner_State
  imports Event_Routing
begin

text \<open>
  The durable state of the runner, \<^verbatim>\<open>DeploymentStateStore\<close> of
  \<^verbatim>\<open>baml-agent-runner/src/deployment_state.rs\<close>: deployments, producer checkpoints, scheduled callbacks
  and the ingress inbox, with the contracts \<^verbatim>\<open>CallbackStore\<close> and \<^verbatim>\<open>IngressStore\<close> of
  \<^verbatim>\<open>baml-rt-core/src\<close>.  A table is the list of its rows in scan order, and a query is the operation its
  text states.  Whether the database executes a query is an argument.
\<close>

subsection \<open>Queries\<close>

text \<open>
  What the database does with the statements of an operation: execute them, fail to read, fail to
  write, or reject a write statement.  The answer to a rejected statement is an error only for a caller
  that takes the rows of the response.
\<close>

datatype db_status = DbUp | DbReadFails string | DbWriteFails string | DbRejects string

definition to_write_err :: "string \<Rightarrow> baml_error" where
  "to_write_err e = Io (''runner state write failed: '' @ e)"

definition to_read_err :: "string \<Rightarrow> baml_error" where
  "to_read_err e = Io (''runner state read failed: '' @ e)"

definition db_select :: "db_status \<Rightarrow> 'r list \<Rightarrow> 'r list res" where
  "db_select db rows =
     (case db of DbReadFails e \<Rightarrow> Err (to_read_err e) | _ \<Rightarrow> Ok rows)"

text \<open>A write whose rows are taken, and one whose response is dropped.\<close>

definition db_update :: "db_status \<Rightarrow> ('r \<Rightarrow> bool) \<Rightarrow> ('r \<Rightarrow> 'r) \<Rightarrow> 'r list \<Rightarrow> 'r list res \<times> 'r list" where
  "db_update db p f rows =
     (case db of
        DbWriteFails e \<Rightarrow> (Err (to_write_err e), rows)
      | DbReadFails e \<Rightarrow> (Err (to_read_err e), rows)
      | DbRejects e \<Rightarrow> (Err (to_read_err e), rows)
      | DbUp \<Rightarrow> (Ok (map f (filter p rows)), map (\<lambda>r. if p r then f r else r) rows))"

definition db_execute :: "db_status \<Rightarrow> ('r list \<Rightarrow> 'r list) \<Rightarrow> 'r list \<Rightarrow> unit res \<times> 'r list" where
  "db_execute db f rows =
     (case db of
        DbWriteFails e \<Rightarrow> (Err (to_write_err e), rows)
      | DbRejects e \<Rightarrow> (Ok (), rows)
      | _ \<Rightarrow> (Ok (), f rows))"

definition tbl_upsert :: "('r \<Rightarrow> bool) \<Rightarrow> ('r \<Rightarrow> 'r) \<Rightarrow> 'r \<Rightarrow> 'r list \<Rightarrow> 'r list" where
  "tbl_upsert p f fresh rows = (if list_ex p rows then map (\<lambda>r. if p r then f r else r) rows else rows @ [fresh])"

text \<open>A \<^verbatim>\<open>u64\<close> cast with \<^verbatim>\<open>as i64\<close>, the checked conversion, and the way back.\<close>

definition as_i64 :: "64 word \<Rightarrow> int" where
  "as_i64 w = sint w"

definition unix_ms_to_db_int :: "64 word \<Rightarrow> string \<Rightarrow> int res" where
  "unix_ms_to_db_int value field_name =
     (if unat value < 2 ^ 63 then Ok (uint value)
      else Err (InvalidArgument (field_name @ '' exceeds signed 64-bit range for state DB storage'')))"

definition clamp_u64 :: "int \<Rightarrow> 64 word" where
  "clamp_u64 i = word_of_int (max i 0)"

definition saturating_add :: "64 word \<Rightarrow> 64 word \<Rightarrow> 64 word" where
  "saturating_add a b = (if unat a + unat b < 2 ^ 64 then a + b else - 1)"

definition saturating_sub :: "64 word \<Rightarrow> 64 word \<Rightarrow> 64 word" where
  "saturating_sub a b = (if a < b then 0 else a - b)"

subsection \<open>Tables\<close>

datatype deployment_status = Active | Failed

record deployment_record =
  dr_content_hash :: string
  dr_agent_name :: string
  dr_deployed_at :: string
  dr_status :: deployment_status
  dr_last_error :: "string option"
  dr_last_attempt_at :: "string option"
  dr_failure_count :: nat

definition deployment_content_hash_parse :: "string \<Rightarrow> string option" where
  "deployment_content_hash_parse s =
     (if length s = 64 \<and> list_all (\<lambda>c. is_ascii_digit c \<or> (97 \<le> code c \<and> code c \<le> 102)) s then Some s else None)"

record stored_callback =
  sc_callback_id :: string
  sc_source_key :: string
  sc_dedupe_key :: "string option"
  sc_payload :: json
  sc_scheduled_for_unix_ms :: "64 word"
  sc_requested_at_unix_ms :: "64 word"
  sc_context_id :: "string option"
  sc_task_id :: "string option"
  sc_scheduling_context_id :: "string option"
  sc_scheduling_task_id :: "string option"
  sc_requesting_agent_id :: "string option"
  sc_requesting_message_id :: "string option"

record schedule_callback_request =
  sr_source_key :: string
  sr_dedupe_key :: "string option"
  sr_payload :: json
  sr_scheduled_for_unix_ms :: "64 word"
  sr_requested_at_unix_ms :: "64 word"
  sr_context_id :: "string option"
  sr_task_id :: "string option"
  sr_scheduling_context_id :: "string option"
  sr_scheduling_task_id :: "string option"
  sr_requesting_agent_id :: "string option"
  sr_requesting_message_id :: "string option"

record schedule_callback_result =
  scr_callback :: stored_callback
  scr_created :: bool

datatype cancel_callback_selector = ByCallbackId string | ByDedupeKey string string

datatype callback_status = CbPending | CbDelivered | CbCancelled

record callback_row =
  cr_callback_id :: string
  cr_source_key :: string
  cr_dedupe_key :: "string option"
  cr_payload_json :: string
  cr_status :: callback_status
  cr_scheduled_for :: int
  cr_requested_at :: int
  cr_emitted_at :: "int option"
  cr_delivered_at :: "int option"
  cr_cancelled_at :: "int option"
  cr_context_id :: "string option"
  cr_task_id :: "string option"
  cr_scheduling_context_id :: "string option"
  cr_scheduling_task_id :: "string option"
  cr_requesting_agent_id :: "string option"
  cr_requesting_message_id :: "string option"

record ingress_item =
  ii_ingress_id :: string
  ii_source_kind :: string
  ii_source_key :: string
  ii_payload_json :: string
  ii_enqueued_at :: "64 word"

datatype ingress_status = InPending | InEmitted | InDelivered

record ingress_row =
  ir_ingress_id :: string
  ir_source_kind :: "string option"
  ir_source_key :: string
  ir_payload_json :: string
  ir_status :: ingress_status
  ir_enqueued_at :: int
  ir_emitted_at :: "int option"
  ir_delivered_at :: "int option"

record runner_state =
  rs_deployments :: "deployment_record list"
  rs_checkpoints :: "(string \<times> string) list"
  rs_callbacks :: "callback_row list"
  rs_ingress :: "ingress_row list"

text \<open>Writing and reading JSON texts.\<close>

record serde_json =
  sj_to_string :: "json \<Rightarrow> (string, string) result"
  sj_from_str :: "string \<Rightarrow> (string, json) result"

subsection \<open>Deployments and checkpoints\<close>

definition save_deployment :: "db_status \<Rightarrow> deployment_record \<Rightarrow> runner_state \<Rightarrow> unit res \<times> runner_state" where
  "save_deployment db rec st =
     (let (r, t) = db_execute db (tbl_upsert (\<lambda>d. dr_content_hash d = dr_content_hash rec) (\<lambda>_. rec) rec) (rs_deployments st)
      in (r, st\<lparr>rs_deployments := t\<rparr>))"

definition remove_deployment :: "db_status \<Rightarrow> string \<Rightarrow> runner_state \<Rightarrow> bool res \<times> runner_state" where
  "remove_deployment db content_hash st =
     (case db of
        DbUp \<Rightarrow> (Ok (list_ex (\<lambda>d. dr_content_hash d = content_hash) (rs_deployments st)),
                 st\<lparr>rs_deployments := filter (\<lambda>d. dr_content_hash d \<noteq> content_hash) (rs_deployments st)\<rparr>)
      | DbWriteFails e \<Rightarrow> (Err (to_write_err e), st)
      | DbReadFails e \<Rightarrow> (Err (to_read_err e), st)
      | DbRejects e \<Rightarrow> (Err (to_read_err e), st))"

definition parse_deployment_row :: "deployment_record \<Rightarrow> deployment_record res" where
  "parse_deployment_row row =
     (case deployment_content_hash_parse (dr_content_hash row) of
        None \<Rightarrow> Err (InvalidArgument (''invalid content_hash in deployment row: ''
                  @ ''invalid deployment content hash: expected lowercase sha256 hex (64 chars)''))
      | Some h \<Rightarrow> Ok row)"

fun collect_res :: "('a \<Rightarrow> 'b res) \<Rightarrow> 'a list \<Rightarrow> 'b list res" where
  "collect_res f [] = Ok []"
| "collect_res f (x # xs) = res_bind (f x) (\<lambda>y. res_bind (collect_res f xs) (\<lambda>ys. Ok (y # ys)))"

definition list_deployments :: "db_status \<Rightarrow> runner_state \<Rightarrow> deployment_record list res" where
  "list_deployments db st = res_bind (db_select db (rs_deployments st)) (collect_res parse_deployment_row)"

definition save_event_producer_checkpoint ::
  "db_status \<Rightarrow> string \<Rightarrow> string \<Rightarrow> runner_state \<Rightarrow> unit res \<times> runner_state" where
  "save_event_producer_checkpoint db key checkpoint st =
     (let (r, t) = db_execute db (tbl_upsert (\<lambda>row. fst row = key) (\<lambda>_. (key, checkpoint)) (key, checkpoint)) (rs_checkpoints st)
      in (r, st\<lparr>rs_checkpoints := t\<rparr>))"

definition list_event_producer_checkpoints :: "db_status \<Rightarrow> runner_state \<Rightarrow> (string \<rightharpoonup> string) res" where
  "list_event_producer_checkpoints db st = res_bind (db_select db (rs_checkpoints st)) (\<lambda>rows. Ok (map_of (rev rows)))"

subsection \<open>Ingress inbox\<close>

definition enqueue_ingress_item :: "db_status \<Rightarrow> ingress_item \<Rightarrow> runner_state \<Rightarrow> bool res \<times> runner_state" where
  "enqueue_ingress_item db item st =
     (case db_select db (filter (\<lambda>r. ir_ingress_id r = ii_ingress_id item) (rs_ingress st)) of
        Inl e \<Rightarrow> (Err e, st)
      | Inr existing \<Rightarrow>
          if existing \<noteq> [] then (Ok False, st)
          else (case unix_ms_to_db_int (ii_enqueued_at item) ''ingress enqueued_at_unix_ms'' of
                  Inl e \<Rightarrow> (Err e, st)
                | Inr ms \<Rightarrow>
                    (let (r, t) = db_execute db (\<lambda>rows. rows @
                           [\<lparr>ir_ingress_id = ii_ingress_id item, ir_source_kind = Some (ii_source_kind item),
                             ir_source_key = ii_source_key item, ir_payload_json = ii_payload_json item,
                             ir_status = InPending, ir_enqueued_at = ms, ir_emitted_at = None, ir_delivered_at = None\<rparr>])
                           (rs_ingress st)
                     in (res_bind r (\<lambda>_. Ok True), st\<lparr>rs_ingress := t\<rparr>))))"

definition parse_ingress_row :: "ingress_row \<Rightarrow> ingress_item res" where
  "parse_ingress_row row =
     (if ir_enqueued_at row < 0
      then Err (InvalidArgument (''negative enqueued_at_unix_ms (-'' @ show_nat (nat (- ir_enqueued_at row))
             @ '') in ingress row from state DB''))
      else Ok \<lparr>ii_ingress_id = ir_ingress_id row,
               ii_source_kind = (case ir_source_kind row of
                  Some k \<Rightarrow> k
                | None \<Rightarrow> (case parse_lowercased (hd (split_on CHR '':'' (ir_source_key row))) of
                            Some k \<Rightarrow> k | None \<Rightarrow> ''unknown'')),
               ii_source_key = ir_source_key row, ii_payload_json = ir_payload_json row,
               ii_enqueued_at = word_of_int (ir_enqueued_at row)\<rparr>)"

definition list_pending_ingress_items ::
  "db_status \<Rightarrow> string list \<Rightarrow> nat \<Rightarrow> runner_state \<Rightarrow> ingress_item list res" where
  "list_pending_ingress_items db source_kinds limit st =
     res_bind (db_select db (take limit (sort_key (\<lambda>r. (ir_enqueued_at r, ir_ingress_id r))
       (filter (\<lambda>r. ir_status r = InPending \<and> ir_emitted_at r = None
                   \<and> (case ir_source_kind r of Some k \<Rightarrow> k \<in> set source_kinds | None \<Rightarrow> False)) (rs_ingress st)))))
       (collect_res parse_ingress_row)"

definition requeue_stale_ingress :: "db_status \<Rightarrow> 64 word \<Rightarrow> runner_state \<Rightarrow> nat res \<times> runner_state" where
  "requeue_stale_ingress db emitted_before st =
     (case unix_ms_to_db_int emitted_before ''ingress emitted_before_unix_ms'' of
        Inl e \<Rightarrow> (Err e, st)
      | Inr before \<Rightarrow>
          (let (r, t) = db_update db
                 (\<lambda>r. ir_status r = InEmitted \<and> (case ir_emitted_at r of Some ms \<Rightarrow> ms \<le> before | None \<Rightarrow> False))
                 (\<lambda>r. r\<lparr>ir_status := InPending, ir_emitted_at := None\<rparr>) (rs_ingress st)
           in (res_bind r (\<lambda>rows. Ok (length rows)), st\<lparr>rs_ingress := t\<rparr>)))"

definition mark_ingress_emitted ::
  "db_status \<Rightarrow> string list \<Rightarrow> 64 word \<Rightarrow> runner_state \<Rightarrow> string list res \<times> runner_state" where
  "mark_ingress_emitted db ids emitted_at st =
     (if ids = [] then (Ok [], st)
      else (case unix_ms_to_db_int emitted_at ''ingress emitted_at_unix_ms'' of
              Inl e \<Rightarrow> (Err e, st)
            | Inr ms \<Rightarrow>
                (let (r, t) = db_update db
                       (\<lambda>r. ir_ingress_id r \<in> set ids \<and> ir_status r = InPending \<and> ir_emitted_at r = None)
                       (\<lambda>r. r\<lparr>ir_status := InEmitted, ir_emitted_at := Some ms\<rparr>) (rs_ingress st)
                 in (res_bind r (\<lambda>rows. Ok (map ir_ingress_id rows)), st\<lparr>rs_ingress := t\<rparr>))))"

definition mark_ingress_delivered ::
  "db_status \<Rightarrow> string list \<Rightarrow> 64 word \<Rightarrow> runner_state \<Rightarrow> unit res \<times> runner_state" where
  "mark_ingress_delivered db ids delivered_at st =
     (if ids = [] then (Ok (), st)
      else (case unix_ms_to_db_int delivered_at ''ingress delivered_at_unix_ms'' of
              Inl e \<Rightarrow> (Err e, st)
            | Inr ms \<Rightarrow>
                (let (r, t) = db_update db
                       (\<lambda>r. ir_ingress_id r \<in> set ids \<and> (ir_status r = InPending \<or> ir_status r = InEmitted))
                       (\<lambda>r. r\<lparr>ir_status := InDelivered, ir_delivered_at := Some ms\<rparr>) (rs_ingress st)
                 in (res_bind r (\<lambda>_. Ok ()), st\<lparr>rs_ingress := t\<rparr>))))"

subsection \<open>Scheduled callbacks\<close>

definition parse_callback_row :: "serde_json \<Rightarrow> callback_row \<Rightarrow> stored_callback res" where
  "parse_callback_row J row =
     (case sj_from_str J (cr_payload_json row) of
        Inl e \<Rightarrow> Err (InvalidArgument (''invalid callback payload_json from state DB: '' @ e))
      | Inr payload \<Rightarrow>
          Ok \<lparr>sc_callback_id = cr_callback_id row, sc_source_key = cr_source_key row, sc_dedupe_key = cr_dedupe_key row,
              sc_payload = payload, sc_scheduled_for_unix_ms = clamp_u64 (cr_scheduled_for row),
              sc_requested_at_unix_ms = clamp_u64 (cr_requested_at row),
              sc_context_id = cr_context_id row, sc_task_id = cr_task_id row,
              sc_scheduling_context_id = cr_scheduling_context_id row, sc_scheduling_task_id = cr_scheduling_task_id row,
              sc_requesting_agent_id = cr_requesting_agent_id row,
              sc_requesting_message_id = cr_requesting_message_id row\<rparr>)"

definition callback_row_of ::
  "stored_callback \<Rightarrow> string \<Rightarrow> callback_status \<Rightarrow> 64 word option \<Rightarrow> 64 word option \<Rightarrow> 64 word option \<Rightarrow> callback_row" where
  "callback_row_of cb payload_json status emitted delivered cancelled =
     \<lparr>cr_callback_id = sc_callback_id cb, cr_source_key = sc_source_key cb, cr_dedupe_key = sc_dedupe_key cb,
      cr_payload_json = payload_json, cr_status = status,
      cr_scheduled_for = as_i64 (sc_scheduled_for_unix_ms cb), cr_requested_at = as_i64 (sc_requested_at_unix_ms cb),
      cr_emitted_at = map_option as_i64 emitted, cr_delivered_at = map_option as_i64 delivered,
      cr_cancelled_at = map_option as_i64 cancelled,
      cr_context_id = sc_context_id cb, cr_task_id = sc_task_id cb,
      cr_scheduling_context_id = sc_scheduling_context_id cb, cr_scheduling_task_id = sc_scheduling_task_id cb,
      cr_requesting_agent_id = sc_requesting_agent_id cb, cr_requesting_message_id = sc_requesting_message_id cb\<rparr>"

definition upsert_callback_row ::
  "serde_json \<Rightarrow> db_status \<Rightarrow> stored_callback \<Rightarrow> callback_status \<Rightarrow> 64 word option \<Rightarrow> 64 word option \<Rightarrow> 64 word option
   \<Rightarrow> runner_state \<Rightarrow> unit res \<times> runner_state" where
  "upsert_callback_row J db cb status emitted delivered cancelled st =
     (case sj_to_string J (sc_payload cb) of
        Inl e \<Rightarrow> (Err (InvalidArgument (''failed to serialize callback payload: '' @ e)), st)
      | Inr payload_json \<Rightarrow>
          (let row = callback_row_of cb payload_json status emitted delivered cancelled;
               (r, t) = db_execute db (tbl_upsert (\<lambda>x. cr_callback_id x = sc_callback_id cb) (\<lambda>_. row) row) (rs_callbacks st)
           in (r, st\<lparr>rs_callbacks := t\<rparr>)))"

definition first_row :: "serde_json \<Rightarrow> callback_row list \<Rightarrow> stored_callback option res" where
  "first_row J rows = (case rows of [] \<Rightarrow> Ok None | row # _ \<Rightarrow> res_bind (parse_callback_row J row) (\<lambda>cb. Ok (Some cb)))"

definition cancellable :: "callback_row \<Rightarrow> bool" where
  "cancellable row \<longleftrightarrow> cr_status row = CbPending \<and> cr_emitted_at row = None"

definition find_pending_callback_by_id ::
  "serde_json \<Rightarrow> db_status \<Rightarrow> string \<Rightarrow> runner_state \<Rightarrow> stored_callback option res" where
  "find_pending_callback_by_id J db cid st =
     res_bind (db_select db (filter (\<lambda>row. cr_callback_id row = cid \<and> cancellable row) (rs_callbacks st))) (first_row J)"

definition find_pending_callback_by_dedupe ::
  "serde_json \<Rightarrow> db_status \<Rightarrow> string \<Rightarrow> string \<Rightarrow> runner_state \<Rightarrow> stored_callback option res" where
  "find_pending_callback_by_dedupe J db source_key dedupe_key st =
     res_bind (db_select db (filter (\<lambda>row. cr_source_key row = source_key \<and> cr_dedupe_key row = Some dedupe_key \<and> cancellable row)
       (rs_callbacks st))) (first_row J)"

definition callback_of_request :: "string \<Rightarrow> schedule_callback_request \<Rightarrow> stored_callback" where
  "callback_of_request uuid req =
     \<lparr>sc_callback_id = uuid, sc_source_key = sr_source_key req, sc_dedupe_key = sr_dedupe_key req,
      sc_payload = sr_payload req, sc_scheduled_for_unix_ms = sr_scheduled_for_unix_ms req,
      sc_requested_at_unix_ms = sr_requested_at_unix_ms req, sc_context_id = sr_context_id req,
      sc_task_id = sr_task_id req, sc_scheduling_context_id = sr_scheduling_context_id req,
      sc_scheduling_task_id = sr_scheduling_task_id req, sc_requesting_agent_id = sr_requesting_agent_id req,
      sc_requesting_message_id = sr_requesting_message_id req\<rparr>"

definition insert_callback ::
  "serde_json \<Rightarrow> db_status \<Rightarrow> string \<Rightarrow> schedule_callback_request \<Rightarrow> runner_state
   \<Rightarrow> schedule_callback_result res \<times> runner_state" where
  "insert_callback J db uuid req st =
     (let cb = callback_of_request uuid req;
          (r, st') = upsert_callback_row J db cb CbPending None None None st
      in (res_bind r (\<lambda>_. Ok \<lparr>scr_callback = cb, scr_created = True\<rparr>), st'))"

definition schedule_callback_with_dedupe ::
  "serde_json \<Rightarrow> db_status \<Rightarrow> string \<Rightarrow> schedule_callback_request \<Rightarrow> string \<Rightarrow> runner_state
   \<Rightarrow> schedule_callback_result res \<times> runner_state" where
  "schedule_callback_with_dedupe J db uuid req dedupe_key st =
     (case find_pending_callback_by_dedupe J db (sr_source_key req) dedupe_key st of
        Inl e \<Rightarrow> (Err e, st)
      | Inr (Some existing) \<Rightarrow> (Ok \<lparr>scr_callback = existing, scr_created = False\<rparr>, st)
      | Inr None \<Rightarrow> insert_callback J db uuid req st)"

definition schedule_callback ::
  "serde_json \<Rightarrow> db_status \<Rightarrow> string \<Rightarrow> schedule_callback_request \<Rightarrow> runner_state
   \<Rightarrow> schedule_callback_result res \<times> runner_state" where
  "schedule_callback J db uuid req st =
     (case sr_dedupe_key req of
        Some dedupe_key \<Rightarrow> schedule_callback_with_dedupe J db uuid req dedupe_key st
      | None \<Rightarrow> insert_callback J db uuid req st)"

definition cancel_callback ::
  "serde_json \<Rightarrow> db_status \<Rightarrow> 64 word \<Rightarrow> cancel_callback_selector \<Rightarrow> runner_state
   \<Rightarrow> stored_callback option res \<times> runner_state" where
  "cancel_callback J db now selector st =
     (case (case selector of
              ByCallbackId cid \<Rightarrow> find_pending_callback_by_id J db cid st
            | ByDedupeKey source_key dedupe_key \<Rightarrow> find_pending_callback_by_dedupe J db source_key dedupe_key st) of
        Inl e \<Rightarrow> (Err e, st)
      | Inr None \<Rightarrow> (Ok None, st)
      | Inr (Some cb) \<Rightarrow>
          (let (r, st') = upsert_callback_row J db cb CbCancelled None None (Some now) st
           in (res_bind r (\<lambda>_. Ok (Some cb)), st')))"

definition list_due_callbacks :: "serde_json \<Rightarrow> db_status \<Rightarrow> 64 word \<Rightarrow> nat \<Rightarrow> runner_state \<Rightarrow> stored_callback list res" where
  "list_due_callbacks J db now limit st =
     res_bind (db_select db (take limit (sort_key (\<lambda>row. (cr_scheduled_for row, cr_callback_id row))
       (filter (\<lambda>row. cr_status row = CbPending \<and> cr_scheduled_for row \<le> as_i64 now) (rs_callbacks st)))))
       (collect_res (parse_callback_row J))"

definition mark_callbacks_delivered ::
  "db_status \<Rightarrow> string list \<Rightarrow> 64 word \<Rightarrow> runner_state \<Rightarrow> unit res \<times> runner_state" where
  "mark_callbacks_delivered db ids now st =
     (if ids = [] then (Ok (), st)
      else (let (r, t) = db_update db (\<lambda>row. cr_callback_id row \<in> set ids \<and> cr_status row = CbPending)
                  (\<lambda>row. row\<lparr>cr_status := CbDelivered, cr_delivered_at := Some (as_i64 now), cr_cancelled_at := None\<rparr>)
                  (rs_callbacks st)
            in (res_bind r (\<lambda>_. Ok ()), st\<lparr>rs_callbacks := t\<rparr>)))"

definition mark_callbacks_emitted ::
  "db_status \<Rightarrow> string list \<Rightarrow> 64 word \<Rightarrow> runner_state \<Rightarrow> string list res \<times> runner_state" where
  "mark_callbacks_emitted db ids now st =
     (if ids = [] then (Ok [], st)
      else (case db_select db (filter (\<lambda>row. cr_callback_id row \<in> set ids \<and> cr_status row = CbPending) (rs_callbacks st)) of
              Inl e \<Rightarrow> (Err e, st)
            | Inr emission_rows \<Rightarrow>
                (let eligible = map cr_callback_id emission_rows;
                     first = map cr_callback_id (filter (\<lambda>row. cr_emitted_at row = None) emission_rows);
                     (r, t) = (if first = [] then (Ok (), rs_callbacks st)
                               else db_execute db (map (\<lambda>row. if cr_callback_id row \<in> set first \<and> cancellable row
                                                                then row\<lparr>cr_emitted_at := Some (as_i64 now)\<rparr> else row))
                                      (rs_callbacks st))
                 in (res_bind r (\<lambda>_. Ok eligible), st\<lparr>rs_callbacks := t\<rparr>))))"

text \<open>Opening the store drops pending callbacks without a scheduling scope.\<close>

definition purge_pre_cutover_pending_callbacks :: "db_status \<Rightarrow> runner_state \<Rightarrow> unit res \<times> runner_state" where
  "purge_pre_cutover_pending_callbacks db st =
     (case db of
        DbUp \<Rightarrow> (Ok (), st\<lparr>rs_callbacks := filter (\<lambda>row. \<not> (cr_status row = CbPending
                  \<and> (cr_scheduling_context_id row = None \<or> cr_scheduling_task_id row = None))) (rs_callbacks st)\<rparr>)
      | DbWriteFails e \<Rightarrow> (Err (to_write_err e), st)
      | DbReadFails e \<Rightarrow> (Err (to_read_err e), st)
      | DbRejects e \<Rightarrow> (Err (to_read_err e), st))"

subsection \<open>Operations as steps\<close>

datatype state_op =
    SaveDeployment db_status deployment_record
  | RemoveDeployment db_status string
  | SaveCheckpoint db_status string string
  | Enqueue db_status ingress_item
  | RequeueStale db_status "64 word"
  | MarkEmitted db_status "string list" "64 word"
  | MarkDelivered db_status "string list" "64 word"
  | ScheduleCallback db_status string schedule_callback_request
  | CancelCallback db_status "64 word" cancel_callback_selector
  | MarkCallbacksEmitted db_status "string list" "64 word"
  | MarkCallbacksDelivered db_status "string list" "64 word"
  | Purge db_status

fun apply_state_op :: "serde_json \<Rightarrow> state_op \<Rightarrow> runner_state \<Rightarrow> runner_state" where
  "apply_state_op J (SaveDeployment db rec) st = snd (save_deployment db rec st)"
| "apply_state_op J (RemoveDeployment db h) st = snd (remove_deployment db h st)"
| "apply_state_op J (SaveCheckpoint db key checkpoint) st = snd (save_event_producer_checkpoint db key checkpoint st)"
| "apply_state_op J (Enqueue db item) st = snd (enqueue_ingress_item db item st)"
| "apply_state_op J (RequeueStale db before) st = snd (requeue_stale_ingress db before st)"
| "apply_state_op J (MarkEmitted db ids now) st = snd (mark_ingress_emitted db ids now st)"
| "apply_state_op J (MarkDelivered db ids now) st = snd (mark_ingress_delivered db ids now st)"
| "apply_state_op J (ScheduleCallback db uuid req) st = snd (schedule_callback J db uuid req st)"
| "apply_state_op J (CancelCallback db now selector) st = snd (cancel_callback J db now selector st)"
| "apply_state_op J (MarkCallbacksEmitted db ids now) st = snd (mark_callbacks_emitted db ids now st)"
| "apply_state_op J (MarkCallbacksDelivered db ids now) st = snd (mark_callbacks_delivered db ids now st)"
| "apply_state_op J (Purge db) st = snd (purge_pre_cutover_pending_callbacks db st)"

text \<open>Ids of new callbacks are fresh, as random UUIDs are.\<close>

fun op_fresh :: "state_op \<Rightarrow> runner_state \<Rightarrow> bool" where
  "op_fresh (ScheduleCallback db uuid req) st \<longleftrightarrow> uuid \<notin> cr_callback_id ` set (rs_callbacks st)"
| "op_fresh _ st \<longleftrightarrow> True"

definition empty_state :: runner_state where
  "empty_state = \<lparr>rs_deployments = [], rs_checkpoints = [], rs_callbacks = [], rs_ingress = []\<rparr>"

inductive reachable_state :: "serde_json \<Rightarrow> runner_state \<Rightarrow> bool" for J where
  start: "reachable_state J empty_state"
| step: "reachable_state J st \<Longrightarrow> op_fresh op st \<Longrightarrow> reachable_state J (apply_state_op J op st)"

subsection \<open>Invariant\<close>

definition callback_row_ok :: "callback_row \<Rightarrow> bool" where
  "callback_row_ok row \<longleftrightarrow>
     (case cr_status row of
        CbPending \<Rightarrow> cr_delivered_at row = None \<and> cr_cancelled_at row = None
      | CbDelivered \<Rightarrow> cr_delivered_at row \<noteq> None \<and> cr_cancelled_at row = None
      | CbCancelled \<Rightarrow> cr_emitted_at row = None \<and> cr_delivered_at row = None \<and> cr_cancelled_at row \<noteq> None)"

definition ingress_row_ok :: "ingress_row \<Rightarrow> bool" where
  "ingress_row_ok row \<longleftrightarrow>
     (case ir_status row of
        InPending \<Rightarrow> ir_emitted_at row = None \<and> ir_delivered_at row = None
      | InEmitted \<Rightarrow> ir_emitted_at row \<noteq> None \<and> ir_delivered_at row = None
      | InDelivered \<Rightarrow> ir_delivered_at row \<noteq> None)"

definition same_dedupe :: "callback_row \<Rightarrow> callback_row \<Rightarrow> bool" where
  "same_dedupe a b \<longleftrightarrow> cr_source_key a = cr_source_key b \<and> cr_dedupe_key a = cr_dedupe_key b \<and> cr_dedupe_key a \<noteq> None"

definition callbacks_inv :: "callback_row list \<Rightarrow> bool" where
  "callbacks_inv rows \<longleftrightarrow> distinct (map cr_callback_id rows) \<and> (\<forall>r \<in> set rows. callback_row_ok r)
     \<and> (\<forall>a \<in> set rows. \<forall>b \<in> set rows. cancellable a \<and> cancellable b \<and> same_dedupe a b \<longrightarrow> a = b)"

definition ingress_inv :: "ingress_row list \<Rightarrow> bool" where
  "ingress_inv rows \<longleftrightarrow> distinct (map ir_ingress_id rows) \<and> (\<forall>r \<in> set rows. ingress_row_ok r)"

definition state_inv :: "runner_state \<Rightarrow> bool" where
  "state_inv st \<longleftrightarrow> callbacks_inv (rs_callbacks st) \<and> ingress_inv (rs_ingress st)
     \<and> distinct (map fst (rs_checkpoints st)) \<and> distinct (map dr_content_hash (rs_deployments st))"

lemma distinct_upsert:
  assumes "distinct (map key rows)" "\<And>r. p r \<longleftrightarrow> key r = k" "key fresh = k" "\<And>r. key (f r) = k"
  shows "distinct (map key (tbl_upsert p f fresh rows))"
proof -
  have "map key (map (\<lambda>r. if p r then f r else r) rows) = map key rows" using assms(2,4) by simp
  then show ?thesis using assms by (auto simp: tbl_upsert_def list_ex_iff simp del: map_map)
qed

lemma callbacks_map:
  assumes "callbacks_inv rows"
    and "\<And>r. r \<in> set rows \<Longrightarrow> cr_callback_id (g r) = cr_callback_id r \<and> callback_row_ok (g r) \<and> (cancellable (g r) \<longrightarrow> g r = r)"
  shows "callbacks_inv (map g rows)"
proof -
  have ids: "map cr_callback_id (map g rows) = map cr_callback_id rows" using assms(2) by simp
  have c: "a \<in> set rows" if "a \<in> set (map g rows)" "cancellable a" for a
    using assms(2) that by (metis (no_types, lifting) imageE set_map)
  have "\<forall>r \<in> set (map g rows). callback_row_ok r" using assms(2) by simp
  moreover have "\<forall>a \<in> set (map g rows). \<forall>b \<in> set (map g rows). cancellable a \<and> cancellable b \<and> same_dedupe a b \<longrightarrow> a = b"
    using assms(1) c unfolding callbacks_inv_def by blast
  moreover have "distinct (map cr_callback_id (map g rows))" using assms(1) unfolding ids callbacks_inv_def by blast
  ultimately show ?thesis unfolding callbacks_inv_def by blast
qed

lemma callbacks_filter: "callbacks_inv rows \<Longrightarrow> callbacks_inv (filter p rows)"
  by (auto simp: callbacks_inv_def distinct_map inj_on_def)

lemma ingress_map:
  assumes "ingress_inv rows"
    and "\<And>r. r \<in> set rows \<Longrightarrow> ir_ingress_id (g r) = ir_ingress_id r \<and> ingress_row_ok (g r)"
  shows "ingress_inv (map g rows)"
proof -
  have "map ir_ingress_id (map g rows) = map ir_ingress_id rows" using assms(2) by simp
  then show ?thesis using assms by (simp add: ingress_inv_def del: map_map)
qed

lemma row_of_fields [simp]:
  "cr_callback_id (callback_row_of cb p s e d c) = sc_callback_id cb"
  "cr_status (callback_row_of cb p s e d c) = s"
  "cr_emitted_at (callback_row_of cb p s e d c) = map_option as_i64 e"
  "cr_delivered_at (callback_row_of cb p s e d c) = map_option as_i64 d"
  "cr_cancelled_at (callback_row_of cb p s e d c) = map_option as_i64 c"
  "cr_source_key (callback_row_of cb p s e d c) = sc_source_key cb"
  "cr_dedupe_key (callback_row_of cb p s e d c) = sc_dedupe_key cb"
  by (simp_all add: callback_row_of_def)

lemma upsert_callbacks:
  "rs_callbacks (snd (upsert_callback_row J db cb s e d c st)) = rs_callbacks st
   \<or> (\<exists>p. rs_callbacks (snd (upsert_callback_row J db cb s e d c st))
        = tbl_upsert (\<lambda>x. cr_callback_id x = sc_callback_id cb) (\<lambda>_. callback_row_of cb p s e d c) (callback_row_of cb p s e d c)
            (rs_callbacks st))"
  by (auto simp: upsert_callback_row_def Let_def db_execute_def split: sum.split db_status.split)

lemma upsert_frame:
  "rs_ingress (snd (upsert_callback_row J db cb s e d c st)) = rs_ingress st"
  "rs_checkpoints (snd (upsert_callback_row J db cb s e d c st)) = rs_checkpoints st"
  "rs_deployments (snd (upsert_callback_row J db cb s e d c st)) = rs_deployments st"
  by (simp_all add: upsert_callback_row_def Let_def split: sum.split prod.split)

lemma callbacks_append:
  assumes "callbacks_inv rows" "cr_callback_id row \<notin> cr_callback_id ` set rows" "callback_row_ok row"
    and "\<And>r. r \<in> set rows \<Longrightarrow> cancellable r \<Longrightarrow> \<not> same_dedupe row r"
  shows "callbacks_inv (rows @ [row])"
proof -
  have s: "\<not> same_dedupe r row" if "r \<in> set rows" "cancellable r" for r
    using assms(4) [OF that] by (auto simp: same_dedupe_def)
  have d: "distinct (map cr_callback_id (rows @ [row]))" using assms(1,2) by (simp add: callbacks_inv_def image_iff)
  have o: "\<forall>r \<in> set (rows @ [row]). callback_row_ok r" using assms(1,3) by (simp add: callbacks_inv_def)
  have "a = b" if "a \<in> set (rows @ [row])" "b \<in> set (rows @ [row])" "cancellable a" "cancellable b" "same_dedupe a b" for a b
    using that s assms(1,4) unfolding callbacks_inv_def by (cases "a = row"; cases "b = row") auto
  with d o show ?thesis unfolding callbacks_inv_def by blast
qed

lemma insert_callback_inv:
  assumes "callbacks_inv (rs_callbacks st)" "uuid \<notin> cr_callback_id ` set (rs_callbacks st)"
    and "\<And>r. r \<in> set (rs_callbacks st) \<Longrightarrow> cancellable r \<Longrightarrow> sr_dedupe_key req \<noteq> None \<Longrightarrow>
      cr_source_key r = sr_source_key req \<Longrightarrow> cr_dedupe_key r \<noteq> sr_dedupe_key req"
  shows "callbacks_inv (rs_callbacks (snd (insert_callback J db uuid req st)))"
proof -
  let ?cb = "callback_of_request uuid req"
  have n: "\<not> list_ex (\<lambda>x. cr_callback_id x = sc_callback_id ?cb) (rs_callbacks st)"
    using assms(2) by (auto simp: list_ex_iff callback_of_request_def)
  have i: "callbacks_inv (rs_callbacks st @ [callback_row_of ?cb p CbPending None None None])" for p
    by (rule callbacks_append)
      (use assms in \<open>auto simp: callback_of_request_def callback_row_ok_def same_dedupe_def\<close>)
  have e: "snd (insert_callback J db uuid req st) = snd (upsert_callback_row J db ?cb CbPending None None None st)"
    by (simp add: insert_callback_def Let_def split: prod.split)
  show ?thesis
    using upsert_callbacks [of J db ?cb CbPending None None None st] i assms(1) n unfolding e tbl_upsert_def by auto
qed

lemma find_dedupe_None:
  "find_pending_callback_by_dedupe J db k dk st = Ok None \<Longrightarrow> r \<in> set (rs_callbacks st) \<Longrightarrow> cancellable r \<Longrightarrow>
     cr_source_key r = k \<Longrightarrow> cr_dedupe_key r \<noteq> Some dk"
  by (auto simp: find_pending_callback_by_dedupe_def first_row_def res_bind_eq_Inr db_select_def filter_empty_conv
      split: db_status.splits list.splits)

lemma schedule_inv:
  assumes "callbacks_inv (rs_callbacks st)" "uuid \<notin> cr_callback_id ` set (rs_callbacks st)"
  shows "callbacks_inv (rs_callbacks (snd (schedule_callback J db uuid req st)))"
proof (cases "sr_dedupe_key req")
  case None
  then show ?thesis using insert_callback_inv [OF assms, of req J db] by (simp add: schedule_callback_def)
next
  case (Some dk)
  then show ?thesis
    using assms(1) insert_callback_inv [OF assms, of req J db] find_dedupe_None [of J db "sr_source_key req" dk st]
    by (auto simp: schedule_callback_def schedule_callback_with_dedupe_def split: sum.split option.split)
qed

lemma first_row_Some: "first_row J rows = Ok (Some cb) \<Longrightarrow> \<exists>r \<in> set rows. parse_callback_row J r = Ok cb"
  by (auto simp: first_row_def res_bind_eq_Inr split: list.splits)

lemma parse_callback_id: "parse_callback_row J r = Ok cb \<Longrightarrow> sc_callback_id cb = cr_callback_id r"
  by (auto simp: parse_callback_row_def split: sum.splits)

lemma cancel_inv:
  assumes "callbacks_inv (rs_callbacks st)"
  shows "callbacks_inv (rs_callbacks (snd (cancel_callback J db now sel st)))"
proof -
  have u: "callbacks_inv (rs_callbacks (snd (upsert_callback_row J db cb CbCancelled None None (Some now) st)))"
    if "\<exists>r \<in> set (rs_callbacks st). parse_callback_row J r = Ok cb" for cb
  proof -
    have x: "list_ex (\<lambda>x. cr_callback_id x = sc_callback_id cb) (rs_callbacks st)"
      using that parse_callback_id by (fastforce simp: list_ex_iff)
    have "callbacks_inv (map (\<lambda>x. if cr_callback_id x = sc_callback_id cb
        then callback_row_of cb p CbCancelled None None (Some now) else x) (rs_callbacks st))" for p
      by (rule callbacks_map [OF assms]) (use assms in \<open>auto simp: callback_row_ok_def cancellable_def callbacks_inv_def\<close>)
    then show ?thesis
      using upsert_callbacks [of J db cb CbCancelled None None "Some now" st] assms x unfolding tbl_upsert_def by auto
  qed
  have f: "\<exists>r \<in> set (rs_callbacks st). parse_callback_row J r = Ok cb"
    if "(case sel of ByCallbackId cid \<Rightarrow> find_pending_callback_by_id J db cid st
          | ByDedupeKey k dk \<Rightarrow> find_pending_callback_by_dedupe J db k dk st) = Ok (Some cb)" for cb
    using that by (auto simp: find_pending_callback_by_id_def find_pending_callback_by_dedupe_def res_bind_eq_Inr db_select_def
        split: cancel_callback_selector.splits db_status.splits dest!: first_row_Some)
  show ?thesis
    unfolding cancel_callback_def using assms u f by (auto simp: Let_def case_prod_beta split: sum.split option.split)
qed

lemma update_rows: "snd (db_update db p f rows) = rows \<or> snd (db_update db p f rows) = map (\<lambda>r. if p r then f r else r) rows"
  by (cases db) (simp_all add: db_update_def)

lemma execute_rows: "snd (db_execute db f rows) = rows \<or> snd (db_execute db f rows) = f rows"
  by (cases db) (simp_all add: db_execute_def)

lemma mark_delivered_inv:
  assumes "callbacks_inv (rs_callbacks st)"
  shows "callbacks_inv (rs_callbacks (snd (mark_callbacks_delivered db ids now st)))"
proof -
  let ?p = "\<lambda>row. cr_callback_id row \<in> set ids \<and> cr_status row = CbPending"
  let ?f = "\<lambda>row. row\<lparr>cr_status := CbDelivered, cr_delivered_at := Some (as_i64 now), cr_cancelled_at := None\<rparr>"
  have "callbacks_inv (map (\<lambda>r. if ?p r then ?f r else r) (rs_callbacks st))"
    by (rule callbacks_map [OF assms]) (use assms in \<open>auto simp: callback_row_ok_def cancellable_def callbacks_inv_def\<close>)
  then show ?thesis using assms update_rows [of db ?p ?f "rs_callbacks st"]
    by (auto simp: mark_callbacks_delivered_def Let_def case_prod_beta)
qed

lemma mark_emitted_inv:
  assumes "callbacks_inv (rs_callbacks st)"
  shows "callbacks_inv (rs_callbacks (snd (mark_callbacks_emitted db ids now st)))"
proof -
  have "callbacks_inv (map (\<lambda>row. if cr_callback_id row \<in> F \<and> cancellable row
      then row\<lparr>cr_emitted_at := Some (as_i64 now)\<rparr> else row) (rs_callbacks st))" for F
    by (rule callbacks_map [OF assms]) (use assms in \<open>auto simp: callback_row_ok_def cancellable_def callbacks_inv_def\<close>)
  then show ?thesis using assms
    by (auto simp: mark_callbacks_emitted_def db_select_def db_execute_def Let_def case_prod_beta split: db_status.split)
qed

lemma ingress_update_inv:
  assumes "ingress_inv rows" "\<And>r. r \<in> set rows \<Longrightarrow> p r \<Longrightarrow> ir_ingress_id (f r) = ir_ingress_id r \<and> ingress_row_ok (f r)"
  shows "ingress_inv (snd (db_update db p f rows))"
proof -
  have "ingress_inv (map (\<lambda>r. if p r then f r else r) rows)"
    by (rule ingress_map [OF assms(1)]) (use assms in \<open>auto simp: ingress_inv_def\<close>)
  then show ?thesis using update_rows [of db p f rows] assms(1) by auto
qed

lemma ingress_ops_inv:
  assumes "ingress_inv (rs_ingress st)"
  shows "ingress_inv (rs_ingress (snd (requeue_stale_ingress db before st)))"
    and "ingress_inv (rs_ingress (snd (mark_ingress_emitted db ids now st)))"
    and "ingress_inv (rs_ingress (snd (mark_ingress_delivered db ids now st)))"
    and "ingress_inv (rs_ingress (snd (enqueue_ingress_item db item st)))"
  using assms
  by (auto simp: requeue_stale_ingress_def mark_ingress_emitted_def mark_ingress_delivered_def Let_def case_prod_beta
      ingress_row_ok_def split: sum.split intro!: ingress_update_inv)
    (auto simp: enqueue_ingress_item_def db_select_def db_execute_def Let_def ingress_inv_def ingress_row_ok_def filter_empty_conv
      split: sum.split db_status.split)

lemma ops_frame:
  "rs_ingress (snd (schedule_callback J db uuid req st)) = rs_ingress st"
  "rs_checkpoints (snd (schedule_callback J db uuid req st)) = rs_checkpoints st"
  "rs_deployments (snd (schedule_callback J db uuid req st)) = rs_deployments st"
  "rs_ingress (snd (cancel_callback J db now sel st)) = rs_ingress st"
  "rs_checkpoints (snd (cancel_callback J db now sel st)) = rs_checkpoints st"
  "rs_deployments (snd (cancel_callback J db now sel st)) = rs_deployments st"
  by (simp_all add: schedule_callback_def schedule_callback_with_dedupe_def insert_callback_def cancel_callback_def Let_def
      case_prod_beta upsert_frame split: option.split sum.split)

lemmas op_frames = ops_frame mark_callbacks_emitted_def mark_callbacks_delivered_def requeue_stale_ingress_def
  mark_ingress_emitted_def mark_ingress_delivered_def enqueue_ingress_item_def purge_pre_cutover_pending_callbacks_def
  save_deployment_def remove_deployment_def save_event_producer_checkpoint_def

lemma callbacks_frame:
  "rs_callbacks (snd (requeue_stale_ingress db before st)) = rs_callbacks st"
  "rs_callbacks (snd (mark_ingress_emitted db ids now st)) = rs_callbacks st"
  "rs_callbacks (snd (mark_ingress_delivered db ids now st)) = rs_callbacks st"
  "rs_callbacks (snd (enqueue_ingress_item db item st)) = rs_callbacks st"
  "rs_callbacks (snd (save_deployment db rec st)) = rs_callbacks st"
  "rs_callbacks (snd (remove_deployment db h st)) = rs_callbacks st"
  "rs_callbacks (snd (save_event_producer_checkpoint db key cp st)) = rs_callbacks st"
  by (simp_all add: op_frames Let_def case_prod_beta split: sum.split db_status.split)

lemma other_frame:
  "rs_ingress (snd (mark_callbacks_emitted db ids now st)) = rs_ingress st"
  "rs_ingress (snd (mark_callbacks_delivered db ids now st)) = rs_ingress st"
  "rs_ingress (snd (purge_pre_cutover_pending_callbacks db st)) = rs_ingress st"
  "rs_ingress (snd (save_deployment db rec st)) = rs_ingress st"
  "rs_ingress (snd (remove_deployment db h st)) = rs_ingress st"
  "rs_ingress (snd (save_event_producer_checkpoint db key cp st)) = rs_ingress st"
  by (simp_all add: op_frames Let_def case_prod_beta split: sum.split db_status.split)

lemma keys_inv:
  assumes "state_inv st"
  shows "distinct (map fst (rs_checkpoints (apply_state_op J op st))) \<and> distinct (map dr_content_hash (rs_deployments (apply_state_op J op st)))"
proof -
  have c: "distinct (map fst (snd (db_execute db (tbl_upsert (\<lambda>row. fst row = k) (\<lambda>_. (k, v)) (k, v)) (rs_checkpoints st))))" for db k v
    using execute_rows [of db "tbl_upsert (\<lambda>row. fst row = k) (\<lambda>_. (k, v)) (k, v)" "rs_checkpoints st"] assms
      distinct_upsert [of fst "rs_checkpoints st" "\<lambda>row. fst row = k" k "(k, v)" "\<lambda>_. (k, v)"]
    by (auto simp: state_inv_def)
  have d: "distinct (map dr_content_hash (snd (db_execute db (tbl_upsert (\<lambda>x. dr_content_hash x = dr_content_hash rec) (\<lambda>_. rec) rec)
      (rs_deployments st))))" for db rec
    using execute_rows [of db "tbl_upsert (\<lambda>x. dr_content_hash x = dr_content_hash rec) (\<lambda>_. rec) rec" "rs_deployments st"] assms
      distinct_upsert [of dr_content_hash "rs_deployments st" "\<lambda>x. dr_content_hash x = dr_content_hash rec" "dr_content_hash rec" rec "\<lambda>_. rec"]
    by (auto simp: state_inv_def)
  show ?thesis using assms c d
    by (cases op) (simp_all add: op_frames state_inv_def Let_def case_prod_beta distinct_map_filter split: sum.split db_status.split)
qed

text \<open>
  C14: the runner state stays well formed.  In every state that the store's operations reach, whatever
  the database does with each of them, callback ids, ingress ids, producer keys and content hashes are
  unique; the time stamps of a row agree with its status; a cancelled callback was never emitted; and
  at most one callback that can still be cancelled exists per source key and dedupe key.
\<close>

theorem reachable_state_inv:
  assumes "reachable_state J st"
  shows "state_inv st"
  using assms
proof induction
  case start
  then show ?case by (simp add: state_inv_def empty_state_def callbacks_inv_def ingress_inv_def)
next
  case (step st op)
  have i: "callbacks_inv (rs_callbacks st)" "ingress_inv (rs_ingress st)" using step.IH by (simp_all add: state_inv_def)
  have "callbacks_inv (rs_callbacks (apply_state_op J op st))"
    using i(1) step.hyps(2)
    by (cases op) (simp_all add: callbacks_frame schedule_inv cancel_inv mark_emitted_inv mark_delivered_inv
        purge_pre_cutover_pending_callbacks_def callbacks_filter split: db_status.split)
  moreover have "ingress_inv (rs_ingress (apply_state_op J op st))"
    using i(2) by (cases op) (simp_all add: other_frame ops_frame ingress_ops_inv)
  ultimately show ?case using keys_inv [OF step.IH, of J op] by (simp add: state_inv_def)
qed

definition sample_serde :: serde_json where
  "sample_serde = \<lparr>sj_to_string = (\<lambda>_. Ok ''null''), sj_from_str = (\<lambda>_. Ok JNull)\<rparr>"

definition sample_request :: schedule_callback_request where
  "sample_request = \<lparr>sr_source_key = ''agent:follow-up'', sr_dedupe_key = Some ''d'', sr_payload = JNull,
     sr_scheduled_for_unix_ms = 20, sr_requested_at_unix_ms = 10, sr_context_id = Some ''ctx-1-1'', sr_task_id = Some ''t1'',
     sr_scheduling_context_id = Some ''ctx-1-1'', sr_scheduling_task_id = Some ''t1'', sr_requesting_agent_id = None,
     sr_requesting_message_id = None\<rparr>"

theorem reachable_state_inv_witness:
  "\<exists>st. reachable_state sample_serde st \<and> map cr_callback_id (rs_callbacks st) = [''c1''] \<and> state_inv st"
proof -
  let ?st = "apply_state_op sample_serde (ScheduleCallback DbUp ''c1'' sample_request) empty_state"
  have r: "reachable_state sample_serde ?st"
    by (rule reachable_state.step [OF reachable_state.start]) (simp add: empty_state_def)
  moreover have "map cr_callback_id (rs_callbacks ?st) = [''c1'']"
    by code_simp
  ultimately show ?thesis using reachable_state_inv [OF r] by (intro exI [of _ ?st] conjI)
qed

end
