(* ===== verification/Event_Dispatch.thy ===== *)
theory Event_Dispatch
  imports Event_Routing Tool_Metadata
begin

text \<open>
  Producers of host events and their dispatcher: \<^verbatim>\<open>ProducerRegistry\<close> and the loading of configured
  producers (\<^verbatim>\<open>baml-rt-tools/src/event_producer.rs\<close>), \<^verbatim>\<open>EventDispatcher\<close>
  (\<^verbatim>\<open>baml-rt-a2a/src/event_dispatcher.rs\<close>) and the poll cycle of the runner
  (\<^verbatim>\<open>baml-agent-runner/src/lib.rs\<close>).  The state of the host, on which producers and agents act, is a
  type parameter.
\<close>

subsection \<open>Producers and their registry\<close>

type_synonym producer_checkpoint = "string option"

record producer_poll =
  pp_events :: "produced_event list"
  pp_checkpoint :: producer_checkpoint

record 's event_producer =
  ep_key :: string
  ep_source_kinds :: "string list"
  ep_poll :: "producer_checkpoint \<Rightarrow> 's \<Rightarrow> producer_poll res \<times> 's"

record 's producer_registry =
  pr_producers :: "'s event_producer list"
  pr_checkpoints :: "string \<rightharpoonup> producer_checkpoint"

definition producer_registry_new :: "'s producer_registry" where
  "producer_registry_new = \<lparr>pr_producers = [], pr_checkpoints = Map.empty\<rparr>"

definition register_with_checkpoint ::
  "'s event_producer \<Rightarrow> producer_checkpoint \<Rightarrow> 's producer_registry \<Rightarrow> unit res \<times> 's producer_registry" where
  "register_with_checkpoint producer checkpoint reg =
     (if ep_source_kinds producer = []
      then (Err (InvalidArgument (''producer '' @ ep_key producer @ '' declares no source_kinds'')), reg)
      else if pr_checkpoints reg (ep_key producer) \<noteq> None
      then (Err (InvalidArgument (''producer '' @ ep_key producer @ '' is already registered'')), reg)
      else (Ok (), reg\<lparr>pr_checkpoints := (pr_checkpoints reg)(ep_key producer \<mapsto> checkpoint),
                       pr_producers := pr_producers reg @ [producer]\<rparr>))"

definition register_producer :: "'s event_producer \<Rightarrow> 's producer_registry \<Rightarrow> unit res \<times> 's producer_registry" where
  "register_producer producer reg = register_with_checkpoint producer None reg"

definition registry_checkpoint :: "string \<Rightarrow> 's producer_registry \<Rightarrow> producer_checkpoint" where
  "registry_checkpoint key reg = (case pr_checkpoints reg key of Some c \<Rightarrow> c | None \<Rightarrow> None)"

definition advance_checkpoint :: "string \<Rightarrow> producer_checkpoint \<Rightarrow> 's producer_registry \<Rightarrow> 's producer_registry" where
  "advance_checkpoint key checkpoint reg =
     (case pr_checkpoints reg key of
        Some _ \<Rightarrow> if checkpoint \<noteq> None then reg\<lparr>pr_checkpoints := (pr_checkpoints reg)(key \<mapsto> checkpoint)\<rparr> else reg
      | None \<Rightarrow> reg)"

subsection \<open>Loading configured producers\<close>

type_synonym bundle_config_resolver = "bundle_name \<Rightarrow> (json \<times> nat) option res"

definition load_effective_config :: "tool_function_metadata \<Rightarrow> bundle_config_resolver option \<Rightarrow> json option" where
  "load_effective_config metadata resolver =
     (let dflt = map_option tcm_default (tfm_config metadata)
      in (case (resolver, tfm_config_bundle metadata, tfm_config metadata) of
            (Some resolve, Some bundle, Some _) \<Rightarrow>
              (case resolve bundle of
                 Inr (Some (config, _)) \<Rightarrow> Some config
               | Inr None \<Rightarrow> dflt
               | Inl _ \<Rightarrow> dflt)
          | _ \<Rightarrow> dflt))"

text \<open>A provider builds the producers of a tool from its metadata, its configuration and the persisted checkpoints.\<close>

record 's event_producer_provider =
  epp_tool_name :: string
  epp_build :: "tool_function_metadata \<Rightarrow> json option \<Rightarrow> (string \<rightharpoonup> producer_checkpoint) \<Rightarrow> 's event_producer list res"

fun check_producers :: "tool_function_metadata \<Rightarrow> 's event_producer list \<Rightarrow> unit res" where
  "check_producers metadata [] = Ok ()"
| "check_producers metadata (producer # producers) =
     (let undeclared = filter (\<lambda>kind. kind \<notin> set (tfm_event_sources metadata)) (ep_source_kinds producer)
      in if undeclared \<noteq> []
         then Err (InvalidArgument (''event producer '' @ CHR 0x27 # ep_key producer @ CHR 0x27 # '' for tool '' @ CHR 0x27 #
                display_tool_name (tfm_name metadata) @ CHR 0x27 # '' emits undeclared source_kinds: '' @ join '', '' undeclared))
         else check_producers metadata producers)"

fun load_configured_event_producers_with_checkpoints ::
  "(tool_name \<Rightarrow> tool_function_metadata option) \<Rightarrow> bundle_config_resolver option \<Rightarrow> (string \<rightharpoonup> producer_checkpoint)
   \<Rightarrow> 's event_producer_provider list \<Rightarrow> 's event_producer list res" where
  "load_configured_event_producers_with_checkpoints by_name resolver persisted [] = Ok []"
| "load_configured_event_producers_with_checkpoints by_name resolver persisted (provider # providers) =
     res_bind (tool_name_parse (epp_tool_name provider)) (\<lambda>tool.
       (case by_name tool of
          None \<Rightarrow> load_configured_event_producers_with_checkpoints by_name resolver persisted providers
        | Some metadata \<Rightarrow>
            if tfm_event_sources metadata = []
            then Err (InvalidArgument (''event producer provider '' @ CHR 0x27 # epp_tool_name provider @ CHR 0x27 #
                   '' targets tool '' @ CHR 0x27 # display_tool_name (tfm_name metadata) @ CHR 0x27 #
                   '' which declares no event_sources''))
            else res_bind (epp_build provider metadata (load_effective_config metadata resolver) persisted) (\<lambda>built.
                 res_bind (check_producers metadata built) (\<lambda>_.
                 res_bind (load_configured_event_producers_with_checkpoints by_name resolver persisted providers) (\<lambda>rest.
                   Ok (built @ rest))))))"

definition load_configured_event_producers ::
  "(tool_name \<Rightarrow> tool_function_metadata option) \<Rightarrow> bundle_config_resolver option \<Rightarrow> 's event_producer_provider list
   \<Rightarrow> 's event_producer list res" where
  "load_configured_event_producers by_name resolver providers =
     load_configured_event_producers_with_checkpoints by_name resolver Map.empty providers"

subsection \<open>Dispatcher\<close>

text \<open>What the dispatcher needs of the agent registry, and the publish service.\<close>

record 's event_dispatcher =
  ed_list_agents :: "'s \<Rightarrow> agent_discovery_entry list"
  ed_port :: "'s dispatch_port"
  ed_publish_service :: "'s host_publish_service"

definition CALLBACK_SOURCE_KIND :: string where
  "CALLBACK_SOURCE_KIND = ''system/callback''"

definition deliver_event_with_producer_key ::
  "'s event_dispatcher \<Rightarrow> produced_event \<Rightarrow> string option \<Rightarrow> 's \<Rightarrow> event_delivery_outcome res \<times> 's" where
  "deliver_event_with_producer_key D event producer_key s =
     (let event = (if ev_producer_key event = None then event\<lparr>ev_producer_key := producer_key\<rparr> else event)
      in host_publish (ed_publish_service D) (ed_list_agents D s) event (ed_port D) s)"

definition deliver_event :: "'s event_dispatcher \<Rightarrow> produced_event \<Rightarrow> 's \<Rightarrow> event_delivery_outcome res \<times> 's" where
  "deliver_event D event s = deliver_event_with_producer_key D event None s"

definition merge_outcome :: "event_delivery_outcome \<Rightarrow> event_delivery_outcome \<Rightarrow> event_delivery_outcome" where
  "merge_outcome agg outcome =
     \<lparr>subscribers_matched = subscribers_matched agg + subscribers_matched outcome,
      subscribers_accepted = subscribers_accepted agg + subscribers_accepted outcome,
      acceptances = acceptances agg @ acceptances outcome,
      failures = failures agg @ failures outcome\<rparr>"

definition kind_mismatch :: "string \<Rightarrow> string list \<Rightarrow> produced_event \<Rightarrow> baml_error" where
  "kind_mismatch key declared event =
     InvalidArgument (''producer '' @ key @ '' declared source_kinds ['' @ join '', '' (map debug_str declared)
       @ ''] but emitted event with source_kind='' @ ev_source_kind event)"

text \<open>The loop over the events of one poll: the error that cut it short, the outcome so far, and whether a
  callback event found no subscriber.\<close>

fun deliver_batch ::
  "'s event_dispatcher \<Rightarrow> string \<Rightarrow> string list \<Rightarrow> produced_event list \<Rightarrow> event_delivery_outcome \<times> bool \<times> 's
   \<Rightarrow> baml_error option \<times> event_delivery_outcome \<times> bool \<times> 's" where
  "deliver_batch D key kinds [] (agg, blocked, s) = (None, agg, blocked, s)"
| "deliver_batch D key kinds (event # events) (agg, blocked, s) =
     (if ev_source_kind event \<notin> set kinds then (Some (kind_mismatch key kinds event), agg, blocked, s)
      else (case deliver_event_with_producer_key D event (Some key) s of
              (Inl err, s') \<Rightarrow> (Some err, agg, blocked, s')
            | (Inr outcome, s') \<Rightarrow>
                deliver_batch D key kinds events
                  (merge_outcome agg outcome,
                   blocked \<or> (key = CALLBACK_SOURCE_KIND \<and> subscribers_matched outcome = 0), s')))"

definition poll_producer ::
  "'s event_dispatcher \<Rightarrow> 's event_producer \<Rightarrow> 's producer_registry \<times> 's
   \<Rightarrow> (string \<times> event_delivery_outcome res) \<times> 's producer_registry \<times> 's" where
  "poll_producer D producer = (\<lambda>(reg, s).
     (let key = ep_key producer in
      (case ep_poll producer (registry_checkpoint key reg) s of
         (Inl err, s1) \<Rightarrow> ((key, Err err), reg, s1)
       | (Inr poll, s1) \<Rightarrow>
           if pp_events poll = []
           then ((key, Ok empty_outcome), advance_checkpoint key (pp_checkpoint poll) reg, s1)
           else (case deliver_batch D key (ep_source_kinds producer) (pp_events poll) (empty_outcome, False, s1) of
                   (Some err, _, _, s2) \<Rightarrow> ((key, Err err), reg, s2)
                 | (None, agg, blocked, s2) \<Rightarrow>
                     ((key, Ok agg),
                      if failures agg = [] \<and> \<not> blocked then advance_checkpoint key (pp_checkpoint poll) reg else reg,
                      s2)))))"

fun poll_producers ::
  "'s event_dispatcher \<Rightarrow> 's event_producer list \<Rightarrow> 's producer_registry \<times> 's
   \<Rightarrow> (string \<times> event_delivery_outcome res) list \<times> 's producer_registry \<times> 's" where
  "poll_producers D [] rs = ([], rs)"
| "poll_producers D (producer # producers) rs =
     (let (result, rs1) = poll_producer D producer rs;
          (results, rs2) = poll_producers D producers rs1
      in (result # results, rs2))"

definition poll_and_deliver ::
  "'s event_dispatcher \<Rightarrow> 's producer_registry \<times> 's
   \<Rightarrow> (string \<times> event_delivery_outcome res) list \<times> 's producer_registry \<times> 's" where
  "poll_and_deliver D rs = poll_producers D (pr_producers (fst rs)) rs"

text \<open>The poll cycle of the runner: poll, then persist the checkpoint of every producer whose delivery returned.\<close>

fun save_checkpoints ::
  "(string \<Rightarrow> string \<Rightarrow> 's \<Rightarrow> unit res \<times> 's) \<Rightarrow> 's producer_registry \<Rightarrow> (string \<times> event_delivery_outcome res) list \<Rightarrow> 's \<Rightarrow> 's" where
  "save_checkpoints save reg [] s = s"
| "save_checkpoints save reg ((key, Inl _) # results) s = save_checkpoints save reg results s"
| "save_checkpoints save reg ((key, Inr _) # results) s =
     save_checkpoints save reg results
       (case registry_checkpoint key reg of Some checkpoint \<Rightarrow> snd (save key checkpoint s) | None \<Rightarrow> s)"

definition run_event_poll_cycle ::
  "(string \<Rightarrow> string \<Rightarrow> 's \<Rightarrow> unit res \<times> 's) \<Rightarrow> 's event_dispatcher \<Rightarrow> 's producer_registry \<times> 's \<Rightarrow> 's producer_registry \<times> 's" where
  "run_event_poll_cycle save D rs =
     (let (results, reg, s) = poll_and_deliver D rs in (reg, save_checkpoints save reg results s))"

subsection \<open>Registry: lemmas\<close>

definition registry_ok :: "'s producer_registry \<Rightarrow> bool" where
  "registry_ok reg \<longleftrightarrow> distinct (map ep_key (pr_producers reg))
     \<and> dom (pr_checkpoints reg) = ep_key ` set (pr_producers reg)
     \<and> (\<forall>p \<in> set (pr_producers reg). ep_source_kinds p \<noteq> [])"

lemma advance_frame [simp]: "pr_producers (advance_checkpoint key cp reg) = pr_producers reg"
  by (simp add: advance_checkpoint_def split: option.split)

lemma advance_other: "k \<noteq> key \<Longrightarrow> pr_checkpoints (advance_checkpoint key cp reg) k = pr_checkpoints reg k"
  by (simp add: advance_checkpoint_def split: option.split)

lemma advance_dom [simp]: "dom (pr_checkpoints (advance_checkpoint key cp reg)) = dom (pr_checkpoints reg)"
  by (auto simp: advance_checkpoint_def split: option.split if_splits)

lemma advance_ok: "registry_ok reg \<Longrightarrow> registry_ok (advance_checkpoint key cp reg)"
  by (simp add: registry_ok_def)

lemma register_ok: "registry_ok reg \<Longrightarrow> registry_ok (snd (register_with_checkpoint p cp reg))"
  by (auto simp: register_with_checkpoint_def registry_ok_def)

lemma poll_producer_reg:
  assumes "poll_producer D p (reg, s) = (result, reg', s')"
  shows "fst result = ep_key p \<and> (reg' = reg \<or>
    (\<exists>cp out. reg' = advance_checkpoint (ep_key p) cp reg \<and> snd result = Ok out \<and> failures out = []))"
  using assms
  by (auto simp: poll_producer_def Let_def empty_outcome_def split: prod.splits sum.splits option.splits if_splits)

lemma poll_producer_frame:
  assumes "poll_producer D p (reg, s) = (result, reg', s')"
  shows "fst result = ep_key p" "pr_producers reg' = pr_producers reg" "dom (pr_checkpoints reg') = dom (pr_checkpoints reg)"
    and "k \<noteq> ep_key p \<Longrightarrow> pr_checkpoints reg' k = pr_checkpoints reg k"
    and "pr_checkpoints reg' (ep_key p) \<noteq> pr_checkpoints reg (ep_key p) \<Longrightarrow> \<exists>out. snd result = Ok out \<and> failures out = []"
proof -
  note r = poll_producer_reg [OF assms]
  show "fst result = ep_key p" "pr_producers reg' = pr_producers reg" "dom (pr_checkpoints reg') = dom (pr_checkpoints reg)"
    using r by (metis advance_frame, metis advance_frame, metis advance_dom)
  show "k \<noteq> ep_key p \<Longrightarrow> pr_checkpoints reg' k = pr_checkpoints reg k" using r advance_other by metis
  show "pr_checkpoints reg' (ep_key p) \<noteq> pr_checkpoints reg (ep_key p) \<Longrightarrow> \<exists>out. snd result = Ok out \<and> failures out = []"
    using r by metis
qed

lemma poll_producers_frame:
  assumes "poll_producers D ps (reg, s) = (results, reg', s')" "distinct (map ep_key ps)"
  shows "map fst results = map ep_key ps \<and> pr_producers reg' = pr_producers reg
    \<and> dom (pr_checkpoints reg') = dom (pr_checkpoints reg)
    \<and> (\<forall>k. pr_checkpoints reg' k \<noteq> pr_checkpoints reg k \<longrightarrow> (\<exists>out. (k, Ok out) \<in> set results \<and> failures out = []))"
  using assms
proof (induction ps arbitrary: reg s results)
  case Nil
  then show ?case by simp
next
  case (Cons p ps)
  obtain result reg1 s1 where p: "poll_producer D p (reg, s) = (result, reg1, s1)" by (metis prod_cases3)
  obtain rest where r: "poll_producers D ps (reg1, s1) = (rest, reg', s')" "results = result # rest"
    using Cons.prems(1) p by (auto simp: Let_def split: prod.splits)
  note f = poll_producer_frame [OF p]
  have ih: "map fst rest = map ep_key ps" "pr_producers reg' = pr_producers reg1" "dom (pr_checkpoints reg') = dom (pr_checkpoints reg1)"
    "\<And>k. pr_checkpoints reg' k \<noteq> pr_checkpoints reg1 k \<Longrightarrow> \<exists>out. (k, Ok out) \<in> set rest \<and> failures out = []"
    using Cons.IH [OF r(1)] Cons.prems(2) by auto
  have "\<exists>out. (k, Ok out) \<in> set results \<and> failures out = []" if c: "pr_checkpoints reg' k \<noteq> pr_checkpoints reg k" for k
  proof (cases "pr_checkpoints reg' k = pr_checkpoints reg1 k")
    case True
    then have "k = ep_key p" using c f(4) by metis
    then obtain out where "snd result = Ok out" "failures out = []" using f(5) c True by metis
    then show ?thesis using \<open>k = ep_key p\<close> f(1) r(2) by (metis list.set_intros(1) prod.collapse)
  next
    case False
    then show ?thesis using ih(4) r(2) by auto
  qed
  then show ?case using ih(1-3) f(1-3) r(2) by simp
qed

subsection \<open>What a dispatcher promises\<close>

text \<open>
  A dispatcher whose deliveries are recorded: the port appends one entry per delivery and the recorder
  appends none.  Then a batch that ends cleanly has an accepted entry for every event and every
  subscriber that matched it.
\<close>

type_synonym dispatch_entry = "agent_route_key \<times> agent_dispatch_request \<times> agent_dispatch_ack res"

definition entry_accepted :: "dispatch_entry \<Rightarrow> bool" where
  "entry_accepted entry = (case snd (snd entry) of Inr ack \<Rightarrow> ack_accepted ack | Inl _ \<Rightarrow> False)"

definition entry_of_event :: "produced_event \<Rightarrow> dispatch_entry \<Rightarrow> bool" where
  "entry_of_event event entry \<longleftrightarrow> adr_message_id (fst (snd entry)) = ev_message_id event
     \<and> adr_source_kind (fst (snd entry)) = Some (ev_source_kind event)"

lemma scope_frame [simp]:
  "adr_message_id (ensure_dispatch_task_scope t r) = adr_message_id r"
  "adr_source_kind (ensure_dispatch_task_scope t r) = adr_source_kind r"
  by (simp_all add: ensure_dispatch_task_scope_def split: option.split prod.split)

lemma request_fields [simp]:
  "adr_message_id (into_dispatch_request e) = ev_message_id e"
  "adr_source_kind (into_dispatch_request e) = Some (ev_source_kind e)"
  by (simp_all add: into_dispatch_request_def)

lemma note_failures:
  "failures (note_dispatch t a out) = [] \<longleftrightarrow> failures out = [] \<and> entry_accepted (t, r, a)"
  by (auto simp: note_dispatch_def entry_accepted_def split: sum.split)

locale dispatch_log =
  fixes D :: "'s event_dispatcher" and log :: "'s \<Rightarrow> dispatch_entry list"
  assumes port_logs: "log (snd (ed_port D t r s)) = log s @ [(t, r, fst (ed_port D t r s))]"
    and poll_unlogged: "hps_recorder (ed_publish_service D) = Some rec \<Longrightarrow> log (snd (record_source_poll rec e s)) = log s"
    and rejection_unlogged:
      "hps_recorder (ed_publish_service D) = Some rec \<Longrightarrow> log (snd (record_dispatch_rejected rec q dt d b s)) = log s"
begin

lemma loop_logs:
  "deliver_loop (ed_port D) req targets (out, s) = (out', s') \<Longrightarrow>
   \<exists>ys. log s' = log s @ ys \<and> length ys = length targets \<and> (\<forall>y \<in> set ys. adr_message_id (fst (snd y)) = adr_message_id req
      \<and> adr_source_kind (fst (snd y)) = adr_source_kind req)
     \<and> (failures out' = [] \<longrightarrow> failures out = [] \<and> (\<forall>y \<in> set ys. entry_accepted y))"
proof (induction targets arbitrary: out s)
  case Nil
  then show ?case by simp
next
  case (Cons t ts)
  let ?r = "ensure_dispatch_task_scope t req"
  obtain a s1 where p: "ed_port D t ?r s = (a, s1)" by force
  have l: "log s1 = log s @ [(t, ?r, a)]" using port_logs [of t ?r s] p by simp
  from Cons.IH [of "note_dispatch t a out" s1] Cons.prems p obtain ys where
    "log s' = log s1 @ ys" "length ys = length ts" "\<forall>y \<in> set ys. adr_message_id (fst (snd y)) = adr_message_id req
      \<and> adr_source_kind (fst (snd y)) = adr_source_kind req"
    "failures out' = [] \<longrightarrow> failures (note_dispatch t a out) = [] \<and> (\<forall>y \<in> set ys. entry_accepted y)"
    by auto
  then show ?case using l note_failures [of t a out ?r] by (intro exI [of _ "(t, ?r, a) # ys"]) auto
qed

lemma deliver_logs:
  assumes "deliver_to_subscribers entries event (ed_port D) s = (out, s')"
  shows "\<exists>ys. log s' = log s @ ys \<and> length ys = subscribers_matched out \<and> (\<forall>y \<in> set ys. entry_of_event event y)
    \<and> (failures out = [] \<longrightarrow> (\<forall>y \<in> set ys. entry_accepted y))"
proof -
  have m: "subscribers_matched out = length (matching_subscriber_routes entries (as_published_event event))"
    using deliver_answered(1,2) [OF assms] by simp
  show ?thesis
  proof (cases "matching_subscriber_routes entries (as_published_event event) = []")
    case True
    then show ?thesis using assms m by (auto simp: deliver_to_subscribers_def)
  next
    case False
    then show ?thesis
      using loop_logs [of "into_dispatch_request event" "matching_subscriber_routes entries (as_published_event event)"
          "empty_outcome\<lparr>subscribers_matched := length (matching_subscriber_routes entries (as_published_event event))\<rparr>" s out s']
        assms m by (simp add: deliver_to_subscribers_def entry_of_event_def Let_def) blast
  qed
qed

lemma failures_unlogged:
  assumes "hps_recorder (ed_publish_service D) = Some rec"
  shows "log (record_failures svc rec q fs s) = log s"
proof (induction fs arbitrary: s)
  case Nil
  then show ?case by simp
next
  case (Cons f fs)
  show ?case
  proof (cases f)
    case (Pair route d)
    then show ?thesis using Cons rejection_unlogged [OF assms] by (cases d) (simp_all add: Let_def case_prod_beta)
  qed
qed

lemma publish_logs:
  assumes "deliver_event_with_producer_key D event key s = (r, s')"
  shows "\<exists>ys. log s' = log s @ ys \<and> (\<forall>y \<in> set ys. entry_of_event event y)
    \<and> (\<forall>out. r = Ok out \<longrightarrow> length ys = subscribers_matched out \<and> (failures out = [] \<longrightarrow> (\<forall>y \<in> set ys. entry_accepted y)))"
proof -
  define e where "e = (if ev_producer_key event = None then event\<lparr>ev_producer_key := key\<rparr> else event)"
  have e: "entry_of_event e = entry_of_event event" by (simp add: e_def entry_of_event_def fun_eq_iff)
  have p: "host_publish (ed_publish_service D) (ed_list_agents D s) e (ed_port D) s = (r, s')"
    using assms by (simp add: deliver_event_with_producer_key_def e_def)
  show ?thesis
  proof (cases "hps_recorder (ed_publish_service D)")
    case None
    then obtain out where d: "deliver_to_subscribers (ed_list_agents D s) e (ed_port D) s = (out, s')" "r = Ok out"
      using p by (auto simp: host_publish_def split: prod.splits)
    show ?thesis using deliver_logs [OF d(1)] d(2) e by auto
  next
    case (Some rec)
    obtain q s1 where q: "record_source_poll rec e s = (q, s1)" by force
    have l1: "log s1 = log s" using poll_unlogged [OF Some, of e s] q by simp
    show ?thesis
    proof (cases q)
      case (Inl err)
      then show ?thesis using p Some q l1 by (auto simp: host_publish_def)
    next
      case (Inr u)
      obtain out s2 where d: "deliver_to_subscribers (ed_list_agents D s) e (ed_port D) s1 = (out, s2)" by force
      have "r = Ok out" "log s' = log s2"
        using p Some q Inr d failures_unlogged [OF Some] by (auto simp: host_publish_def)
      then show ?thesis using deliver_logs [OF d] l1 e by auto
    qed
  qed
qed

lemma batch_logs:
  "deliver_batch D key kinds events (agg, blocked, s) = (err, agg', blocked', s') \<Longrightarrow>
   \<exists>ys. log s' = log s @ ys \<and> (\<forall>y \<in> set ys. \<exists>e \<in> set events. ev_source_kind e \<in> set kinds \<and> entry_of_event e y)
     \<and> (err = None \<and> failures agg' = [] \<longrightarrow> failures agg = [] \<and> (\<forall>y \<in> set ys. entry_accepted y)
          \<and> (\<not> blocked' \<and> key = CALLBACK_SOURCE_KIND \<longrightarrow> (\<forall>e \<in> set events. \<exists>y \<in> set ys. entry_of_event e y)))
     \<and> (blocked \<longrightarrow> blocked')"
proof (induction events arbitrary: agg blocked s)
  case Nil
  then show ?case by auto
next
  case (Cons e es)
  show ?case
  proof (cases "ev_source_kind e \<in> set kinds")
    case False
    then show ?thesis using Cons.prems by auto
  next
    case True
    obtain r s1 where d: "deliver_event_with_producer_key D e (Some key) s = (r, s1)" by force
    from publish_logs [OF d] obtain ys where y: "log s1 = log s @ ys" "\<forall>y \<in> set ys. entry_of_event e y"
      "\<And>out. r = Ok out \<Longrightarrow> length ys = subscribers_matched out \<and> (failures out = [] \<longrightarrow> (\<forall>y \<in> set ys. entry_accepted y))"
      by blast
    show ?thesis
    proof (cases r)
      case (Inl x)
      then show ?thesis using Cons.prems True d y by auto
    next
      case (Inr out)
      let ?b = "blocked \<or> key = CALLBACK_SOURCE_KIND \<and> subscribers_matched out = 0"
      have "deliver_batch D key kinds es (merge_outcome agg out, ?b, s1) = (err, agg', blocked', s')"
        using Cons.prems True d Inr by simp
      from Cons.IH [OF this] obtain zs where z: "log s' = log s1 @ zs"
        "\<forall>y \<in> set zs. \<exists>e \<in> set es. ev_source_kind e \<in> set kinds \<and> entry_of_event e y"
        "err = None \<and> failures agg' = [] \<longrightarrow> failures (merge_outcome agg out) = [] \<and> (\<forall>y \<in> set zs. entry_accepted y)
          \<and> (\<not> blocked' \<and> key = CALLBACK_SOURCE_KIND \<longrightarrow> (\<forall>e \<in> set es. \<exists>y \<in> set zs. entry_of_event e y))"
        "?b \<longrightarrow> blocked'"
        by blast
      have f: "failures (merge_outcome agg out) = [] \<longleftrightarrow> failures agg = [] \<and> failures out = []"
        by (simp add: merge_outcome_def)
      have first: "\<exists>y \<in> set ys. entry_of_event e y" if "\<not> blocked'" "key = CALLBACK_SOURCE_KIND"
        using that z(4) y(2) y(3) [OF Inr] by (cases ys) auto
      show ?thesis
        by (rule exI [of _ "ys @ zs"]) (use y(1,2) y(3) [OF Inr] z True f first in auto)
    qed
  qed
qed

end

text \<open>
  A dispatcher that keeps an invariant: every delivery and every record keeps it, provided the event's
  source kind and message id are admissible, and what is admissible stays so.
\<close>

locale dispatch_invariant =
  fixes D :: "'s event_dispatcher" and I :: "'s \<Rightarrow> bool" and Q :: "string option \<Rightarrow> string option \<Rightarrow> 's \<Rightarrow> bool"
  assumes port_I: "I s \<Longrightarrow> Q (adr_source_kind r) (adr_message_id r) s \<Longrightarrow> I (snd (ed_port D t r s))"
    and port_Q: "I s \<Longrightarrow> Q k m s \<Longrightarrow> Q k m (snd (ed_port D t r s))"
    and poll_IQ: "hps_recorder (ed_publish_service D) = Some rec \<Longrightarrow>
      (I s \<longrightarrow> I (snd (record_source_poll rec e s))) \<and> (Q k m s \<longrightarrow> Q k m (snd (record_source_poll rec e s)))"
    and rejection_IQ: "hps_recorder (ed_publish_service D) = Some rec \<Longrightarrow>
      (I s \<longrightarrow> I (snd (record_dispatch_rejected rec q dt d b s))) \<and> (Q k m s \<longrightarrow> Q k m (snd (record_dispatch_rejected rec q dt d b s)))"
begin

lemma loop_IQ:
  "deliver_loop (ed_port D) req targets (out, s) = (out', s') \<Longrightarrow> I s \<Longrightarrow> Q (adr_source_kind req) (adr_message_id req) s \<Longrightarrow>
   I s' \<and> (\<forall>k m. Q k m s \<longrightarrow> Q k m s')"
proof (induction targets arbitrary: out s)
  case Nil
  then show ?case by simp
next
  case (Cons t ts)
  let ?r = "ensure_dispatch_task_scope t req"
  obtain a s1 where p: "ed_port D t ?r s = (a, s1)" by force
  have "I s1" "\<And>k m. Q k m s \<Longrightarrow> Q k m s1"
    using port_I [of s ?r t] port_Q [of s _ _ t ?r] Cons.prems p by simp_all
  then show ?case using Cons.IH [of "note_dispatch t a out" s1] Cons.prems p by auto
qed

lemma failures_IQ:
  assumes "hps_recorder (ed_publish_service D) = Some rec"
  shows "(I s \<longrightarrow> I (record_failures svc rec q fs s)) \<and> (\<forall>k m. Q k m s \<longrightarrow> Q k m (record_failures svc rec q fs s))"
proof (induction fs arbitrary: s)
  case Nil
  then show ?case by simp
next
  case (Cons f fs)
  show ?case
  proof (cases f)
    case (Pair route d)
    then show ?thesis using Cons rejection_IQ [OF assms] by (cases d) (simp_all add: Let_def case_prod_beta)
  qed
qed

lemma publish_IQ:
  assumes "deliver_event_with_producer_key D event key s = (r, s')" "I s" "Q (Some (ev_source_kind event)) (ev_message_id event) s"
  shows "I s' \<and> (\<forall>k m. Q k m s \<longrightarrow> Q k m s')"
proof -
  define e where "e = (if ev_producer_key event = None then event\<lparr>ev_producer_key := key\<rparr> else event)"
  have e: "ev_source_kind e = ev_source_kind event" "ev_message_id e = ev_message_id event" by (simp_all add: e_def)
  have p: "host_publish (ed_publish_service D) (ed_list_agents D s) e (ed_port D) s = (r, s')"
    using assms by (simp add: deliver_event_with_producer_key_def e_def)
  have d: "I s2 \<and> (\<forall>k m. Q k m s1 \<longrightarrow> Q k m s2)"
    if "deliver_to_subscribers ents e (ed_port D) s1 = (out, s2)" "I s1" "Q (Some (ev_source_kind event)) (ev_message_id event) s1"
    for ents s1 s2 out
    using that loop_IQ [of "into_dispatch_request e" "matching_subscriber_routes ents (as_published_event e)" _ s1 out s2] e
    by (auto simp: deliver_to_subscribers_def Let_def split: if_splits)
  show ?thesis
  proof (cases "hps_recorder (ed_publish_service D)")
    case None
    then obtain out where "deliver_to_subscribers (ed_list_agents D s) e (ed_port D) s = (out, s')"
      using p by (auto simp: host_publish_def split: prod.splits)
    then show ?thesis using d assms(2,3) by blast
  next
    case (Some rec)
    obtain q s1 where q: "record_source_poll rec e s = (q, s1)" by force
    have s1: "I s1" "\<And>k m. Q k m s \<Longrightarrow> Q k m s1" using poll_IQ [OF Some, of s e] q assms(2) by auto
    show ?thesis
    proof (cases q)
      case (Inl err)
      then show ?thesis using p Some q s1 by (auto simp: host_publish_def)
    next
      case (Inr u)
      obtain out s2 where o: "deliver_to_subscribers (ed_list_agents D s) e (ed_port D) s1 = (out, s2)" by force
      have s2: "I s2 \<and> (\<forall>k m. Q k m s1 \<longrightarrow> Q k m s2)" using d [OF o] s1 assms(3) by blast
      have "s' = record_failures (ed_publish_service D) rec (into_dispatch_request e) (failures out) s2"
        using p Some q Inr o by (auto simp: host_publish_def)
      then show ?thesis using failures_IQ [OF Some] s1 s2 by simp
    qed
  qed
qed

lemma batch_IQ:
  "deliver_batch D key kinds events (agg, blocked, s) = (err, agg', blocked', s') \<Longrightarrow> I s \<Longrightarrow>
   (\<forall>e \<in> set events. ev_source_kind e \<in> set kinds \<longrightarrow> Q (Some (ev_source_kind e)) (ev_message_id e) s) \<Longrightarrow>
   I s' \<and> (\<forall>k m. Q k m s \<longrightarrow> Q k m s')"
proof (induction events arbitrary: agg blocked s)
  case Nil
  then show ?case by simp
next
  case (Cons e es)
  show ?case
  proof (cases "ev_source_kind e \<in> set kinds")
    case False
    then show ?thesis using Cons.prems by simp
  next
    case True
    obtain r s1 where d: "deliver_event_with_producer_key D e (Some key) s = (r, s1)" by force
    have s1: "I s1 \<and> (\<forall>k m. Q k m s \<longrightarrow> Q k m s1)" using publish_IQ [OF d Cons.prems(2)] Cons.prems(3) True by simp
    show ?thesis
    proof (cases r)
      case (Inl x)
      then show ?thesis using Cons.prems True d s1 by simp
    next
      case (Inr out)
      have b: "deliver_batch D key kinds es (merge_outcome agg out, blocked \<or> key = CALLBACK_SOURCE_KIND \<and> subscribers_matched out = 0, s1)
        = (err, agg', blocked', s')"
        using Cons.prems True d Inr by simp
      show ?thesis using Cons.IH [OF b] s1 Cons.prems(3) by auto
    qed
  qed
qed

end

text \<open>
  C15: a cycle of the dispatcher answers for every producer and moves a checkpoint on clean delivery
  only.  There is one result per registered producer, in registration order; the registry stays well
  formed (unique keys, exactly one checkpoint entry per producer, no producer without source kinds);
  and if the checkpoint of a key changed, that producer's poll succeeded and no subscriber failed or
  rejected any of its events.  A producer that fails leaves the checkpoints of the others alone.
\<close>

theorem checkpoint_moves_on_clean_delivery:
  assumes "poll_and_deliver D (reg, s) = (results, reg', s')" "registry_ok reg"
  shows "map fst results = map ep_key (pr_producers reg) \<and> registry_ok reg'
    \<and> (\<forall>k. pr_checkpoints reg' k \<noteq> pr_checkpoints reg k \<longrightarrow> (\<exists>out. (k, Ok out) \<in> set results \<and> failures out = []))"
proof -
  have "distinct (map ep_key (pr_producers reg))" using assms(2) by (simp add: registry_ok_def)
  then show ?thesis
    using poll_producers_frame [of D "pr_producers reg" reg s results reg' s'] assms
    by (simp add: poll_and_deliver_def registry_ok_def)
qed

definition sample_producer :: "nat event_producer" where
  "sample_producer = \<lparr>ep_key = ''slack:C1'', ep_source_kinds = [''slack''],
     ep_poll = (\<lambda>cp n. (Ok \<lparr>pp_events = [sample_event], pp_checkpoint = Some ''cursor''\<rparr>, n))\<rparr>"

definition sample_dispatcher :: "nat event_dispatcher" where
  "sample_dispatcher = \<lparr>ed_list_agents = (\<lambda>_. [sample_entry ''a'']), ed_port = sample_port,
     ed_publish_service = \<lparr>hps_recorder = None, hps_deployed_agent_lookup = None\<rparr>\<rparr>"

theorem checkpoint_moves_on_clean_delivery_witness:
  "\<exists>results reg' s'. poll_and_deliver sample_dispatcher (snd (register_producer sample_producer producer_registry_new), 0) = (results, reg', s')
     \<and> registry_checkpoint ''slack:C1'' reg' = Some ''cursor'' \<and> map fst results = [''slack:C1''] \<and> registry_ok reg'"
proof -
  let ?reg = "snd (register_producer sample_producer producer_registry_new)"
  have ok: "registry_ok ?reg"
    by (simp add: register_producer_def register_with_checkpoint_def producer_registry_new_def registry_ok_def sample_producer_def)
  obtain results reg' s' where p: "poll_and_deliver sample_dispatcher (?reg, 0) = (results, reg', s')" by (metis prod_cases3)
  have "case poll_and_deliver sample_dispatcher (?reg, 0) of (results, reg', s') \<Rightarrow> registry_checkpoint ''slack:C1'' reg' = Some ''cursor''"
    by code_simp
  moreover have "pr_producers ?reg = [sample_producer]"
    by (simp add: register_producer_def register_with_checkpoint_def producer_registry_new_def sample_producer_def)
  ultimately show ?thesis
    using checkpoint_moves_on_clean_delivery [OF p ok] p by (auto simp: sample_producer_def)
qed

end
