(* ===== verification/Callbacks.thy ===== *)
theory Callbacks
  imports Runner_State Event_Dispatch
begin

text \<open>
  Scheduled callbacks: the \<^verbatim>\<open>system/callback\<close> tool (\<^verbatim>\<open>tools/system/src/callback_bundle.rs\<close>), the event
  producer that emits due callbacks (\<^verbatim>\<open>callback_producer.rs\<close>), the gate of the runner that defers them
  (\<^verbatim>\<open>baml-agent-runner/src/callback_delivery.rs\<close>), and the host on which they run.  The clock, random ids,
  what the database does with each query, the turns in flight, and what an agent does when an event
  reaches it are arguments.
\<close>

subsection \<open>The tool\<close>

datatype callback_continuation_mode = Detached | ResumeCurrentTask

record callback_schedule_input =
  csi_after_ms :: "64 word"
  csi_source_key :: string
  csi_payload :: json
  csi_dedupe_key :: "string option"
  csi_continuation :: "callback_continuation_mode option"

record callback_cancel_input =
  cci_callback_id :: "string option"
  cci_source_key :: "string option"
  cci_dedupe_key :: "string option"

record callback_scheduled_output =
  cso_callback_id :: string
  cso_source_key :: string
  cso_scheduled_for_unix_ms :: "64 word"
  cso_deduped :: bool
  cso_dispatch_context_id :: "string option"
  cso_dispatch_task_id :: "string option"
  cso_scheduling_context_id :: "string option"
  cso_scheduling_task_id :: "string option"

record callback_cancelled_output =
  cco_cancelled :: bool
  cco_callback_id :: "string option"
  cco_source_key :: "string option"
  cco_dedupe_key :: "string option"

datatype callback_tool_input = ScheduleInput callback_schedule_input | CancelInput callback_cancel_input

datatype callback_tool_output = Scheduled callback_scheduled_output | Cancelled callback_cancelled_output

definition single_quoted :: "string \<Rightarrow> string" where
  "single_quoted s = CHR 0x27 # s @ [CHR 0x27]"

definition normalize_source_key :: "string \<Rightarrow> string res" where
  "normalize_source_key raw =
     ok_or (parse_trimmed raw)
       (InvalidArgument (''system/callback sourceKey '' @ single_quoted raw @ '' is missing or has an invalid format''))"

definition normalize_optional_text :: "string option \<Rightarrow> string \<Rightarrow> string option res" where
  "normalize_optional_text raw field_name =
     (case raw of
        None \<Rightarrow> Ok None
      | Some value \<Rightarrow>
          if trim value = []
          then Err (InvalidArgument (''system/callback '' @ field_name @ '' must not be an empty string''))
          else Ok (Some (trim value)))"

definition scheduled_output :: "stored_callback \<Rightarrow> bool \<Rightarrow> callback_scheduled_output" where
  "scheduled_output cb deduped =
     (let detached = (case (sc_context_id cb, sc_task_id cb, sc_scheduling_context_id cb, sc_scheduling_task_id cb) of
            (Some dc, Some dt, Some sc, Some st) \<Rightarrow>
              if callback_scheduling_scopes_differ_from_dispatch sc st dc dt then (Some dc, Some dt) else (None, None)
          | _ \<Rightarrow> (None, None))
      in \<lparr>cso_callback_id = sc_callback_id cb, cso_source_key = sc_source_key cb,
          cso_scheduled_for_unix_ms = sc_scheduled_for_unix_ms cb, cso_deduped = deduped,
          cso_dispatch_context_id = fst detached, cso_dispatch_task_id = snd detached,
          cso_scheduling_context_id = sc_scheduling_context_id cb, cso_scheduling_task_id = sc_scheduling_task_id cb\<rparr>)"

text \<open>The session of the call: its context, its task if it has one, and its agent.  \<open>minted\<close> is the
  context and the task a detached callback runs under.\<close>

record callback_session =
  cs_context_id :: string
  cs_task_id :: "string option"
  cs_agent_id :: string

definition schedule_request ::
  "64 word \<Rightarrow> string \<times> string \<Rightarrow> callback_session \<Rightarrow> callback_schedule_input \<Rightarrow> schedule_callback_request res" where
  "schedule_request now minted session input =
     res_bind (normalize_optional_text (csi_dedupe_key input) ''dedupeKey'') (\<lambda>dedupe_key.
     res_bind (ok_or (cs_task_id session)
       (InvalidArgument ''system/callback schedule requires an active task scope (scheduling deferral)'')) (\<lambda>task.
     res_bind (case csi_continuation input of
                 Some ResumeCurrentTask \<Rightarrow>
                   if dedupe_key = None
                   then Err (InvalidArgument ''system/callback continuation=resume_current_task requires dedupeKey'')
                   else Ok (cs_context_id session, task)
               | _ \<Rightarrow> Ok minted) (\<lambda>(context, dispatch_task).
     res_bind (normalize_source_key (csi_source_key input)) (\<lambda>source_key.
       Ok \<lparr>sr_source_key = source_key, sr_dedupe_key = dedupe_key, sr_payload = csi_payload input,
           sr_scheduled_for_unix_ms = saturating_add now (csi_after_ms input), sr_requested_at_unix_ms = now,
           sr_context_id = Some context, sr_task_id = Some dispatch_task,
           sr_scheduling_context_id = Some (cs_context_id session), sr_scheduling_task_id = Some task,
           sr_requesting_agent_id = Some (cs_agent_id session), sr_requesting_message_id = None\<rparr>))))"

definition tool_schedule_callback ::
  "serde_json \<Rightarrow> db_status \<Rightarrow> 64 word \<Rightarrow> string \<Rightarrow> string \<times> string \<Rightarrow> callback_session \<Rightarrow> callback_schedule_input \<Rightarrow> runner_state
   \<Rightarrow> callback_tool_output res \<times> runner_state" where
  "tool_schedule_callback J db now uuid minted session input st =
     (case schedule_request now minted session input of
        Inl e \<Rightarrow> (Err e, st)
      | Inr req \<Rightarrow>
          (case schedule_callback J db uuid req st of
             (Inl e, st') \<Rightarrow> (Err e, st')
           | (Inr scheduled, st') \<Rightarrow>
               (Ok (Scheduled (scheduled_output (scr_callback scheduled) (\<not> scr_created scheduled))), st')))"

definition cancel_selector :: "callback_cancel_input \<Rightarrow> cancel_callback_selector res" where
  "cancel_selector input =
     res_bind (normalize_optional_text (cci_callback_id input) ''callbackId'') (\<lambda>callback.
     res_bind (normalize_optional_text (cci_source_key input) ''sourceKey'') (\<lambda>source_key.
     res_bind (normalize_optional_text (cci_dedupe_key input) ''dedupeKey'') (\<lambda>dedupe_key.
       (case (callback, source_key, dedupe_key) of
          (Some cid, None, None) \<Rightarrow> Ok (ByCallbackId cid)
        | (Some _, _, _) \<Rightarrow> Err (InvalidArgument
            ''system/callback cancel accepts either callbackId or sourceKey + dedupeKey, not both'')
        | (None, Some _, None) \<Rightarrow> Err (InvalidArgument
            ''system/callback cancel requires dedupeKey when sourceKey is provided'')
        | (None, None, Some _) \<Rightarrow> Err (InvalidArgument
            ''system/callback cancel requires sourceKey when dedupeKey is provided'')
        | (None, Some k, Some dk) \<Rightarrow> res_bind (normalize_source_key k) (\<lambda>k'. Ok (ByDedupeKey k' dk))
        | (None, None, None) \<Rightarrow> Err (InvalidArgument
            ''system/callback cancel requires callbackId or sourceKey + dedupeKey'')))))"

definition tool_cancel_callback ::
  "serde_json \<Rightarrow> db_status \<Rightarrow> 64 word \<Rightarrow> callback_cancel_input \<Rightarrow> runner_state \<Rightarrow> callback_tool_output res \<times> runner_state" where
  "tool_cancel_callback J db now input st =
     (case cancel_selector input of
        Inl e \<Rightarrow> (Err e, st)
      | Inr selector \<Rightarrow>
          (case cancel_callback J db now selector st of
             (Inl e, st') \<Rightarrow> (Err e, st')
           | (Inr cancelled, st') \<Rightarrow>
               (Ok (Cancelled \<lparr>cco_cancelled = (cancelled \<noteq> None), cco_callback_id = map_option sc_callback_id cancelled,
                               cco_source_key = map_option sc_source_key cancelled,
                               cco_dedupe_key = Option.bind cancelled sc_dedupe_key\<rparr>), st')))"

text \<open>The handler; the store may not be installed.\<close>

definition callback_handler ::
  "serde_json \<Rightarrow> db_status \<Rightarrow> 64 word \<Rightarrow> string \<Rightarrow> string \<times> string \<Rightarrow> callback_session \<Rightarrow> callback_tool_input
   \<Rightarrow> bool \<times> runner_state \<Rightarrow> callback_tool_output res \<times> runner_state" where
  "callback_handler J db now uuid minted session input = (\<lambda>(installed, st).
     (if \<not> installed then (Err (InvalidArgument ''system/callback store is not installed in this host''), st)
      else (case input of
              ScheduleInput i \<Rightarrow> tool_schedule_callback J db now uuid minted session i st
            | CancelInput i \<Rightarrow> tool_cancel_callback J db now i st)))"

subsection \<open>The producer\<close>

definition MAX_CALLBACKS_PER_POLL :: nat where
  "MAX_CALLBACKS_PER_POLL = 100"

definition ids_to_json :: "string list \<Rightarrow> json" where
  "ids_to_json ids = JObject [(''delivered_callback_ids'', JArray (map JString ids))]"

text \<open>The derived decoder of the checkpoint; a text that is not one counts as the empty checkpoint.\<close>

fun json_strings :: "json list \<Rightarrow> string list option" where
  "json_strings [] = Some []"
| "json_strings (JString s # js) = map_option ((#) s) (json_strings js)"
| "json_strings (_ # js) = None"

definition ids_of_json :: "json \<Rightarrow> string list" where
  "ids_of_json j =
     (case (case j of JObject kvs \<Rightarrow> obj_get kvs ''delivered_callback_ids'' | JArray [x] \<Rightarrow> Some x | _ \<Rightarrow> None) of
        Some (JArray js) \<Rightarrow> (case json_strings js of Some ids \<Rightarrow> ids | None \<Rightarrow> [])
      | _ \<Rightarrow> [])"

definition from_checkpoint :: "serde_json \<Rightarrow> producer_checkpoint \<Rightarrow> string list" where
  "from_checkpoint J checkpoint =
     (case checkpoint of
        None \<Rightarrow> []
      | Some raw \<Rightarrow> (case sj_from_str J raw of Inr j \<Rightarrow> ids_of_json j | Inl _ \<Rightarrow> []))"

definition to_checkpoint :: "serde_json \<Rightarrow> string list \<Rightarrow> producer_checkpoint" where
  "to_checkpoint J ids = (case sj_to_string J (ids_to_json ids) of Inr v \<Rightarrow> Some v | Inl _ \<Rightarrow> None)"

definition opt_json :: "string option \<Rightarrow> json" where
  "opt_json v = (case v of Some s \<Rightarrow> JString s | None \<Rightarrow> JNull)"

definition num_json :: "64 word \<Rightarrow> json" where
  "num_json w = JNumber (show_nat (unat w))"

definition callback_to_event :: "64 word \<Rightarrow> stored_callback \<Rightarrow> produced_event res" where
  "callback_to_event now cb =
     res_bind (ok_or (parse_trimmed (sc_source_key cb))
       (InvalidArgument (''system/callback stored invalid source key '' @ single_quoted (sc_source_key cb)))) (\<lambda>source_key.
       Ok \<lparr>ev_routing_key = ''system:callback'', ev_schema_version = ''system.callback.v1'',
           ev_source_kind = CALLBACK_SOURCE_KIND, ev_source_key = source_key,
           ev_messages = [JObject
             [(''schema_version'', JString ''system.callback.v1''),
              (''callback_id'', JString (sc_callback_id cb)),
              (''source'', JObject [(''source_kind'', JString CALLBACK_SOURCE_KIND), (''source_key'', JString (sc_source_key cb))]),
              (''scheduled_for_unix_ms'', num_json (sc_scheduled_for_unix_ms cb)),
              (''requested_at_unix_ms'', num_json (sc_requested_at_unix_ms cb)),
              (''emitted_at_unix_ms'', num_json now),
              (''dedupe_key'', opt_json (sc_dedupe_key cb)),
              (''payload'', sc_payload cb),
              (''request'', JObject
                [(''context_id'', opt_json (sc_context_id cb)), (''task_id'', opt_json (sc_task_id cb)),
                 (''scheduling_context_id'', opt_json (sc_scheduling_context_id cb)),
                 (''scheduling_task_id'', opt_json (sc_scheduling_task_id cb)),
                 (''requesting_agent_id'', opt_json (sc_requesting_agent_id cb)),
                 (''requesting_message_id'', opt_json (sc_requesting_message_id cb))])]],
           ev_context_id = sc_context_id cb, ev_task_id = sc_task_id cb,
           ev_message_id = Some (''system/callback:'' @ sc_callback_id cb), ev_producer_key = None,
           ev_metadata = (case (sc_scheduling_context_id cb, sc_scheduling_task_id cb) of
              (Some sc, Some st) \<Rightarrow> Some (JObject [(''schedulingContextId'', JString sc), (''schedulingTaskId'', JString st)])
            | _ \<Rightarrow> None)\<rparr>)"

subsection \<open>The delivery gate of the runner\<close>

text \<open>An agent is its id and whether it has a turn in flight for a context and a task.\<close>

type_synonym routed_agent = "string \<times> (string \<Rightarrow> string \<Rightarrow> bool)"

definition requesting_task_still_in_flight :: "routed_agent list \<Rightarrow> string \<Rightarrow> string \<Rightarrow> string \<Rightarrow> bool" where
  "requesting_task_still_in_flight agents agent context task =
     (case find (\<lambda>a. fst a = agent) agents of Some a \<Rightarrow> snd a context task | None \<Rightarrow> False)"

definition can_emit_callback :: "routed_agent list \<Rightarrow> stored_callback \<Rightarrow> bool res" where
  "can_emit_callback agents cb =
     (case sc_requesting_agent_id cb of
        None \<Rightarrow> Ok True
      | Some agent \<Rightarrow>
          (case (sc_scheduling_context_id cb, sc_scheduling_task_id cb) of
             (Some context, Some task) \<Rightarrow> Ok (\<not> requesting_task_still_in_flight agents agent context task)
           | _ \<Rightarrow> Ok False))"

fun gate_filter :: "(stored_callback \<Rightarrow> bool res) \<Rightarrow> stored_callback list \<Rightarrow> stored_callback list res" where
  "gate_filter gate [] = Ok []"
| "gate_filter gate (cb # cbs) =
     res_bind (gate cb) (\<lambda>ok. res_bind (gate_filter gate cbs) (\<lambda>rest. Ok (if ok then cb # rest else rest)))"

subsection \<open>One poll of the producer\<close>

text \<open>
  What other tasks do to the store while the producer runs: they schedule and cancel callbacks, take in
  webhooks, manage deployments.  Marking callbacks is the producer's business and purging that of
  start-up.
\<close>

fun foreign_op :: "state_op \<Rightarrow> bool" where
  "foreign_op (MarkCallbacksEmitted _ _ _) = False"
| "foreign_op (MarkCallbacksDelivered _ _ _) = False"
| "foreign_op (Purge _) = False"
| "foreign_op (SaveCheckpoint _ _ _) = False"
| "foreign_op _ = True"

fun run_foreign :: "serde_json \<Rightarrow> state_op list \<Rightarrow> runner_state \<Rightarrow> runner_state" where
  "run_foreign J [] st = st"
| "run_foreign J (op # ops) st = run_foreign J ops (if foreign_op op \<and> op_fresh op st then apply_state_op J op st else st)"

text \<open>
  The surroundings of a poll: whether the store is installed, successive readings of the clock, what the
  database does with successive queries, the gate, and the operations of other tasks between the
  listing of due callbacks, which takes no lock, and their claim.
\<close>

record callback_env =
  ce_installed :: bool
  ce_now :: "nat \<Rightarrow> 64 word"
  ce_db :: "nat \<Rightarrow> db_status"
  ce_gate :: "(stored_callback \<Rightarrow> bool res) option"
  ce_between :: "state_op list"

definition deliverable_callbacks :: "serde_json \<Rightarrow> callback_env \<Rightarrow> runner_state \<Rightarrow> stored_callback list res" where
  "deliverable_callbacks J E st =
     res_bind (list_due_callbacks J (ce_db E 1) (ce_now E 1) MAX_CALLBACKS_PER_POLL st) (\<lambda>due.
       let scoped = filter (\<lambda>cb. sc_scheduling_context_id cb \<noteq> None \<and> sc_scheduling_task_id cb \<noteq> None) due
       in (case ce_gate E of Some gate \<Rightarrow> gate_filter gate scoped | None \<Rightarrow> Ok scoped))"

definition claim_callbacks ::
  "serde_json \<Rightarrow> callback_env \<Rightarrow> bool \<Rightarrow> stored_callback list \<Rightarrow> runner_state \<Rightarrow> producer_poll res \<times> runner_state" where
  "claim_callbacks J E reconciled deliverable st =
     (case mark_callbacks_emitted (ce_db E 2) (map sc_callback_id deliverable) (ce_now E 2) st of
        (Inl e, st') \<Rightarrow> (Err e, st')
      | (Inr emitted, st') \<Rightarrow>
          (let claimed = filter (\<lambda>cb. sc_callback_id cb \<in> set emitted) deliverable
           in (case collect_res (callback_to_event (ce_now E 3)) claimed of
                 Inl e \<Rightarrow> (Err e, st')
               | Inr events \<Rightarrow>
                   (Ok \<lparr>pp_events = events,
                        pp_checkpoint = (if events = [] \<and> claimed = []
                                         then (if reconciled then to_checkpoint J [] else None)
                                         else to_checkpoint J (map sc_callback_id claimed))\<rparr>, st'))))"

definition callback_poll ::
  "serde_json \<Rightarrow> callback_env \<Rightarrow> producer_checkpoint \<Rightarrow> runner_state \<Rightarrow> producer_poll res \<times> runner_state" where
  "callback_poll J E checkpoint st =
     (if \<not> ce_installed E
      then (Err (InvalidArgument ''system/callback producer requires an installed callback store''), st)
      else
        let delivered = from_checkpoint J checkpoint in
        (case mark_callbacks_delivered (ce_db E 0) delivered (ce_now E 0) st of
           (Inl e, st1) \<Rightarrow> (Err e, st1)
         | (Inr _, st1) \<Rightarrow>
             (case deliverable_callbacks J E st1 of
                Inl e \<Rightarrow> (Err e, st1)
              | Inr deliverable \<Rightarrow> claim_callbacks J E (delivered \<noteq> []) deliverable (run_foreign J (ce_between E) st1))))"

subsection \<open>The host\<close>

text \<open>
  The state of a runner as far as events are concerned: the durable state, the agents that are
  deployed, the provenance store, the surroundings of the next poll, and the record of all dispatches.
\<close>

record 'p runner_host =
  rh_state :: runner_state
  rh_agents :: "agent_discovery_entry list"
  rh_provenance :: 'p
  rh_env :: callback_env
  rh_log :: "dispatch_entry list"

definition callback_message_id :: "string \<Rightarrow> string" where
  "callback_message_id i = ''system/callback:'' @ i"

definition logs_callback :: "string \<Rightarrow> dispatch_entry \<Rightarrow> bool" where
  "logs_callback i entry \<longleftrightarrow> adr_source_kind (fst (snd entry)) = Some CALLBACK_SOURCE_KIND
     \<and> adr_message_id (fst (snd entry)) = Some (callback_message_id i)"

text \<open>New callbacks get ids that no dispatch carried.\<close>

fun log_fresh :: "dispatch_entry list \<Rightarrow> state_op \<Rightarrow> bool" where
  "log_fresh entries (ScheduleCallback db uuid req) = list_all (\<lambda>entry. \<not> logs_callback uuid entry) entries"
| "log_fresh entries _ = True"

text \<open>What an agent does when an event reaches it: its answer, and the operations its tools perform.\<close>

type_synonym agent_behaviour =
  "agent_route_key \<Rightarrow> agent_dispatch_request \<Rightarrow> runner_state \<Rightarrow> agent_dispatch_ack res \<times> state_op list"

definition runner_port :: "serde_json \<Rightarrow> agent_behaviour \<Rightarrow> ('p runner_host) dispatch_port" where
  "runner_port J behave target request h =
     (let (answer, ops) = behave target request (rh_state h);
          log = rh_log h @ [(target, request, answer)]
      in (answer, h\<lparr>rh_state := run_foreign J (filter (log_fresh log) ops) (rh_state h), rh_log := log\<rparr>))"

definition lift_recorder :: "'p host_ingress_recorder \<Rightarrow> ('p runner_host) host_ingress_recorder" where
  "lift_recorder rec =
     \<lparr>record_source_poll = (\<lambda>e h. let (r, p) = record_source_poll rec e (rh_provenance h) in (r, h\<lparr>rh_provenance := p\<rparr>)),
      record_dispatch_rejected = (\<lambda>q t d b h. let (r, p) = record_dispatch_rejected rec q t d b (rh_provenance h)
                                   in (r, h\<lparr>rh_provenance := p\<rparr>))\<rparr>"

definition runner_dispatcher ::
  "serde_json \<Rightarrow> agent_behaviour \<Rightarrow> 'p host_ingress_recorder option \<Rightarrow> (agent_route_key \<Rightarrow> string option) option
   \<Rightarrow> ('p runner_host) event_dispatcher" where
  "runner_dispatcher J behave rec lookup =
     \<lparr>ed_list_agents = rh_agents, ed_port = runner_port J behave,
      ed_publish_service = \<lparr>hps_recorder = map_option lift_recorder rec, hps_deployed_agent_lookup = lookup\<rparr>\<rparr>"

definition callback_producer :: "serde_json \<Rightarrow> ('p runner_host) event_producer" where
  "callback_producer J =
     \<lparr>ep_key = CALLBACK_SOURCE_KIND, ep_source_kinds = [CALLBACK_SOURCE_KIND],
      ep_poll = (\<lambda>checkpoint h.
        let E = rh_env h;
            (r, st) = callback_poll J (E\<lparr>ce_between := filter (log_fresh (rh_log h)) (ce_between E)\<rparr>) checkpoint (rh_state h)
        in (r, h\<lparr>rh_state := st\<rparr>))\<rparr>"

definition host_save :: "string \<Rightarrow> string \<Rightarrow> 'p runner_host \<Rightarrow> unit res \<times> 'p runner_host" where
  "host_save key checkpoint h =
     (let (r, st) = save_event_producer_checkpoint (ce_db (rh_env h) 4) key checkpoint (rh_state h) in (r, h\<lparr>rh_state := st\<rparr>))"

text \<open>Start-up registers the configured producers with their persisted checkpoints.\<close>

fun register_all ::
  "(string \<rightharpoonup> string) \<Rightarrow> 's event_producer list \<Rightarrow> 's producer_registry \<Rightarrow> 's producer_registry res" where
  "register_all persisted [] reg = Ok reg"
| "register_all persisted (p # ps) reg =
     (case register_with_checkpoint p (persisted (ep_key p)) reg of
        (Inl e, _) \<Rightarrow> Err e
      | (Inr _, reg') \<Rightarrow> register_all persisted ps reg')"

definition runner_start ::
  "db_status \<Rightarrow> ('p runner_host) event_producer list \<Rightarrow> 'p runner_host \<Rightarrow> (('p runner_host) producer_registry \<times> 'p runner_host) res" where
  "runner_start db producers h =
     (case purge_pre_cutover_pending_callbacks db (rh_state h) of
        (Inl e, _) \<Rightarrow> Err e
      | (Inr _, st) \<Rightarrow>
          res_bind (list_event_producer_checkpoints db st) (\<lambda>persisted.
          res_bind (register_all persisted producers producer_registry_new) (\<lambda>reg. Ok (reg, h\<lparr>rh_state := st\<rparr>))))"

text \<open>
  The reachable hosts.  Other producers may be registered beside the callback producer if they leave the
  callbacks, the checkpoints, the surroundings and the record of dispatches alone when they poll and do not claim its key
  or its source kind.  A cycle may be cut off before it persists its checkpoints, and the runner may be
  restarted after any step.
\<close>

definition foreign_producer :: "('p runner_host) event_producer \<Rightarrow> bool" where
  "foreign_producer p \<longleftrightarrow> ep_key p \<noteq> CALLBACK_SOURCE_KIND \<and> CALLBACK_SOURCE_KIND \<notin> set (ep_source_kinds p)
     \<and> (\<forall>checkpoint h h'. snd (ep_poll p checkpoint h) = h' \<longrightarrow>
          rs_callbacks (rh_state h') = rs_callbacks (rh_state h) \<and> rs_checkpoints (rh_state h') = rs_checkpoints (rh_state h)
          \<and> rh_log h' = rh_log h \<and> rh_env h' = rh_env h)"

definition env_ok :: "callback_env \<Rightarrow> bool" where
  "env_ok E \<longleftrightarrow> (\<forall>n e. ce_db E n \<noteq> DbRejects e)"

inductive reachable_host ::
  "serde_json \<Rightarrow> agent_behaviour \<Rightarrow> 'p host_ingress_recorder option \<Rightarrow> (agent_route_key \<Rightarrow> string option) option
   \<Rightarrow> ('p runner_host) event_producer list \<Rightarrow> ('p runner_host) producer_registry \<Rightarrow> 'p runner_host \<Rightarrow> bool"
  for J behave rec lookup producers where
  first_start: "rh_state h = empty_state \<Longrightarrow> rh_log h = [] \<Longrightarrow> runner_start db producers h = Ok (reg, h') \<Longrightarrow>
     env_ok (rh_env h') \<Longrightarrow> reachable_host J behave rec lookup producers reg h'"
| environment: "reachable_host J behave rec lookup producers reg h \<Longrightarrow> env_ok E \<Longrightarrow>
     reachable_host J behave rec lookup producers reg (h\<lparr>rh_env := E, rh_agents := agents\<rparr>)"
| others: "reachable_host J behave rec lookup producers reg h \<Longrightarrow> list_all (log_fresh (rh_log h)) ops \<Longrightarrow>
     reachable_host J behave rec lookup producers reg (h\<lparr>rh_state := run_foreign J ops (rh_state h)\<rparr>)"
| cycle: "reachable_host J behave rec lookup producers reg h \<Longrightarrow>
     run_event_poll_cycle host_save (runner_dispatcher J behave rec lookup) (reg, h) = (reg', h') \<Longrightarrow>
     reachable_host J behave rec lookup producers reg' h'"
| unsaved_cycle: "reachable_host J behave rec lookup producers reg h \<Longrightarrow>
     poll_and_deliver (runner_dispatcher J behave rec lookup) (reg, h) = (results, reg', h') \<Longrightarrow>
     reachable_host J behave rec lookup producers reg' h'"
| restart: "reachable_host J behave rec lookup producers reg h \<Longrightarrow> runner_start db producers h = Ok (reg', h') \<Longrightarrow>
     reachable_host J behave rec lookup producers reg' h'"

subsection \<open>What operations do to callbacks\<close>

definition emitted_ids :: "runner_state \<Rightarrow> string set" where
  "emitted_ids st = {cr_callback_id r |r. r \<in> set (rs_callbacks st) \<and> cr_emitted_at r \<noteq> None}"

definition delivered_ids :: "runner_state \<Rightarrow> string set" where
  "delivered_ids st = {cr_callback_id r |r. r \<in> set (rs_callbacks st) \<and> cr_status r = CbDelivered}"

definition callback_ids :: "runner_state \<Rightarrow> string set" where
  "callback_ids st = cr_callback_id ` set (rs_callbacks st)"

lemma upsert_cancelled:
  fixes db :: db_status and c :: "64 word option"
  assumes inv: "callbacks_inv (rs_callbacks st)" and r: "r \<in> set (rs_callbacks st)" "cancellable r" "parse_callback_row J r = Ok cb"
    and st'_def: "st' = snd (upsert_callback_row J db cb CbCancelled None None c st)"
  shows "emitted_ids st' = emitted_ids st \<and> delivered_ids st' = delivered_ids st \<and> callback_ids st' = callback_ids st"
proof -
  have id: "sc_callback_id cb = cr_callback_id r" using parse_callback_id r(3) by blast
  have u: "x = r" if "x \<in> set (rs_callbacks st)" "cr_callback_id x = cr_callback_id r" for x
    using that inv r(1) by (metis callbacks_inv_def distinct_map inj_onD)
  have l: "list_ex (\<lambda>x. cr_callback_id x = sc_callback_id cb) (rs_callbacks st)" using r(1) id by (auto simp: list_ex_iff)
  from upsert_callbacks [of J db cb CbCancelled None None c st] l consider
    "rs_callbacks st' = rs_callbacks st"
    | p where "rs_callbacks st' = map (\<lambda>x. if cr_callback_id x = sc_callback_id cb
        then callback_row_of cb p CbCancelled None None c else x) (rs_callbacks st)"
    unfolding tbl_upsert_def st'_def by auto
  then show ?thesis
  proof cases
    case 1
    then show ?thesis by (simp add: emitted_ids_def delivered_ids_def callback_ids_def)
  next
    case (2 p)
    have ne: "cr_callback_id x \<noteq> cr_callback_id r" if "x \<in> set (rs_callbacks st)" "cr_emitted_at x \<noteq> None \<or> cr_status x = CbDelivered" for x
      using that u [OF that(1)] r(2) by (auto simp: cancellable_def)
    have "emitted_ids st' = emitted_ids st" "delivered_ids st' = delivered_ids st"
      using ne id by (auto simp: emitted_ids_def delivered_ids_def 2 split: if_splits)
    moreover have "map cr_callback_id (rs_callbacks st') = map cr_callback_id (rs_callbacks st)" using id by (simp add: 2)
    then have "callback_ids st' = callback_ids st" unfolding callback_ids_def by (metis set_map)
    ultimately show ?thesis by simp
  qed
qed

fun new_ids :: "state_op \<Rightarrow> string set" where
  "new_ids (ScheduleCallback db uuid req) = {uuid}"
| "new_ids _ = {}"

lemma insert_callback_ids:
  assumes "uuid \<notin> callback_ids st"
    and st'_def: "st' = snd (insert_callback J db uuid req st)"
  shows "emitted_ids st' = emitted_ids st \<and> delivered_ids st' = delivered_ids st \<and> callback_ids st' \<subseteq> insert uuid (callback_ids st)"
proof -
  let ?cb = "callback_of_request uuid req"
  have n: "\<not> list_ex (\<lambda>x. cr_callback_id x = sc_callback_id ?cb) (rs_callbacks st)"
    using assms(1) by (auto simp: list_ex_iff callback_of_request_def callback_ids_def)
  have e: "st' = snd (upsert_callback_row J db ?cb CbPending None None None st)"
    by (simp add: st'_def insert_callback_def Let_def case_prod_beta)
  from upsert_callbacks [of J db ?cb CbPending None None None st] n consider
    "rs_callbacks st' = rs_callbacks st"
    | p where "rs_callbacks st' = rs_callbacks st @ [callback_row_of ?cb p CbPending None None None]"
    unfolding tbl_upsert_def e by auto
  then show ?thesis
    by cases (auto simp: emitted_ids_def delivered_ids_def callback_ids_def callback_of_request_def)
qed

lemma same_callbacks:
  "rs_callbacks st' = rs_callbacks st \<Longrightarrow>
     emitted_ids st' = emitted_ids st \<and> delivered_ids st' = delivered_ids st \<and> callback_ids st' = callback_ids st"
  by (simp add: emitted_ids_def delivered_ids_def callback_ids_def)

lemma schedule_ids:
  assumes "uuid \<notin> callback_ids st"
    and st'_def: "st' = snd (schedule_callback J db uuid req st)"
  shows "emitted_ids st' = emitted_ids st \<and> delivered_ids st' = delivered_ids st \<and> callback_ids st' \<subseteq> insert uuid (callback_ids st)"
  unfolding st'_def schedule_callback_def schedule_callback_with_dedupe_def
  using insert_callback_ids [OF assms(1) refl] by (auto split: option.split sum.split)

lemma cancel_ids:
  assumes "callbacks_inv (rs_callbacks st)"
    and st'_def: "st' = snd (cancel_callback J db now sel st)"
  shows "emitted_ids st' = emitted_ids st \<and> delivered_ids st' = delivered_ids st \<and> callback_ids st' = callback_ids st"
proof -
  have f: "\<exists>r \<in> set (rs_callbacks st). cancellable r \<and> parse_callback_row J r = Ok cb"
    if "(case sel of ByCallbackId cid \<Rightarrow> find_pending_callback_by_id J db cid st
          | ByDedupeKey k dk \<Rightarrow> find_pending_callback_by_dedupe J db k dk st) = Ok (Some cb)" for cb
    using that by (auto simp: find_pending_callback_by_id_def find_pending_callback_by_dedupe_def res_bind_eq_Inr db_select_def
        split: cancel_callback_selector.splits db_status.splits dest!: first_row_Some)
  show ?thesis
  proof (cases "(case sel of ByCallbackId cid \<Rightarrow> find_pending_callback_by_id J db cid st
          | ByDedupeKey k dk \<Rightarrow> find_pending_callback_by_dedupe J db k dk st)")
    case (Inl e)
    then show ?thesis by (simp add: st'_def cancel_callback_def)
  next
    case (Inr o')
    show ?thesis
    proof (cases o')
      case None
      then show ?thesis using Inr by (simp add: st'_def cancel_callback_def)
    next
      case (Some cb)
      then obtain r where "r \<in> set (rs_callbacks st)" "cancellable r" "parse_callback_row J r = Ok cb" using f Inr by blast
      then show ?thesis using upsert_cancelled [OF assms(1) _ _ _ refl] Inr Some
        by (simp add: st'_def cancel_callback_def Let_def case_prod_beta)
    qed
  qed
qed

lemma foreign_checkpoints: "foreign_op op \<Longrightarrow> rs_checkpoints (apply_state_op J op st) = rs_checkpoints st"
  by (cases op) (simp_all add: op_frames Let_def case_prod_beta split: sum.split db_status.split)

lemma foreign_callbacks:
  "foreign_op op \<Longrightarrow> (\<And>db uuid req. op \<noteq> ScheduleCallback db uuid req) \<Longrightarrow> (\<And>db now sel. op \<noteq> CancelCallback db now sel) \<Longrightarrow>
     rs_callbacks (apply_state_op J op st) = rs_callbacks st"
  by (cases op) (auto simp: callbacks_frame)

lemma foreign_ids:
  assumes "callbacks_inv (rs_callbacks st)" "foreign_op op" "op_fresh op st"
    and st'_def: "st' = apply_state_op J op st"
  shows "callbacks_inv (rs_callbacks st') \<and> emitted_ids st' = emitted_ids st \<and> delivered_ids st' = delivered_ids st
    \<and> callback_ids st' \<subseteq> new_ids op \<union> callback_ids st"
proof -
  consider (sched) db uuid req where "op = ScheduleCallback db uuid req" | (canc) db now sel where "op = CancelCallback db now sel"
    | (other) "\<And>db uuid req. op \<noteq> ScheduleCallback db uuid req" "\<And>db now sel. op \<noteq> CancelCallback db now sel"
    by (cases op) auto
  then show ?thesis
  proof cases
    case sched
    then show ?thesis
      using assms(1,3) schedule_inv [OF assms(1)] schedule_ids [OF _ refl, of uuid st J db req] by (simp add: st'_def callback_ids_def)
  next
    case canc
    then show ?thesis using assms(1) cancel_inv [OF assms(1)] cancel_ids [OF assms(1) refl, of J db now sel] by (simp add: st'_def)
  next
    case other
    then have "rs_callbacks st' = rs_callbacks st" using foreign_callbacks assms(2) st'_def by blast
    then show ?thesis using same_callbacks [of st' st] assms(1) by auto
  qed
qed

definition log_inv :: "runner_state \<Rightarrow> dispatch_entry list \<Rightarrow> bool" where
  "log_inv st entries \<longleftrightarrow> callbacks_inv (rs_callbacks st)
     \<and> (\<forall>i \<in> delivered_ids st. \<exists>e \<in> set entries. logs_callback i e \<and> entry_accepted e)
     \<and> (\<forall>i \<in> callback_ids st. (\<exists>e \<in> set entries. logs_callback i e) \<longrightarrow> i \<in> emitted_ids st)"

lemma run_foreign_log_inv:
  "log_inv st entries \<Longrightarrow> list_all (log_fresh entries) ops \<Longrightarrow>
   log_inv (run_foreign J ops st) entries \<and> emitted_ids (run_foreign J ops st) = emitted_ids st
     \<and> rs_checkpoints (run_foreign J ops st) = rs_checkpoints st"
proof (induction ops arbitrary: st)
  case Nil
  then show ?case by simp
next
  case (Cons op ops)
  show ?case
  proof (cases "foreign_op op \<and> op_fresh op st")
    case False
    then show ?thesis using Cons by auto
  next
    case True
    let ?st = "apply_state_op J op st"
    have c: "callbacks_inv (rs_callbacks ?st)" "emitted_ids ?st = emitted_ids st" "delivered_ids ?st = delivered_ids st"
      "callback_ids ?st \<subseteq> new_ids op \<union> callback_ids st"
      using foreign_ids [OF _ _ _ refl, of st op J] True Cons.prems(1) by (auto simp: log_inv_def)
    have n: "\<not> logs_callback i e" if "i \<in> new_ids op" "e \<in> set entries" for i e
      using that Cons.prems(2) by (cases op) (auto simp: list_all_iff)
    have "log_inv ?st entries"
      using Cons.prems(1) c n unfolding log_inv_def by blast
    then show ?thesis using Cons.IH [of ?st] Cons.prems(2) True c(2) foreign_checkpoints by simp
  qed
qed

subsection \<open>A poll keeps the record sound\<close>

lemma ids_iff:
  "i \<in> emitted_ids st \<longleftrightarrow> (\<exists>x \<in> set (rs_callbacks st). i = cr_callback_id x \<and> cr_emitted_at x \<noteq> None)"
  "i \<in> delivered_ids st \<longleftrightarrow> (\<exists>x \<in> set (rs_callbacks st). i = cr_callback_id x \<and> cr_status x = CbDelivered)"
  by (auto simp: emitted_ids_def delivered_ids_def)

lemma ids_map:
  assumes "rs_callbacks st' = map f (rs_callbacks st)" "\<And>x. cr_callback_id (f x) = cr_callback_id x"
  shows "callback_ids st' = callback_ids st"
    and "i \<in> emitted_ids st' \<longleftrightarrow> (\<exists>x \<in> set (rs_callbacks st). i = cr_callback_id x \<and> cr_emitted_at (f x) \<noteq> None)"
    and "i \<in> delivered_ids st' \<longleftrightarrow> (\<exists>x \<in> set (rs_callbacks st). i = cr_callback_id x \<and> cr_status (f x) = CbDelivered)"
  using assms by (simp_all add: callback_ids_def ids_iff image_image)

lemma mark_delivered_ids:
  assumes "mark_callbacks_delivered db ids now st = (r, st')"
  shows "emitted_ids st' = emitted_ids st \<and> callback_ids st' = callback_ids st
    \<and> delivered_ids st' \<subseteq> delivered_ids st \<union> set ids \<and> rs_checkpoints st' = rs_checkpoints st"
proof -
  define f :: "callback_row \<Rightarrow> callback_row" where "f = (\<lambda>row. if cr_callback_id row \<in> set ids \<and> cr_status row = CbPending
    then row\<lparr>cr_status := CbDelivered, cr_delivered_at := Some (as_i64 now), cr_cancelled_at := None\<rparr> else row)"
  have c: "rs_checkpoints st' = rs_checkpoints st"
    using assms by (auto simp: mark_callbacks_delivered_def Let_def split: prod.splits if_splits)
  have "rs_callbacks st' = rs_callbacks st \<or> rs_callbacks st' = map f (rs_callbacks st)"
    using assms by (auto simp: mark_callbacks_delivered_def db_update_def Let_def f_def split: db_status.splits if_splits)
  then show ?thesis
  proof
    assume "rs_callbacks st' = rs_callbacks st"
    then show ?thesis using same_callbacks [of st' st] c by auto
  next
    assume m: "rs_callbacks st' = map f (rs_callbacks st)"
    have k: "cr_callback_id (f x) = cr_callback_id x" "cr_emitted_at (f x) = cr_emitted_at x" for x by (simp_all add: f_def)
    note i = ids_map [OF m k(1)]
    have "emitted_ids st' = emitted_ids st" by (rule set_eqI) (simp only: i(2) k(2) ids_iff(1) [of _ st])
    moreover have "delivered_ids st' \<subseteq> delivered_ids st \<union> set ids"
      using i(3) ids_iff(2) [of _ st] by (auto simp: f_def split: if_splits)
    ultimately show ?thesis using c i(1) by simp
  qed
qed

lemma mark_emitted_ids:
  assumes "mark_callbacks_emitted db ids now st = (r, st')" "\<And>e. db \<noteq> DbRejects e"
  shows "emitted_ids st \<subseteq> emitted_ids st' \<and> callback_ids st' = callback_ids st \<and> delivered_ids st' = delivered_ids st
    \<and> rs_checkpoints st' = rs_checkpoints st \<and> (\<forall>l. r = Ok l \<longrightarrow> set l \<subseteq> emitted_ids st')"
proof (cases "ids = []")
  case True
  then show ?thesis using assms by (auto simp: mark_callbacks_emitted_def)
next
  case ne: False
  define rows where "rows = filter (\<lambda>row. cr_callback_id row \<in> set ids \<and> cr_status row = CbPending) (rs_callbacks st)"
  define firsts where "firsts = map cr_callback_id (filter (\<lambda>row. cr_emitted_at row = None) rows)"
  define f :: "callback_row \<Rightarrow> callback_row" where "f = (\<lambda>row. if cr_callback_id row \<in> set firsts \<and> cancellable row then row\<lparr>cr_emitted_at := Some (as_i64 now)\<rparr> else row)"
  have u: "firsts = [] \<Longrightarrow> map f xs = xs" for xs by (simp add: f_def)
  have eq: "mark_callbacks_emitted db ids now st = (case db_select db rows of Inl e \<Rightarrow> (Err e, st)
      | Inr _ \<Rightarrow> (let (r, t) = (if firsts = [] then (Ok (), rs_callbacks st) else db_execute db (map f) (rs_callbacks st))
                in (res_bind r (\<lambda>_. Ok (map cr_callback_id rows)), st\<lparr>rs_callbacks := t\<rparr>)))"
    by (cases db) (simp_all add: mark_callbacks_emitted_def ne db_select_def rows_def firsts_def f_def Let_def)
  have "(rs_callbacks st' = rs_callbacks st \<and> (\<forall>l. r \<noteq> Ok l))
    \<or> (rs_callbacks st' = map f (rs_callbacks st) \<and> r = Ok (map cr_callback_id rows))"
    using assms u eq by (cases db; cases "firsts = []") (auto simp: db_select_def db_execute_def)
  moreover have c: "rs_checkpoints st' = rs_checkpoints st"
    using assms(1) by (auto simp: mark_callbacks_emitted_def Let_def split: prod.splits if_splits sum.splits)
  ultimately show ?thesis
  proof (elim disjE conjE)
    assume "rs_callbacks st' = rs_callbacks st" "\<forall>l. r \<noteq> Ok l"
    then show ?thesis using same_callbacks [of st' st] c by auto
  next
    assume m: "rs_callbacks st' = map f (rs_callbacks st)" and r: "r = Ok (map cr_callback_id rows)"
    have k: "cr_callback_id (f x) = cr_callback_id x" "cr_status (f x) = cr_status x"
      "cr_emitted_at x \<noteq> None \<Longrightarrow> cr_emitted_at (f x) \<noteq> None" for x by (simp_all add: f_def)
    note i = ids_map [OF m k(1)]
    have e: "emitted_ids st \<subseteq> emitted_ids st'"
    proof
      fix j assume "j \<in> emitted_ids st"
      then obtain x where "x \<in> set (rs_callbacks st)" "j = cr_callback_id x" "cr_emitted_at x \<noteq> None" unfolding ids_iff(1) by blast
      then show "j \<in> emitted_ids st'" unfolding i(2) using k(3) by blast
    qed
    have "delivered_ids st' = delivered_ids st"
      by (rule set_eqI) (simp only: i(3) k(2) ids_iff(2) [of _ st])
    moreover have "cr_callback_id x \<in> emitted_ids st'" if "x \<in> set rows" for x
    proof -
      have x: "x \<in> set (rs_callbacks st)" "cr_status x = CbPending" using that by (auto simp: rows_def)
      have "cr_emitted_at (f x) \<noteq> None"
      proof (cases "cr_emitted_at x")
        case None
        then have "cr_callback_id x \<in> set firsts" using that by (auto simp: firsts_def)
        then show ?thesis using None x(2) by (simp add: f_def cancellable_def)
      next
        case (Some y)
        then show ?thesis by (simp add: f_def)
      qed
      then show ?thesis unfolding i(2) using x(1) by blast
    qed
    ultimately show ?thesis using e c r i(1) by auto
  qed
qed

lemma log_inv_ids:
  assumes "log_inv st entries" "callbacks_inv (rs_callbacks st')" "emitted_ids st \<subseteq> emitted_ids st'" "callback_ids st' = callback_ids st"
    and "\<And>i. i \<in> delivered_ids st' \<Longrightarrow> i \<in> delivered_ids st \<or> (\<exists>e \<in> set entries. logs_callback i e \<and> entry_accepted e)"
  shows "log_inv st' entries"
  using assms unfolding log_inv_def by blast

lemma callback_event_fields:
  "callback_to_event now cb = Ok e \<Longrightarrow>
     ev_source_kind e = CALLBACK_SOURCE_KIND \<and> ev_message_id e = Some (callback_message_id (sc_callback_id cb))"
  by (auto simp: callback_to_event_def callback_message_id_def res_bind_eq_Inr)

lemma collect_res_all2: "collect_res f xs = Ok ys \<Longrightarrow> list_all2 (\<lambda>x y. f x = Ok y) xs ys"
  by (induction xs arbitrary: ys) (auto simp: res_bind_eq_Inr)

lemma claim_spec:
  assumes "claim_callbacks J E reconciled deliverable st = (r, st')" "log_inv st entries" "env_ok E"
  shows "log_inv st' entries \<and> rs_checkpoints st' = rs_checkpoints st
    \<and> (\<forall>poll. r = Ok poll \<longrightarrow> (\<exists>ids. set ids \<subseteq> emitted_ids st' \<and> list_all2 (\<lambda>i e. ev_source_kind e = CALLBACK_SOURCE_KIND
          \<and> ev_message_id e = Some (callback_message_id i)) ids (pp_events poll)
        \<and> (pp_checkpoint poll = None \<or> pp_checkpoint poll = to_checkpoint J ids)))"
proof -
  obtain l st1 where m: "mark_callbacks_emitted (ce_db E 2) (map sc_callback_id deliverable) (ce_now E 2) st = (l, st1)" by force
  have st': "st' = st1" using assms(1) m by (auto simp: claim_callbacks_def Let_def split: sum.splits)
  have db: "\<And>e. ce_db E 2 \<noteq> DbRejects e" using assms(3) by (simp add: env_ok_def)
  note ids = mark_emitted_ids [OF m db]
  have "callbacks_inv (rs_callbacks st1)"
    using mark_emitted_inv [of st "ce_db E 2" "map sc_callback_id deliverable" "ce_now E 2"] m assms(2) by (simp add: log_inv_def)
  then have "log_inv st1 entries" using log_inv_ids [OF assms(2), of st1] ids by blast
  moreover have "\<exists>ids. set ids \<subseteq> emitted_ids st' \<and> list_all2 (\<lambda>i e. ev_source_kind e = CALLBACK_SOURCE_KIND
          \<and> ev_message_id e = Some (callback_message_id i)) ids (pp_events poll)
        \<and> (pp_checkpoint poll = None \<or> pp_checkpoint poll = to_checkpoint J ids)" if ok: "r = Ok poll" for poll
  proof -
    obtain emitted where em: "l = Ok emitted" using assms(1) m ok by (auto simp: claim_callbacks_def split: sum.splits)
    define claimed where "claimed = filter (\<lambda>cb. sc_callback_id cb \<in> set emitted) deliverable"
    obtain events where ev: "collect_res (callback_to_event (ce_now E 3)) claimed = Ok events" "pp_events poll = events"
      "pp_checkpoint poll = (if events = [] \<and> claimed = [] then (if reconciled then to_checkpoint J [] else None)
         else to_checkpoint J (map sc_callback_id claimed))"
      using assms(1) m em ok by (auto simp: claim_callbacks_def claimed_def Let_def split: sum.splits)
    have "list_all2 (\<lambda>i e. ev_source_kind e = CALLBACK_SOURCE_KIND \<and> ev_message_id e = Some (callback_message_id i))
        (map sc_callback_id claimed) events"
      using collect_res_all2 [OF ev(1)] callback_event_fields unfolding list_all2_map1 by (rule list_all2_mono)
    moreover have "set (map sc_callback_id claimed) \<subseteq> emitted_ids st'" using ids em st' by (auto simp: claimed_def)
    moreover have "pp_checkpoint poll = None \<or> pp_checkpoint poll = to_checkpoint J (map sc_callback_id claimed)"
      using ev(3) by (auto split: if_splits)
    ultimately show ?thesis using ev(2) by blast
  qed
  ultimately show ?thesis using ids st' by blast
qed

end
