(* ===== verification/Callback_Delivery.thy ===== *)
theory Callback_Delivery
  imports Callbacks
begin

text \<open>
  What the delivery of callbacks guarantees on every reachable host, across agents that schedule and cancel
  callbacks while they handle events, other producers, cycles cut off before their checkpoints are
  persisted, and restarts.
\<close>

subsection \<open>Checkpoints\<close>

definition accepted_callback :: "dispatch_entry list \<Rightarrow> string \<Rightarrow> bool" where
  "accepted_callback entries i \<longleftrightarrow> (\<exists>e \<in> set entries. logs_callback i e \<and> entry_accepted e)"

definition checkpoint_ok :: "serde_json \<Rightarrow> producer_checkpoint \<Rightarrow> dispatch_entry list \<Rightarrow> bool" where
  "checkpoint_ok J checkpoint entries \<longleftrightarrow> (\<forall>i \<in> set (from_checkpoint J checkpoint). accepted_callback entries i)"

text \<open>Reading back a JSON text gives the value that was written.\<close>

definition serde_round_trip :: "serde_json \<Rightarrow> bool" where
  "serde_round_trip J \<longleftrightarrow> (\<forall>v t. sj_to_string J v = Ok t \<longrightarrow> sj_from_str J t = Ok v)"

lemma json_strings_map [simp]: "json_strings (map JString ids) = Some ids"
  by (induction ids) simp_all

lemma checkpoint_round_trip:
  assumes "serde_round_trip J" "to_checkpoint J ids = Some raw"
  shows "from_checkpoint J (Some raw) = ids"
  using assms
  by (auto simp: to_checkpoint_def from_checkpoint_def serde_round_trip_def ids_to_json_def ids_of_json_def obj_get_def split: sum.splits)

lemma accepted_mono: "accepted_callback es i \<Longrightarrow> accepted_callback (es @ fs) i"
  by (auto simp: accepted_callback_def)

lemma checkpoint_mono: "checkpoint_ok J cp es \<Longrightarrow> checkpoint_ok J cp (es @ fs)"
  by (auto simp: checkpoint_ok_def accepted_mono)

lemma log_inv_delivered: "log_inv st es \<Longrightarrow> i \<in> delivered_ids st \<Longrightarrow> accepted_callback es i"
  by (simp add: log_inv_def accepted_callback_def)

subsection \<open>The producer\<close>

lemma callback_poll_spec:
  assumes "callback_poll J E cp st = (r, st')" "log_inv st entries" "checkpoint_ok J cp entries" "env_ok E"
    and "list_all (log_fresh entries) (ce_between E)"
  shows "log_inv st' entries \<and> rs_checkpoints st' = rs_checkpoints st
    \<and> (\<forall>poll. r = Ok poll \<longrightarrow> (\<exists>ids. set ids \<subseteq> emitted_ids st' \<and> list_all2 (\<lambda>i e. ev_source_kind e = CALLBACK_SOURCE_KIND
          \<and> ev_message_id e = Some (callback_message_id i)) ids (pp_events poll)
        \<and> (pp_checkpoint poll = None \<or> pp_checkpoint poll = to_checkpoint J ids)))"
proof (cases "ce_installed E")
  case False
  then show ?thesis using assms by (auto simp: callback_poll_def)
next
  case True
  let ?ids = "from_checkpoint J cp"
  obtain m st1 where m: "mark_callbacks_delivered (ce_db E 0) ?ids (ce_now E 0) st = (m, st1)" by force
  have "callbacks_inv (rs_callbacks st1)"
    using mark_delivered_inv [of st "ce_db E 0" ?ids "ce_now E 0"] m assms(2) by (simp add: log_inv_def)
  then have l1: "log_inv st1 entries"
    using log_inv_ids [OF assms(2), of st1] mark_delivered_ids [OF m] assms(3)
    unfolding checkpoint_ok_def accepted_callback_def by blast
  have c1: "rs_checkpoints st1 = rs_checkpoints st" using mark_delivered_ids [OF m] by simp
  show ?thesis
  proof (cases "\<exists>u deliverable. m = Ok u \<and> deliverable_callbacks J E st1 = Ok deliverable")
    case False
    then show ?thesis using assms(1) True m l1 c1 by (auto simp: callback_poll_def Let_def split: sum.splits)
  next
    case True
    then obtain deliverable where d: "deliverable_callbacks J E st1 = Ok deliverable" "m = Ok ()" by auto
    let ?st2 = "run_foreign J (ce_between E) st1"
    have f: "log_inv ?st2 entries" "rs_checkpoints ?st2 = rs_checkpoints st1"
      using run_foreign_log_inv [OF l1 assms(5)] by auto
    have "claim_callbacks J E (?ids \<noteq> []) deliverable ?st2 = (r, st')"
      using assms(1) \<open>ce_installed E\<close> m d by (simp add: callback_poll_def)
    from claim_spec [OF this f(1) assms(4)] show ?thesis using f(2) c1 by simp
  qed
qed

subsection \<open>The dispatcher of the runner\<close>

interpretation runner_log: dispatch_log "runner_dispatcher J behave rec lookup" rh_log for J behave rec lookup
  by unfold_locales
    (auto simp: runner_dispatcher_def runner_port_def lift_recorder_def Let_def split: prod.splits)

definition admissible :: "string option \<Rightarrow> string option \<Rightarrow> 'p runner_host \<Rightarrow> bool" where
  "admissible k m h \<longleftrightarrow> (k = Some CALLBACK_SOURCE_KIND \<longrightarrow> (\<exists>i \<in> emitted_ids (rh_state h). m = Some (callback_message_id i)))"

definition dispatch_ok :: "(string \<times> string) list \<Rightarrow> callback_env \<Rightarrow> 'p runner_host \<Rightarrow> bool" where
  "dispatch_ok cps E h \<longleftrightarrow> log_inv (rh_state h) (rh_log h) \<and> rs_checkpoints (rh_state h) = cps \<and> rh_env h = E"

lemma callback_message_id_inj [simp]: "callback_message_id i = callback_message_id j \<longleftrightarrow> i = j"
  by (simp add: callback_message_id_def)

lemma log_inv_append:
  assumes "log_inv st es" "\<And>i. i \<in> callback_ids st \<Longrightarrow> logs_callback i e \<Longrightarrow> i \<in> emitted_ids st"
  shows "log_inv st (es @ [e])"
  using assms unfolding log_inv_def by auto

lemma log_fresh_mono: "log_fresh (es @ fs) op \<Longrightarrow> log_fresh es op"
  by (cases op) simp_all

lemma port_step:
  assumes "dispatch_ok cps E h"
  shows "emitted_ids (rh_state (snd (runner_port J behave t r h))) = emitted_ids (rh_state h)"
    and "admissible (adr_source_kind r) (adr_message_id r) h \<Longrightarrow> dispatch_ok cps E (snd (runner_port J behave t r h))"
proof -
  obtain a ops where b: "behave t r (rh_state h) = (a, ops)" by force
  let ?es = "rh_log h @ [(t, r, a)]"
  let ?st = "run_foreign J (filter (log_fresh ?es) ops) (rh_state h)"
  have "list_all (log_fresh (rh_log h)) (filter (log_fresh ?es) ops)" by (auto simp: list_all_iff dest: log_fresh_mono)
  then show "emitted_ids (rh_state (snd (runner_port J behave t r h))) = emitted_ids (rh_state h)"
    using run_foreign_log_inv [of "rh_state h" "rh_log h"] assms b by (simp add: runner_port_def Let_def dispatch_ok_def)
  assume q: "admissible (adr_source_kind r) (adr_message_id r) h"
  have "log_inv (rh_state h) ?es"
    using assms q by (intro log_inv_append) (auto simp: dispatch_ok_def admissible_def logs_callback_def)
  then have "log_inv ?st ?es \<and> rs_checkpoints ?st = rs_checkpoints (rh_state h)"
    using run_foreign_log_inv [of "rh_state h" ?es "filter (log_fresh ?es) ops" J] by (simp add: list_all_iff)
  then show "dispatch_ok cps E (snd (runner_port J behave t r h))"
    using assms b by (simp add: runner_port_def Let_def dispatch_ok_def)
qed

interpretation runner_inv: dispatch_invariant "runner_dispatcher J behave rec lookup" "dispatch_ok cps E" admissible
  for J behave rec lookup cps E
proof
  fix s :: "'a runner_host" and r t k m
  show "dispatch_ok cps E s \<Longrightarrow> admissible (adr_source_kind r) (adr_message_id r) s \<Longrightarrow>
      dispatch_ok cps E (snd (ed_port (runner_dispatcher J behave rec lookup) t r s))"
    by (simp add: runner_dispatcher_def port_step)
  show "dispatch_ok cps E s \<Longrightarrow> admissible k m s \<Longrightarrow> admissible k m (snd (ed_port (runner_dispatcher J behave rec lookup) t r s))"
    by (simp add: runner_dispatcher_def admissible_def port_step)
qed (auto simp: runner_dispatcher_def lift_recorder_def dispatch_ok_def admissible_def Let_def split: prod.splits)

subsection \<open>The invariant of the host\<close>

definition host_inv :: "serde_json \<Rightarrow> ('p runner_host) producer_registry \<Rightarrow> 'p runner_host \<Rightarrow> bool" where
  "host_inv J reg h \<longleftrightarrow> log_inv (rh_state h) (rh_log h) \<and> env_ok (rh_env h)
     \<and> checkpoint_ok J (registry_checkpoint CALLBACK_SOURCE_KIND reg) (rh_log h)
     \<and> (\<forall>v. (CALLBACK_SOURCE_KIND, v) \<in> set (rs_checkpoints (rh_state h)) \<longrightarrow> checkpoint_ok J (Some v) (rh_log h))"

definition event_of_callback :: "string \<Rightarrow> produced_event \<Rightarrow> bool" where
  "event_of_callback i e \<longleftrightarrow> ev_source_kind e = CALLBACK_SOURCE_KIND \<and> ev_message_id e = Some (callback_message_id i)"

lemma polled:
  assumes inv: "host_inv J reg h" and p: "p = callback_producer J \<or> foreign_producer p"
    and poll: "ep_poll p (registry_checkpoint (ep_key p) reg) h = (r, h1)"
  shows "log_inv (rh_state h1) (rh_log h1)" "rh_log h1 = rh_log h" "rs_checkpoints (rh_state h1) = rs_checkpoints (rh_state h)"
    "rh_env h1 = rh_env h"
    and "r = Ok pl \<Longrightarrow> e \<in> set (pp_events pl) \<Longrightarrow> ev_source_kind e \<in> set (ep_source_kinds p) \<Longrightarrow>
      admissible (Some (ev_source_kind e)) (ev_message_id e) h1"
    and "r = Ok pl \<Longrightarrow> ep_key p = CALLBACK_SOURCE_KIND \<Longrightarrow>
      \<exists>ids. list_all2 event_of_callback ids (pp_events pl) \<and> (pp_checkpoint pl = None \<or> pp_checkpoint pl = to_checkpoint J ids)"
proof -
  have "log_inv (rh_state h1) (rh_log h1) \<and> rh_log h1 = rh_log h \<and> rs_checkpoints (rh_state h1) = rs_checkpoints (rh_state h)
    \<and> rh_env h1 = rh_env h \<and> (r = Ok pl \<and> e \<in> set (pp_events pl) \<and> ev_source_kind e \<in> set (ep_source_kinds p) \<longrightarrow>
        admissible (Some (ev_source_kind e)) (ev_message_id e) h1)
    \<and> (r = Ok pl \<and> ep_key p = CALLBACK_SOURCE_KIND \<longrightarrow> (\<exists>ids. list_all2 event_of_callback ids (pp_events pl)
        \<and> (pp_checkpoint pl = None \<or> pp_checkpoint pl = to_checkpoint J ids)))"
    using p
  proof
    assume c: "p = callback_producer J"
    let ?E = "(rh_env h)\<lparr>ce_between := filter (log_fresh (rh_log h)) (ce_between (rh_env h))\<rparr>"
    obtain st' where st': "callback_poll J ?E (registry_checkpoint CALLBACK_SOURCE_KIND reg) (rh_state h) = (r, st')" "h1 = h\<lparr>rh_state := st'\<rparr>"
      using poll by (auto simp: c callback_producer_def Let_def split: prod.splits)
    have spec: "log_inv st' (rh_log h) \<and> rs_checkpoints st' = rs_checkpoints (rh_state h)
      \<and> (\<forall>poll. r = Ok poll \<longrightarrow> (\<exists>ids. set ids \<subseteq> emitted_ids st' \<and> list_all2 event_of_callback ids (pp_events poll)
        \<and> (pp_checkpoint poll = None \<or> pp_checkpoint poll = to_checkpoint J ids)))"
      using callback_poll_spec [OF st'(1), of "rh_log h"] inv
      by (simp add: host_inv_def env_ok_def list_all_iff event_of_callback_def [abs_def])
    moreover have "admissible (Some (ev_source_kind e)) (ev_message_id e) h1" if ok: "r = Ok pl" "e \<in> set (pp_events pl)"
    proof -
      from spec ok obtain ids where i: "set ids \<subseteq> emitted_ids st'" "list_all2 event_of_callback ids (pp_events pl)" by blast
      then obtain i where "i \<in> set ids" "event_of_callback i e" using ok(2) by (metis in_set_conv_nth list_all2_conv_all_nth)
      then show ?thesis using i(1) st'(2) by (auto simp: admissible_def event_of_callback_def)
    qed
    ultimately show ?thesis using st'(2) by auto
  next
    assume f: "foreign_producer p"
    have "snd (ep_poll p (registry_checkpoint (ep_key p) reg) h) = h1" using poll by simp
    then have "rs_callbacks (rh_state h1) = rs_callbacks (rh_state h)" "rs_checkpoints (rh_state h1) = rs_checkpoints (rh_state h)"
      "rh_log h1 = rh_log h" "rh_env h1 = rh_env h" "ep_key p \<noteq> CALLBACK_SOURCE_KIND" "CALLBACK_SOURCE_KIND \<notin> set (ep_source_kinds p)"
      using f unfolding foreign_producer_def by blast+
    moreover from this have "log_inv (rh_state h1) (rh_log h1)"
      using inv same_callbacks [of "rh_state h1" "rh_state h"] by (simp add: host_inv_def log_inv_def)
    ultimately show ?thesis by (auto simp: admissible_def)
  qed
  then show "log_inv (rh_state h1) (rh_log h1)" "rh_log h1 = rh_log h" "rs_checkpoints (rh_state h1) = rs_checkpoints (rh_state h)"
    "rh_env h1 = rh_env h"
    "r = Ok pl \<Longrightarrow> e \<in> set (pp_events pl) \<Longrightarrow> ev_source_kind e \<in> set (ep_source_kinds p) \<Longrightarrow>
      admissible (Some (ev_source_kind e)) (ev_message_id e) h1"
    "r = Ok pl \<Longrightarrow> ep_key p = CALLBACK_SOURCE_KIND \<Longrightarrow>
      \<exists>ids. list_all2 event_of_callback ids (pp_events pl) \<and> (pp_checkpoint pl = None \<or> pp_checkpoint pl = to_checkpoint J ids)"
    by blast+
qed

lemma registry_checkpoint_advance:
  "registry_checkpoint k (advance_checkpoint key cp reg) = registry_checkpoint k reg
   \<or> (k = key \<and> cp \<noteq> None \<and> registry_checkpoint k (advance_checkpoint key cp reg) = cp)"
  by (auto simp: registry_checkpoint_def advance_checkpoint_def split: option.split)

lemma host_inv_grow:
  assumes "host_inv J reg h" "log_inv (rh_state h') (rh_log h')" "rh_log h' = rh_log h @ ys"
    "rs_checkpoints (rh_state h') = rs_checkpoints (rh_state h)" "rh_env h' = rh_env h"
    and "checkpoint_ok J (registry_checkpoint CALLBACK_SOURCE_KIND reg) (rh_log h') \<Longrightarrow>
      checkpoint_ok J (registry_checkpoint CALLBACK_SOURCE_KIND reg') (rh_log h')"
  shows "host_inv J reg' h'"
  using assms checkpoint_mono unfolding host_inv_def by metis

lemma batch_host:
  assumes "deliver_batch (runner_dispatcher J behave rec lookup) key kinds events (agg, b, h) = (err, agg', b', h')"
    and "log_inv (rh_state h) (rh_log h)"
    and "\<And>e. e \<in> set events \<Longrightarrow> ev_source_kind e \<in> set kinds \<Longrightarrow> admissible (Some (ev_source_kind e)) (ev_message_id e) h"
  shows "log_inv (rh_state h') (rh_log h') \<and> rs_checkpoints (rh_state h') = rs_checkpoints (rh_state h) \<and> rh_env h' = rh_env h
    \<and> (\<exists>ys. rh_log h' = rh_log h @ ys \<and> (err = None \<and> failures agg' = [] \<and> \<not> b' \<and> key = CALLBACK_SOURCE_KIND \<longrightarrow>
          (\<forall>e \<in> set events. \<exists>y \<in> set ys. entry_of_event e y \<and> entry_accepted y)))"
proof -
  have "dispatch_ok (rs_checkpoints (rh_state h)) (rh_env h) h" using assms(2) by (simp add: dispatch_ok_def)
  then have "dispatch_ok (rs_checkpoints (rh_state h)) (rh_env h) h'"
    using runner_inv.batch_IQ [OF assms(1)] assms(3) by blast
  moreover obtain ys where "rh_log h' = rh_log h @ ys" "err = None \<and> failures agg' = [] \<longrightarrow> (\<forall>y \<in> set ys. entry_accepted y)
      \<and> (\<not> b' \<and> key = CALLBACK_SOURCE_KIND \<longrightarrow> (\<forall>e \<in> set events. \<exists>y \<in> set ys. entry_of_event e y))"
    using runner_log.batch_logs [OF assms(1)] by blast
  ultimately show ?thesis unfolding dispatch_ok_def by blast
qed

lemma poll_producer_host:
  assumes inv: "host_inv J reg h" and J: "serde_round_trip J" and p: "p = callback_producer J \<or> foreign_producer p"
    and step: "poll_producer (runner_dispatcher J behave rec lookup) p (reg, h) = (result, reg', h')"
  shows "host_inv J reg' h'"
proof -
  let ?D = "runner_dispatcher J behave rec lookup"
  obtain r h1 where poll: "ep_poll p (registry_checkpoint (ep_key p) reg) h = (r, h1)" by force
  note q = polled [OF inv p poll]
  have base: "host_inv J reg h1" by (rule host_inv_grow [OF inv q(1), of "[]"]) (use q in simp_all)
  show ?thesis
  proof (cases r)
    case (Inl x)
    then show ?thesis using step poll base by (simp add: poll_producer_def Let_def)
  next
    case (Inr pl)
    show ?thesis
    proof (cases "pp_events pl = []")
      case True
      have s: "reg' = advance_checkpoint (ep_key p) (pp_checkpoint pl) reg" "h' = h1"
        using step poll Inr True by (simp_all add: poll_producer_def Let_def)
      have "checkpoint_ok J (pp_checkpoint pl) (rh_log h1)" if "ep_key p = CALLBACK_SOURCE_KIND" "pp_checkpoint pl \<noteq> None"
      proof -
        from q(6) [OF Inr that(1)] True that(2) have "pp_checkpoint pl = to_checkpoint J []" by auto
        then show ?thesis using that(2) checkpoint_round_trip [OF J, of "[]"] by (auto simp: checkpoint_ok_def)
      qed
      then have c: "checkpoint_ok J (registry_checkpoint CALLBACK_SOURCE_KIND reg') (rh_log h1)"
        if "checkpoint_ok J (registry_checkpoint CALLBACK_SOURCE_KIND reg) (rh_log h1)"
        using registry_checkpoint_advance [of CALLBACK_SOURCE_KIND "ep_key p" "pp_checkpoint pl" reg] that unfolding s(1) by auto
      show ?thesis
        unfolding s(2) by (rule host_inv_grow [OF base q(1), of "[]"]) (use c in simp_all)
    next
      case False
      obtain err agg b h2 where d: "deliver_batch ?D (ep_key p) (ep_source_kinds p) (pp_events pl) (empty_outcome, False, h1) = (err, agg, b, h2)"
        by (metis prod_cases4)
      note bh = batch_host [OF d q(1) q(5) [OF Inr]]
      have h': "h' = h2" using step poll Inr False d by (auto simp: poll_producer_def Let_def split: option.splits)
      obtain ys where ys: "rh_log h2 = rh_log h1 @ ys" "err = None \<and> failures agg = [] \<and> \<not> b \<and> ep_key p = CALLBACK_SOURCE_KIND \<longrightarrow>
          (\<forall>e \<in> set (pp_events pl). \<exists>y \<in> set ys. entry_of_event e y \<and> entry_accepted y)" using bh by blast
      have "checkpoint_ok J (registry_checkpoint CALLBACK_SOURCE_KIND reg') (rh_log h2)"
        if old: "checkpoint_ok J (registry_checkpoint CALLBACK_SOURCE_KIND reg) (rh_log h2)"
      proof (cases "registry_checkpoint CALLBACK_SOURCE_KIND reg' = registry_checkpoint CALLBACK_SOURCE_KIND reg")
        case True
        then show ?thesis using old by simp
      next
        case changed: False
        then have adv: "err = None" "failures agg = []" "\<not> b" "reg' = advance_checkpoint (ep_key p) (pp_checkpoint pl) reg"
          using step poll Inr False d by (auto simp: poll_producer_def Let_def split: option.splits if_splits)
        then have k: "ep_key p = CALLBACK_SOURCE_KIND" "pp_checkpoint pl \<noteq> None" "registry_checkpoint CALLBACK_SOURCE_KIND reg' = pp_checkpoint pl"
          using registry_checkpoint_advance [of CALLBACK_SOURCE_KIND "ep_key p" "pp_checkpoint pl" reg] changed by auto
        then obtain ids where ids: "list_all2 event_of_callback ids (pp_events pl)" "pp_checkpoint pl = to_checkpoint J ids"
          using q(6) [OF Inr k(1)] by auto
        have "accepted_callback (rh_log h2) i" if "i \<in> set ids" for i
        proof -
          obtain e where e: "e \<in> set (pp_events pl)" "event_of_callback i e"
            using ids(1) \<open>i \<in> set ids\<close> by (metis in_set_conv_nth list_all2_conv_all_nth)
          then obtain y where "y \<in> set ys" "entry_of_event e y" "entry_accepted y" using ys(2) adv k(1) by blast
          then show ?thesis using ys(1) e(2)
            by (auto simp: accepted_callback_def entry_of_event_def event_of_callback_def logs_callback_def)
        qed
        then show ?thesis using k ids(2) checkpoint_round_trip [OF J, of ids] by (auto simp: checkpoint_ok_def)
      qed
      then show ?thesis unfolding h' by (intro host_inv_grow [OF base _ ys(1)]) (use bh in auto)
    qed
  qed
qed

lemma poll_producers_host:
  assumes "serde_round_trip J"
  shows "host_inv J reg h \<Longrightarrow> (\<forall>p \<in> set ps. p = callback_producer J \<or> foreign_producer p) \<Longrightarrow>
    poll_producers (runner_dispatcher J behave rec lookup) ps (reg, h) = (results, reg', h') \<Longrightarrow>
    host_inv J reg' h' \<and> pr_producers reg' = pr_producers reg"
proof (induction ps arbitrary: reg h results)
  case Nil
  then show ?case by simp
next
  case (Cons p ps)
  let ?D = "runner_dispatcher J behave rec lookup"
  obtain result reg1 h1 where p: "poll_producer ?D p (reg, h) = (result, reg1, h1)" by (metis prod_cases3)
  obtain rest where r: "poll_producers ?D ps (reg1, h1) = (rest, reg', h')"
    using Cons.prems(3) p by (auto simp: Let_def split: prod.splits)
  have "host_inv J reg1 h1" using poll_producer_host [OF Cons.prems(1) assms _ p] Cons.prems(2) by simp
  then show ?case using Cons.IH [OF _ _ r] Cons.prems(2) poll_producer_frame(2) [OF p] by simp
qed

lemma host_save_inv:
  assumes "host_inv J reg h" "registry_checkpoint key reg = Some cp"
  shows "host_inv J reg (snd (host_save key cp h))"
proof -
  let ?st = "rh_state (snd (host_save key cp h))"
  let ?f = "tbl_upsert (\<lambda>row. fst row = key) (\<lambda>_. (key, cp)) (key, cp)"
  have "rs_checkpoints ?st = rs_checkpoints (rh_state h) \<or> rs_checkpoints ?st = ?f (rs_checkpoints (rh_state h))"
    using execute_rows [of "ce_db (rh_env h) 4" ?f "rs_checkpoints (rh_state h)"]
    by (auto simp: host_save_def save_event_producer_checkpoint_def Let_def case_prod_beta)
  then have "set (rs_checkpoints ?st) \<subseteq> insert (key, cp) (set (rs_checkpoints (rh_state h)))"
    by (auto simp: tbl_upsert_def split: if_splits)
  moreover have "rs_callbacks ?st = rs_callbacks (rh_state h)" "rh_log (snd (host_save key cp h)) = rh_log h" "rh_env (snd (host_save key cp h)) = rh_env h"
    by (simp_all add: host_save_def save_event_producer_checkpoint_def Let_def case_prod_beta)
  ultimately show ?thesis
    using assms same_callbacks [of ?st "rh_state h"] by (auto simp: host_inv_def log_inv_def)
qed

lemma save_checkpoints_inv: "host_inv J reg h \<Longrightarrow> host_inv J reg (save_checkpoints host_save reg results h)"
proof (induction results arbitrary: h)
  case Nil
  then show ?case by simp
next
  case (Cons x xs)
  show ?case
  proof (cases x)
    case (Pair k r)
    then show ?thesis
      using Cons.IH [OF Cons.prems] Cons.IH [OF host_save_inv [OF Cons.prems]]
      by (cases r; cases "registry_checkpoint k reg") simp_all
  qed
qed

lemma purge_log_inv:
  assumes "purge_pre_cutover_pending_callbacks db st = (r, st')" "log_inv st es"
  shows "log_inv st' es \<and> rs_checkpoints st' = rs_checkpoints st"
proof -
  have p: "rs_callbacks st' = rs_callbacks st \<or> (\<exists>P. rs_callbacks st' = filter P (rs_callbacks st))" "rs_checkpoints st' = rs_checkpoints st"
    using assms(1) by (auto simp: purge_pre_cutover_pending_callbacks_def split: db_status.splits)
  have "log_inv st' es" if f: "rs_callbacks st' = filter P (rs_callbacks st)" for P
  proof -
    have i: "callbacks_inv (rs_callbacks st)" using assms(2) by (simp add: log_inv_def)
    have u: "x = y" if "x \<in> set (rs_callbacks st)" "y \<in> set (rs_callbacks st)" "cr_callback_id x = cr_callback_id y" for x y
      using that i by (metis callbacks_inv_def distinct_map inj_onD)
    have d: "delivered_ids st' \<subseteq> delivered_ids st" by (auto simp: delivered_ids_def f)
    have "i \<in> emitted_ids st'" if c: "i \<in> callback_ids st'" and e: "i \<in> emitted_ids st" for i
    proof -
      obtain x where x: "x \<in> set (rs_callbacks st')" "i = cr_callback_id x" using c by (auto simp: callback_ids_def)
      obtain y where y: "y \<in> set (rs_callbacks st)" "i = cr_callback_id y" "cr_emitted_at y \<noteq> None" using e unfolding ids_iff by blast
      have "x = y" using u [of x y] x y f by simp
      then show ?thesis unfolding ids_iff using x y by blast
    qed
    moreover have "callback_ids st' \<subseteq> callback_ids st" by (auto simp: callback_ids_def f)
    ultimately show ?thesis
      using assms(2) d callbacks_filter [OF i, of P] f unfolding log_inv_def by (metis subsetD)
  qed
  moreover have "log_inv st' es" if "rs_callbacks st' = rs_callbacks st"
    using that assms(2) same_callbacks [OF that] by (simp add: log_inv_def)
  ultimately show ?thesis using p by blast
qed

lemma register_all_checkpoints:
  "register_all persisted ps reg = Ok reg' \<Longrightarrow>
   (\<forall>k. registry_checkpoint k reg' = registry_checkpoint k reg \<or> registry_checkpoint k reg' = persisted k)
   \<and> set (pr_producers reg') = set (pr_producers reg) \<union> set ps"
proof (induction ps arbitrary: reg)
  case Nil
  then show ?case by simp
next
  case (Cons p ps)
  obtain r reg1 where r: "register_with_checkpoint p (persisted (ep_key p)) reg = (r, reg1)" by force
  then obtain u where u: "r = Ok u" "register_all persisted ps reg1 = Ok reg'" using Cons.prems by (cases r) auto
  have r1: "reg1 = reg\<lparr>pr_checkpoints := (pr_checkpoints reg)(ep_key p \<mapsto> persisted (ep_key p)), pr_producers := pr_producers reg @ [p]\<rparr>"
    using r u(1) by (auto simp: register_with_checkpoint_def split: if_splits)
  then have "registry_checkpoint k reg1 = registry_checkpoint k reg \<or> registry_checkpoint k reg1 = persisted k" for k
    by (simp add: registry_checkpoint_def)
  then show ?case using Cons.IH [OF u(2)] r1 by (auto, metis)
qed

lemma runner_start_inv:
  assumes "runner_start db producers h = Ok (reg', h')" "log_inv (rh_state h) (rh_log h)" "env_ok (rh_env h)"
    and "\<And>v. (CALLBACK_SOURCE_KIND, v) \<in> set (rs_checkpoints (rh_state h)) \<Longrightarrow> checkpoint_ok J (Some v) (rh_log h)"
  shows "host_inv J reg' h' \<and> set (pr_producers reg') = set producers"
proof -
  obtain r st where p: "purge_pre_cutover_pending_callbacks db (rh_state h) = (r, st)" by force
  obtain persisted where s: "list_event_producer_checkpoints db st = Ok persisted" "register_all persisted producers producer_registry_new = Ok reg'"
    "h' = h\<lparr>rh_state := st\<rparr>"
    using assms(1) p by (auto simp: runner_start_def res_bind_eq_Inr split: sum.splits)
  note l = purge_log_inv [OF p assms(2)]
  have "(k, v) \<in> set (rs_checkpoints (rh_state h))" if "persisted k = Some v" for k v
    using that s(1) l by (auto simp: list_event_producer_checkpoints_def db_select_def res_bind_eq_Inr split: db_status.splits dest: map_of_SomeD)
  moreover have "registry_checkpoint CALLBACK_SOURCE_KIND reg' = None \<or> registry_checkpoint CALLBACK_SOURCE_KIND reg' = persisted CALLBACK_SOURCE_KIND"
    using register_all_checkpoints [OF s(2)] by (simp add: registry_checkpoint_def producer_registry_new_def)
  ultimately have "checkpoint_ok J (registry_checkpoint CALLBACK_SOURCE_KIND reg') (rh_log h)"
  proof (cases "registry_checkpoint CALLBACK_SOURCE_KIND reg'")
    case None
    then show ?thesis by (simp add: checkpoint_ok_def from_checkpoint_def)
  next
    case (Some v)
    moreover assume "\<And>k v. persisted k = Some v \<Longrightarrow> (k, v) \<in> set (rs_checkpoints (rh_state h))"
      "registry_checkpoint CALLBACK_SOURCE_KIND reg' = None
        \<or> registry_checkpoint CALLBACK_SOURCE_KIND reg' = persisted CALLBACK_SOURCE_KIND"
    ultimately have "persisted CALLBACK_SOURCE_KIND = Some v"
      "\<And>k v. persisted k = Some v \<Longrightarrow> (k, v) \<in> set (rs_checkpoints (rh_state h))" by auto
    then show ?thesis using assms(4) Some by simp
  qed
  then show ?thesis
    using assms(3,4) l s(3) register_all_checkpoints [OF s(2)] by (simp add: host_inv_def producer_registry_new_def)
qed

lemma reachable_host_inv:
  assumes "reachable_host J behave rec lookup producers reg h" "serde_round_trip J"
    and "\<forall>p \<in> set producers. p = callback_producer J \<or> foreign_producer p"
  shows "host_inv J reg h \<and> set (pr_producers reg) = set producers"
  using assms(1)
proof induction
  case (first_start h db reg h')
  have "log_inv (rh_state h) (rh_log h)"
    using first_start(1,2) by (simp add: log_inv_def callbacks_inv_def empty_state_def delivered_ids_def callback_ids_def)
  moreover have "env_ok (rh_env h)"
    using first_start(3,4) by (auto simp: runner_start_def res_bind_eq_Inr split: prod.splits sum.splits)
  ultimately show ?case using runner_start_inv [OF first_start(3)] first_start(1) by (simp add: empty_state_def)
next
  case (environment reg h E agents)
  then show ?case by (simp add: host_inv_def)
next
  case (others reg h ops)
  then show ?case using run_foreign_log_inv [of "rh_state h" "rh_log h" ops J] by (simp add: host_inv_def)
next
  case (cycle reg h reg' h')
  obtain results h1 where c: "poll_producers (runner_dispatcher J behave rec lookup) (pr_producers reg) (reg, h) = (results, reg', h1)"
    "h' = save_checkpoints host_save reg' results h1"
    using cycle(2) by (auto simp: run_event_poll_cycle_def poll_and_deliver_def split: prod.splits)
  show ?case using poll_producers_host [OF assms(2) _ _ c(1)] cycle(3) assms(3) save_checkpoints_inv c(2) by metis
next
  case (unsaved_cycle reg h results reg' h')
  then show ?case using poll_producers_host [OF assms(2), of reg h "pr_producers reg" behave rec lookup results reg' h'] assms(3)
    by (auto simp: poll_and_deliver_def)
next
  case (restart reg h db reg' h')
  then show ?case using runner_start_inv [OF restart(2), of J] unfolding host_inv_def by blast
qed

text \<open>
  C12: a callback is marked delivered only after an agent accepted it.  On every host that schedules,
  cancellations, webhooks, polls, agents with tools of their own, interrupted cycles and restarts can
  reach, each callback row with status delivered belongs to a dispatch that an agent accepted.
\<close>

theorem delivered_callback_was_accepted:
  assumes "reachable_host J behave rec lookup producers reg h" "serde_round_trip J"
    and "\<forall>p \<in> set producers. p = callback_producer J \<or> foreign_producer p"
    and "row \<in> set (rs_callbacks (rh_state h))" "cr_status row = CbDelivered"
  shows "\<exists>target request ack. (target, request, Ok ack) \<in> set (rh_log h) \<and> ack_accepted ack
    \<and> adr_source_kind request = Some CALLBACK_SOURCE_KIND \<and> adr_message_id request = Some (callback_message_id (cr_callback_id row))"
proof -
  have "accepted_callback (rh_log h) (cr_callback_id row)"
    using reachable_host_inv [OF assms(1-3)] assms(4,5) log_inv_delivered unfolding host_inv_def ids_iff by blast
  then obtain e where "e \<in> set (rh_log h)" "logs_callback (cr_callback_id row) e" "entry_accepted e"
    unfolding accepted_callback_def by blast
  moreover obtain t q a where "e = (t, q, a)" by (cases e)
  ultimately show ?thesis by (cases a) (auto simp: logs_callback_def entry_accepted_def)
qed


subsection \<open>Far callbacks\<close>

lemma as_i64_shift: "as_i64 w = (uint w + 2 ^ 63) mod 2 ^ 64 - 2 ^ 63"
  by (simp add: as_i64_def sint_uint signed_take_bit_eq_take_bit_shift take_bit_eq_mod)

lemma as_i64_cases: "as_i64 w = (if unat w < 2 ^ 63 then uint w else uint w - 2 ^ 64)"
proof -
  have b: "0 \<le> uint w" "uint w < 2 ^ 64" using unsigned_less [of w, where ?'a = int] by simp_all
  have u: "unat w < 2 ^ 63 \<longleftrightarrow> uint w < 2 ^ 63" by (simp flip: nat_uint_eq add: nat_less_iff b(1))
  show ?thesis
  proof (cases "uint w < 2 ^ 63")
    case True
    then have "(uint w + 2 ^ 63) mod 2 ^ 64 = uint w + 2 ^ 63" using b by simp
    then show ?thesis using True u by (simp add: as_i64_shift)
  next
    case False
    then have "(uint w + 2 ^ 63) mod 2 ^ 64 = uint w + 2 ^ 63 - 2 ^ 64" using b by (simp add: mod_pos_geq)
    then show ?thesis using False u by (simp add: as_i64_shift)
  qed
qed

lemma saturated_negative:
  assumes "2 ^ 63 \<le> unat a + unat b"
  shows "as_i64 (saturating_add a b) < 0"
proof -
  have "2 ^ 63 \<le> unat (saturating_add a b)"
    using assms by (auto simp: saturating_add_def unat_word_ariths unsigned_minus_1_eq_mask mask_eq_exp_minus_1)
  moreover have "uint (saturating_add a b) < 2 ^ 64" using unsigned_less [of "saturating_add a b", where ?'a = int] by simp
  ultimately show ?thesis by (simp add: as_i64_cases)
qed

text \<open>
  a callback far in the future is due at once.  If the requested delay takes the due time past the
  signed 64-bit range, the store keeps a negative due time, and the new callback is due at the very
  moment it was scheduled.
\<close>

theorem far_callback_due_at_once:
  assumes "tool_schedule_callback J DbUp now uuid minted session input st = (Ok (Scheduled out), st')"
    and "uuid \<notin> callback_ids st" "cso_deduped out = False"
    and "2 ^ 63 \<le> unat now + unat (csi_after_ms input)" "unat now < 2 ^ 63"
  shows "\<exists>row \<in> set (rs_callbacks st'). cr_callback_id row = uuid \<and> cr_status row = CbPending
    \<and> cr_scheduled_for row < 0 \<and> cr_scheduled_for row \<le> as_i64 now"
proof -
  obtain req res where r: "schedule_request now minted session input = Ok req" "schedule_callback J DbUp uuid req st = (Ok res, st')"
    "scr_created res"
    using assms(1,3) by (auto simp: tool_schedule_callback_def scheduled_output_def Let_def split: sum.splits prod.splits)
  have t: "sr_scheduled_for_unix_ms req = saturating_add now (csi_after_ms input)"
    using r(1) by (auto simp: schedule_request_def res_bind_eq_Inr split: prod.splits)
  have i: "insert_callback J DbUp uuid req st = (Ok res, st')"
    using r(2,3) by (auto simp: schedule_callback_def schedule_callback_with_dedupe_def split: option.splits sum.splits)
  have n: "\<not> list_ex (\<lambda>x. cr_callback_id x = uuid) (rs_callbacks st)" using assms(2) by (auto simp: callback_ids_def list_ex_iff)
  obtain p where "rs_callbacks st' = rs_callbacks st @ [callback_row_of (callback_of_request uuid req) p CbPending None None None]"
    using i n by (auto simp: insert_callback_def upsert_callback_row_def db_execute_def tbl_upsert_def callback_of_request_def Let_def
        split: sum.splits)
  moreover have "as_i64 (sr_scheduled_for_unix_ms req) < 0" unfolding t by (rule saturated_negative [OF assms(4)])
  moreover have "0 \<le> as_i64 now" using assms(5) by (simp add: as_i64_cases)
  ultimately show ?thesis by (auto simp: callback_row_of_def callback_of_request_def)
qed

definition far_input :: callback_schedule_input where
  "far_input = \<lparr>csi_after_ms = - 1, csi_source_key = ''agent:never'', csi_payload = JNull, csi_dedupe_key = None, csi_continuation = None\<rparr>"

definition far_session :: callback_session where
  "far_session = \<lparr>cs_context_id = ''ctx-1-1'', cs_task_id = Some ''t1'', cs_agent_id = ''a''\<rparr>"

theorem far_callback_due_at_once_witness:
  "\<exists>out st'. tool_schedule_callback sample_serde DbUp 1000 ''c1'' (''ctx-2-1'', ''t2'') far_session far_input empty_state = (Ok (Scheduled out), st')
     \<and> (\<exists>row \<in> set (rs_callbacks st'). cr_callback_id row = ''c1'' \<and> cr_scheduled_for row < 0)"
proof -
  obtain out st' where s: "tool_schedule_callback sample_serde DbUp 1000 ''c1'' (''ctx-2-1'', ''t2'') far_session far_input empty_state
      = (Ok (Scheduled out), st')" "cso_deduped out = False"
    by (simp add: tool_schedule_callback_def schedule_request_def far_session_def far_input_def normalize_optional_text_def normalize_source_key_def
        parse_trimmed_def trim_def trim_start_def trim_end_def is_ascii_ws_def schedule_callback_def insert_callback_def
        upsert_callback_row_def sample_serde_def db_execute_def scheduled_output_def Let_def callback_of_request_def)
  have "unat (csi_after_ms far_input) = 2 ^ 64 - 1" by (simp add: far_input_def unsigned_minus_1_eq_mask mask_eq_exp_minus_1)
  then have "\<exists>row \<in> set (rs_callbacks st'). cr_callback_id row = ''c1'' \<and> cr_status row = CbPending
    \<and> cr_scheduled_for row < 0 \<and> cr_scheduled_for row \<le> as_i64 1000"
    by (intro far_callback_due_at_once [OF s(1) _ s(2)]) (simp_all add: callback_ids_def empty_state_def)
  then show ?thesis using s(1) by blast
qed

subsection \<open>A host that delivers one callback\<close>

definition demo_serde :: serde_json where
  "demo_serde = \<lparr>sj_to_string = (\<lambda>v. if v = JNull then Ok ''null'' else if v = ids_to_json [''c1''] then Ok ''ids'' else Err ''unsupported''),
     sj_from_str = (\<lambda>t. if t = ''null'' then Ok JNull else if t = ''ids'' then Ok (ids_to_json [''c1'']) else Err ''unsupported'')\<rparr>"

definition demo_surroundings :: callback_env where
  "demo_surroundings = \<lparr>ce_installed = True, ce_now = (\<lambda>_. 100), ce_db = (\<lambda>_. DbUp), ce_gate = None, ce_between = []\<rparr>"

definition demo_entry :: agent_discovery_entry where
  "demo_entry = (sample_entry ''a'')\<lparr>ade_agent_card := sample_card\<lparr>ac_subscriptions := [\<lparr>es_schema_versions = [],
     es_source_kinds = [CALLBACK_SOURCE_KIND], es_source_keys = [], es_source_key_prefixes = []\<rparr>]\<rparr>\<rparr>"

definition demo_host :: "unit runner_host" where
  "demo_host = \<lparr>rh_state = empty_state, rh_agents = [demo_entry], rh_provenance = (), rh_env = demo_surroundings, rh_log = []\<rparr>"

definition demo_behaviour :: agent_behaviour where
  "demo_behaviour t r st = (Ok \<lparr>ack_accepted = True, ack_detail = None, ack_context_id = None, ack_task_id = None, ack_message_id = None\<rparr>, [])"

definition demo_producers :: "(unit runner_host) event_producer list" where
  "demo_producers = [callback_producer demo_serde]"

definition demo_start :: "(unit runner_host) producer_registry \<times> unit runner_host" where
  "demo_start = projr (runner_start DbUp demo_producers demo_host)"

definition demo_after :: "state_op list \<Rightarrow> nat \<Rightarrow> (unit runner_host) producer_registry \<times> unit runner_host" where
  "demo_after ops n =
     (run_event_poll_cycle host_save (runner_dispatcher demo_serde demo_behaviour None None) ^^ n)
       (fst demo_start, (snd demo_start)\<lparr>rh_state := run_foreign demo_serde ops (rh_state (snd demo_start))\<rparr>)"

lemma demo_round_trip: "serde_round_trip demo_serde"
  by (auto simp: serde_round_trip_def demo_serde_def split: if_splits)

lemma demo_start_ok: "runner_start DbUp demo_producers demo_host = Ok demo_start"
  by (simp add: demo_start_def runner_start_def demo_host_def purge_pre_cutover_pending_callbacks_def list_event_producer_checkpoints_def
      db_select_def demo_producers_def register_with_checkpoint_def producer_registry_new_def callback_producer_def)

lemma demo_start_state: "rh_log (snd demo_start) = []" "rh_env (snd demo_start) = demo_surroundings"
  by (simp_all add: demo_start_def runner_start_def demo_host_def purge_pre_cutover_pending_callbacks_def list_event_producer_checkpoints_def
      db_select_def demo_producers_def register_with_checkpoint_def producer_registry_new_def callback_producer_def)

lemma demo_host_reachable:
  "reachable_host demo_serde demo_behaviour None None demo_producers (fst (demo_after ops n)) (snd (demo_after ops n))"
proof (induction n)
  case 0
  have "reachable_host demo_serde demo_behaviour None None demo_producers (fst demo_start) (snd demo_start)"
    by (rule reachable_host.first_start [where h = demo_host and db = DbUp])
      (use demo_start_ok demo_start_state in \<open>simp_all add: demo_host_def demo_surroundings_def env_ok_def\<close>)
  moreover have "log_fresh [] op" for op by (cases op) simp_all
  ultimately show ?case
    using reachable_host.others demo_start_state(1) by (fastforce simp: demo_after_def list_all_iff)
next
  case (Suc n)
  show ?case by (rule reachable_host.cycle [OF Suc]) (simp add: demo_after_def)
qed

theorem delivered_callback_was_accepted_witness:
  "\<exists>row. row \<in> set (rs_callbacks (rh_state (snd (demo_after [ScheduleCallback DbUp ''c1'' sample_request] 2)))) \<and> cr_status row = CbDelivered
     \<and> (\<exists>target request ack. (target, request, Ok ack) \<in> set (rh_log (snd (demo_after [ScheduleCallback DbUp ''c1'' sample_request] 2)))
          \<and> ack_accepted ack \<and> adr_message_id request = Some (callback_message_id (cr_callback_id row)))"
proof -
  let ?h = "snd (demo_after [ScheduleCallback DbUp ''c1'' sample_request] 2)"
  have "list_ex (\<lambda>row. cr_status row = CbDelivered) (rs_callbacks (rh_state ?h))" by code_simp
  then obtain row where row: "row \<in> set (rs_callbacks (rh_state ?h))" "cr_status row = CbDelivered" by (auto simp: list_ex_iff)
  have "\<forall>p \<in> set demo_producers. p = callback_producer demo_serde \<or> foreign_producer p" by (simp add: demo_producers_def)
  from delivered_callback_was_accepted [OF demo_host_reachable demo_round_trip this row] row show ?thesis by blast
qed

definition demo_cancel_ops :: "state_op list" where
  "demo_cancel_ops = [ScheduleCallback DbUp ''c1'' sample_request,
     ScheduleCallback DbUp ''c2'' (sample_request\<lparr>sr_dedupe_key := None\<rparr>), CancelCallback DbUp 15 (ByCallbackId ''c2'')]"


end
