(* ===== verification/Ingress.thy ===== *)
theory Ingress
  imports Callback_Delivery
begin

text \<open>
  Webhooks and the inbox behind them: raw external datasources, their intake and their producer
  (\<^verbatim>\<open>baml-rt-tools/src/external_datasource.rs\<close>), the loading of webhook intakes
  (\<^verbatim>\<open>webhook_intake.rs\<close>) and of external datasources (\<^verbatim>\<open>baml-agent-runner/src/lib.rs\<close>).  The SHA-256
  digest, the snapshots of external tools and their validation are arguments.
\<close>

subsection \<open>Datasources\<close>

datatype external_datasource_mode = Raw | Handler

record external_datasource_manifest =
  edm_key :: string
  edm_kind :: string
  edm_mode :: external_datasource_mode
  edm_source_kind :: "string option"
  edm_schema_version :: "string option"
  edm_source_key :: "string option"
  edm_response_status :: "nat option"
  edm_dedupe_header :: "string option"
  edm_max_body_bytes :: "nat option"
  edm_methods :: "string list"
  edm_handler :: "string option"

record external_tool =
  et_name :: string
  et_event_sources :: "string list"
  et_event_schema_versions :: "string list"
  et_datasources :: "external_datasource_manifest list"

record raw_datasource_spec =
  rd_tool_name :: tool_name
  rd_key :: string
  rd_source_kind :: string
  rd_source_key :: string
  rd_schema_version :: string
  rd_response_status :: nat
  rd_dedupe_header :: "string option"
  rd_max_body_bytes :: nat

text \<open>An HTTP status code is a number from 100 to 999.\<close>

definition status_code_from_u16 :: "nat \<Rightarrow> nat option" where
  "status_code_from_u16 n = (if 100 \<le> n \<and> n < 1000 then Some n else None)"

definition ds_error :: "external_tool \<Rightarrow> external_datasource_manifest \<Rightarrow> string \<Rightarrow> baml_error" where
  "ds_error tool ds what =
     InvalidArgument (''raw datasource '' @ CHR 0x27 # et_name tool @ ''.'' @ edm_key ds @ CHR 0x27 # what)"

definition ensure :: "bool \<Rightarrow> baml_error \<Rightarrow> unit res" where
  "ensure b e = (if b then Ok () else Err e)"

definition check_shape :: "external_tool \<Rightarrow> external_datasource_manifest \<Rightarrow> unit res" where
  "check_shape tool ds =
     res_bind (ensure (edm_mode ds = Raw)
       (InvalidArgument (''datasource '' @ CHR 0x27 # et_name tool @ ''.'' @ edm_key ds @ CHR 0x27 # '' is not raw mode''))) (\<lambda>_.
     res_bind (ensure (edm_handler ds = None) (ds_error tool ds '' must not set handler'')) (\<lambda>_.
     res_bind (ensure (edm_kind ds = ''webhook'')
       (ds_error tool ds ('' kind '' @ single_quoted (edm_kind ds) @ '' is unsupported (expected webhook)''))) (\<lambda>_.
     (case find (\<lambda>m. m \<noteq> ''POST'') (edm_methods ds) of
        Some m \<Rightarrow> Err (ds_error tool ds ('' only supports POST in MVP (got '' @ m @ '')''))
      | None \<Rightarrow> Ok ()))))"

definition declared_source_kind :: "external_tool \<Rightarrow> external_datasource_manifest \<Rightarrow> string res" where
  "declared_source_kind tool ds =
     res_bind (case (edm_source_kind ds, et_event_sources tool) of
                 (Some value, _) \<Rightarrow> Ok value
               | (None, [value]) \<Rightarrow> Ok value
               | (None, _) \<Rightarrow> Err (ds_error tool ds
                   '' must set source_kind unless tool declares exactly one event_sources[] entry'')) (\<lambda>kind_raw.
     res_bind (ensure (kind_raw \<in> set (et_event_sources tool))
       (ds_error tool ds ('' source_kind '' @ single_quoted kind_raw @ '' is not declared in event_sources[]''))) (\<lambda>_.
     ok_or (parse_lowercased kind_raw) (ds_error tool ds ('' has invalid source_kind '' @ single_quoted kind_raw))))"

definition declared_schema_version :: "external_tool \<Rightarrow> external_datasource_manifest \<Rightarrow> string res" where
  "declared_schema_version tool ds =
     res_bind (ok_or (edm_schema_version ds) (ds_error tool ds '' must set schema_version'')) (\<lambda>version_raw.
     res_bind (ensure (version_raw \<in> set (et_event_schema_versions tool))
       (ds_error tool ds ('' schema_version '' @ single_quoted version_raw @ '' has no matching event schema''))) (\<lambda>_.
     ok_or (parse_trimmed version_raw) (ds_error tool ds ('' has invalid schema_version '' @ single_quoted version_raw))))"

definition raw_datasource_spec_of ::
  "external_tool \<Rightarrow> external_datasource_manifest \<Rightarrow> string option \<Rightarrow> raw_datasource_spec res" where
  "raw_datasource_spec_of tool ds activation_source_key =
     res_bind (check_shape tool ds) (\<lambda>_.
     res_bind (declared_source_kind tool ds) (\<lambda>source_kind.
     res_bind (declared_schema_version tool ds) (\<lambda>schema_version.
     res_bind (ok_or (case activation_source_key of Some k \<Rightarrow> Some k | None \<Rightarrow> edm_source_key ds)
       (ds_error tool ds '' must set source_key or activation override'')) (\<lambda>key_raw.
     res_bind (ok_or (parse_trimmed key_raw) (ds_error tool ds ('' has invalid source_key '' @ single_quoted key_raw))) (\<lambda>source_key.
     (let status = (case edm_response_status ds of Some n \<Rightarrow> n | None \<Rightarrow> 202) in
     res_bind (ok_or (status_code_from_u16 status)
       (ds_error tool ds ('' has invalid response_status '' @ show_nat status @ '': invalid status code''))) (\<lambda>response_status.
     res_bind (tool_name_parse (et_name tool)) (\<lambda>tool_name.
       Ok \<lparr>rd_tool_name = tool_name, rd_key = edm_key ds, rd_source_kind = source_kind, rd_source_key = source_key,
           rd_schema_version = schema_version, rd_response_status = response_status,
           rd_dedupe_header = edm_dedupe_header ds,
           rd_max_body_bytes = (case edm_max_body_bytes ds of Some n \<Rightarrow> n | None \<Rightarrow> 1048576)\<rparr>))))))))"

subsection \<open>Intake\<close>

record webhook_request =
  wq_headers :: "string \<Rightarrow> string option"
  wq_body :: string

record webhook_response =
  wr_status :: nat
  wr_headers :: "(string \<times> string) list"
  wr_body :: string

definition bad_request :: "serde_json \<Rightarrow> string \<Rightarrow> webhook_response" where
  "bad_request J message =
     \<lparr>wr_status = 400, wr_headers = [(''content-type'', ''application/json'')],
      wr_body = (case sj_to_string J (JObject [(''error'', JString message)]) of
         Inr t \<Rightarrow> t
       | Inl _ \<Rightarrow> CHR ''{'' # CHR 0x22 # ''error'' @ CHR 0x22 # CHR '':'' # CHR 0x22 # ''bad request'' @ [CHR 0x22, CHR ''}''])\<rparr>"

text \<open>\<open>digest\<close> is the lowercase hex form of the SHA-256 digest of a byte string.\<close>

definition sha256_hex :: "(string \<Rightarrow> string) \<Rightarrow> string \<Rightarrow> string" where
  "sha256_hex digest bytes = ''sha256:'' @ digest bytes"

definition ingress_id_for :: "(string \<Rightarrow> string) \<Rightarrow> string \<Rightarrow> string \<Rightarrow> string \<Rightarrow> string" where
  "ingress_id_for digest source_kind source_key dedupe_value =
     ''external-datasource:'' @ digest (source_kind @ [CHR 0x00] @ source_key @ [CHR 0x00] @ dedupe_value)"

definition dedupe_value_of :: "(string \<Rightarrow> string) \<Rightarrow> raw_datasource_spec \<Rightarrow> webhook_request \<Rightarrow> string" where
  "dedupe_value_of digest spec request =
     (case rd_dedupe_header spec of
        None \<Rightarrow> sha256_hex digest (wq_body request)
      | Some header \<Rightarrow>
          (case wq_headers request header of
             Some v \<Rightarrow> if trim v \<noteq> [] then v else sha256_hex digest (wq_body request)
           | None \<Rightarrow> sha256_hex digest (wq_body request)))"

definition envelope_json :: "json \<Rightarrow> string \<Rightarrow> json" where
  "envelope_json payload context = JObject [(''payload'', payload), (''context_id'', JString context)]"

definition intake_handle ::
  "serde_json \<Rightarrow> (string \<Rightarrow> string) \<Rightarrow> db_status \<Rightarrow> 64 word \<Rightarrow> raw_datasource_spec \<Rightarrow> webhook_request \<Rightarrow> runner_state
   \<Rightarrow> webhook_response res \<times> runner_state" where
  "intake_handle J digest db now spec request st =
     (if length (wq_body request) > rd_max_body_bytes spec
      then (Ok (bad_request J (''webhook body exceeds '' @ show_nat (rd_max_body_bytes spec) @ '' bytes'')), st)
      else (case sj_from_str J (wq_body request) of
              Inl e \<Rightarrow> (Ok (bad_request J (''invalid JSON: '' @ e)), st)
            | Inr (JObject kvs) \<Rightarrow>
                (let ingress = ingress_id_for digest (rd_source_kind spec) (rd_source_key spec) (dedupe_value_of digest spec request);
                     context = ''external-datasource:'' @ ingress
                 in (case sj_to_string J (envelope_json (JObject kvs) context) of
                       Inl e \<Rightarrow> (Err (InvalidArgument (''failed to serialize raw ingress envelope: '' @ e)), st)
                     | Inr payload_json \<Rightarrow>
                         (case enqueue_ingress_item db \<lparr>ii_ingress_id = ingress, ii_source_kind = rd_source_kind spec,
                                 ii_source_key = rd_source_key spec, ii_payload_json = payload_json, ii_enqueued_at = now\<rparr> st of
                            (Inl e, st') \<Rightarrow> (Err e, st')
                          | (Inr _, st') \<Rightarrow> (Ok \<lparr>wr_status = rd_response_status spec, wr_headers = [], wr_body = []\<rparr>, st'))))
            | Inr _ \<Rightarrow> (Ok (bad_request J ''webhook body must be a JSON object''), st)))"

subsection \<open>Producer\<close>

definition envelope_of_json :: "json \<Rightarrow> (json \<times> string) option" where
  "envelope_of_json j =
     (case j of
        JObject kvs \<Rightarrow> (case (obj_get kvs ''payload'', obj_get kvs ''context_id'') of
                         (Some p, Some (JString c)) \<Rightarrow> Some (p, c)
                       | _ \<Rightarrow> None)
      | JArray [p, JString c] \<Rightarrow> Some (p, c)
      | _ \<Rightarrow> None)"

fun parse_ids :: "json list \<Rightarrow> string list option" where
  "parse_ids [] = Some []"
| "parse_ids (JString s # js) =
     (case parse_trimmed s of Some i \<Rightarrow> map_option ((#) i) (parse_ids js) | None \<Rightarrow> None)"
| "parse_ids (_ # js) = None"

definition ingress_checkpoint_ids :: "serde_json \<Rightarrow> producer_checkpoint \<Rightarrow> string list" where
  "ingress_checkpoint_ids J checkpoint =
     (case checkpoint of
        None \<Rightarrow> []
      | Some raw \<Rightarrow> (case sj_from_str J raw of
                      Inr (JArray js) \<Rightarrow> (case parse_ids js of Some ids \<Rightarrow> ids | None \<Rightarrow> [])
                    | _ \<Rightarrow> []))"

definition item_event :: "raw_datasource_spec \<Rightarrow> ingress_item \<Rightarrow> json \<times> string \<Rightarrow> produced_event" where
  "item_event spec item envelope =
     \<lparr>ev_routing_key = rd_source_kind spec, ev_schema_version = rd_schema_version spec,
      ev_source_kind = ii_source_kind item, ev_source_key = ii_source_key item, ev_messages = [fst envelope],
      ev_context_id = Some (snd envelope), ev_task_id = None, ev_message_id = Some (ii_ingress_id item),
      ev_producer_key = None, ev_metadata = None\<rparr>"

text \<open>The loop over the claimed items: an item whose envelope does not parse is marked delivered at once.\<close>

fun emit_items ::
  "serde_json \<Rightarrow> db_status \<Rightarrow> 64 word \<Rightarrow> raw_datasource_spec \<Rightarrow> ingress_item list \<Rightarrow> runner_state
   \<Rightarrow> (produced_event list \<times> string list) res \<times> runner_state" where
  "emit_items J db now spec [] st = (Ok ([], []), st)"
| "emit_items J db now spec (item # items) st =
     (case Option.bind (case sj_from_str J (ii_payload_json item) of Inr j \<Rightarrow> Some j | Inl _ \<Rightarrow> None) envelope_of_json of
        Some envelope \<Rightarrow>
          (case emit_items J db now spec items st of
             (Inl e, st') \<Rightarrow> (Err e, st')
           | (Inr (events, ids), st') \<Rightarrow> (Ok (item_event spec item envelope # events, ii_ingress_id item # ids), st'))
      | None \<Rightarrow>
          (case mark_ingress_delivered db [ii_ingress_id item] now st of
             (Inl e, st') \<Rightarrow> (Err e, st')
           | (Inr _, st') \<Rightarrow> emit_items J db now spec items st'))"

text \<open>One poll, with the readings of the clock and the database of the surroundings.\<close>

definition raw_poll ::
  "serde_json \<Rightarrow> raw_datasource_spec \<Rightarrow> callback_env \<Rightarrow> producer_checkpoint \<Rightarrow> runner_state \<Rightarrow> producer_poll res \<times> runner_state" where
  "raw_poll J spec E checkpoint st =
     (let now = ce_now E 5; delivered = ingress_checkpoint_ids J checkpoint in
      (case mark_ingress_delivered (ce_db E 5) delivered now st of
         (Inl e, st1) \<Rightarrow> (Err e, st1)
       | (Inr _, st1) \<Rightarrow>
           (case requeue_stale_ingress (ce_db E 6) (saturating_sub now 60000) st1 of
              (Inl e, st2) \<Rightarrow> (Err e, st2)
            | (Inr _, st2) \<Rightarrow>
                (case list_pending_ingress_items (ce_db E 7) [rd_source_kind spec] 100 st2 of
                   Inl e \<Rightarrow> (Err e, st2)
                 | Inr pending \<Rightarrow>
                     (case mark_ingress_emitted (ce_db E 8) (map ii_ingress_id pending) now st2 of
                        (Inl e, st3) \<Rightarrow> (Err e, st3)
                      | (Inr emitted, st3) \<Rightarrow>
                          (case emit_items J (ce_db E 9) now spec (filter (\<lambda>i. ii_ingress_id i \<in> set emitted) pending) st3 of
                             (Inl e, st4) \<Rightarrow> (Err e, st4)
                           | (Inr (events, ids), st4) \<Rightarrow>
                               (Ok \<lparr>pp_events = events,
                                    pp_checkpoint = (if ids = [] then (if delivered \<noteq> [] then Some ''[]'' else None)
                                                     else Some (case sj_to_string J (JArray (map JString ids)) of Inr t \<Rightarrow> t | Inl _ \<Rightarrow> []))\<rparr>,
                                st4)))))))"

definition raw_producer :: "serde_json \<Rightarrow> raw_datasource_spec \<Rightarrow> ('p runner_host) event_producer" where
  "raw_producer J spec =
     \<lparr>ep_key = ''external-datasource:'' @ display_tool_name (rd_tool_name spec) @ '':'' @ rd_key spec,
      ep_source_kinds = [rd_source_kind spec],
      ep_poll = (\<lambda>checkpoint h. let (r, st) = raw_poll J spec (rh_env h) checkpoint (rh_state h) in (r, h\<lparr>rh_state := st\<rparr>))\<rparr>"

subsection \<open>Loading\<close>

datatype webhook_auth_tier = Public | OperatorToken

text \<open>An intake: its key, the path and methods of its route, and its handler, given the database and the clock.\<close>

record webhook_intake =
  wi_intake_key :: string
  wi_mount_path :: string
  wi_auth_tier :: webhook_auth_tier
  wi_methods :: "string list"
  wi_handle :: "db_status \<Rightarrow> 64 word \<Rightarrow> webhook_request \<Rightarrow> runner_state \<Rightarrow> webhook_response res \<times> runner_state"

definition raw_intake :: "serde_json \<Rightarrow> (string \<Rightarrow> string) \<Rightarrow> raw_datasource_spec \<Rightarrow> webhook_intake" where
  "raw_intake J digest spec =
     \<lparr>wi_intake_key = ''external-datasource:'' @ display_tool_name (rd_tool_name spec) @ '':'' @ rd_key spec,
      wi_mount_path = ''/webhooks/ext/'' @ display_tool_name (rd_tool_name spec) @ ''/'' @ rd_key spec,
      wi_auth_tier = Public, wi_methods = [''POST''],
      wi_handle = (\<lambda>db now request st. intake_handle J digest db now spec request st)\<rparr>"

record webhook_intake_provider =
  wp_tool_name :: string
  wp_build :: "tool_function_metadata \<Rightarrow> json option \<Rightarrow> webhook_intake list res"

text \<open>The checks on the intakes one provider built; the map holds the paths seen so far and their tools.\<close>

fun check_mounts ::
  "string \<Rightarrow> tool_function_metadata \<Rightarrow> webhook_intake list \<Rightarrow> (string \<rightharpoonup> string) \<Rightarrow> (string \<rightharpoonup> string) res" where
  "check_mounts provider metadata [] seen = Ok seen"
| "check_mounts provider metadata (intake # built) seen =
     (let path = wi_mount_path intake in
      if \<not> starts_with path ''/''
      then Err (InvalidArgument (''webhook intake '' @ single_quoted (wi_intake_key intake) @ '' for tool ''
             @ single_quoted (display_tool_name (tfm_name metadata)) @ '' has invalid mount_path '' @ single_quoted path
             @ '' (must begin with '' @ single_quoted ''/'' @ '')''))
      else (case seen path of
              Some existing \<Rightarrow> Err (InvalidArgument (''webhook intake mount_path collision at '' @ single_quoted path
                @ '' between '' @ single_quoted existing @ '' and '' @ single_quoted provider))
            | None \<Rightarrow> check_mounts provider metadata built (seen(path \<mapsto> provider))))"

fun load_webhook_intakes_from ::
  "(tool_name \<Rightarrow> tool_function_metadata option) \<Rightarrow> bundle_config_resolver option \<Rightarrow> webhook_intake_provider list
   \<Rightarrow> (string \<rightharpoonup> string) \<Rightarrow> webhook_intake list res" where
  "load_webhook_intakes_from by_name resolver [] seen = Ok []"
| "load_webhook_intakes_from by_name resolver (provider # providers) seen =
     res_bind (tool_name_parse (wp_tool_name provider)) (\<lambda>tool.
       (case by_name tool of
          None \<Rightarrow> load_webhook_intakes_from by_name resolver providers seen
        | Some metadata \<Rightarrow>
            res_bind (wp_build provider metadata (load_effective_config metadata resolver)) (\<lambda>built.
            res_bind (check_mounts (wp_tool_name provider) metadata built seen) (\<lambda>seen'.
            res_bind (load_webhook_intakes_from by_name resolver providers seen') (\<lambda>rest.
              Ok (built @ rest))))))"

definition load_configured_webhook_intakes ::
  "(tool_name \<Rightarrow> tool_function_metadata option) \<Rightarrow> bundle_config_resolver option \<Rightarrow> webhook_intake_provider list
   \<Rightarrow> webhook_intake list res" where
  "load_configured_webhook_intakes by_name resolver providers =
     load_webhook_intakes_from by_name resolver providers Map.empty"

text \<open>
  External datasources.  The snapshots and their validation come from the external tool loader; an
  activation maps the keys of a tool's datasources to an optional source key.
\<close>

record external_tool_snapshot =
  ets_tool :: external_tool
  ets_approved :: bool

type_synonym activations = "(string \<times> (string \<times> string option) list) list"

datatype datasource_load_error =
    SnapshotsNotLoaded string
  | SnapshotInvalid string string
  | SnapshotNotApproved string
  | InvalidDatasource baml_error
  | DuplicateSourceKind string string string
  | UnmatchedActivation string string

record datasource_load =
  dl_specs :: "raw_datasource_spec list"
  dl_seen_sources :: "string \<rightharpoonup> string"
  dl_consumed :: "(string \<times> string) list"

fun load_tool_datasources ::
  "external_tool \<Rightarrow> (string \<times> string option) list \<Rightarrow> external_datasource_manifest list \<Rightarrow> datasource_load
   \<Rightarrow> (datasource_load_error, datasource_load) result" where
  "load_tool_datasources tool acts [] l = Ok l"
| "load_tool_datasources tool acts (ds # dss) l =
     (case map_of acts (edm_key ds) of
        None \<Rightarrow> load_tool_datasources tool acts dss l
      | Some source_key \<Rightarrow>
          (case raw_datasource_spec_of tool ds source_key of
             Inl e \<Rightarrow> Err (InvalidDatasource e)
           | Inr spec \<Rightarrow>
               (let owner = et_name tool @ ''.'' @ edm_key ds in
                (case dl_seen_sources l (rd_source_kind spec) of
                   Some existing \<Rightarrow> Err (DuplicateSourceKind (rd_source_kind spec) existing owner)
                 | None \<Rightarrow> load_tool_datasources tool acts dss
                     \<lparr>dl_specs = dl_specs l @ [spec],
                      dl_seen_sources = (dl_seen_sources l)(rd_source_kind spec \<mapsto> owner),
                      dl_consumed = (et_name tool, edm_key ds) # dl_consumed l\<rparr>))))"

fun load_snapshots ::
  "(external_tool_snapshot \<Rightarrow> string option) \<Rightarrow> activations \<Rightarrow> external_tool_snapshot list \<Rightarrow> datasource_load
   \<Rightarrow> (datasource_load_error, datasource_load) result" where
  "load_snapshots validate activations [] l = Ok l"
| "load_snapshots validate activations (snapshot # snapshots) l =
     (let tool = ets_tool snapshot in
      (case map_of activations (et_name tool) of
         None \<Rightarrow> load_snapshots validate activations snapshots l
       | Some acts \<Rightarrow>
           (case validate snapshot of
              Some e \<Rightarrow> Err (SnapshotInvalid (et_name tool) e)
            | None \<Rightarrow>
                if \<not> ets_approved snapshot then Err (SnapshotNotApproved (et_name tool))
                else (case load_tool_datasources tool acts (et_datasources tool) l of
                        Inl e \<Rightarrow> Err e
                      | Inr l' \<Rightarrow> load_snapshots validate activations snapshots l'))))"

definition load_external_raw_datasources ::
  "serde_json \<Rightarrow> (string \<Rightarrow> string) \<Rightarrow> (external_tool_snapshot \<Rightarrow> string option)
   \<Rightarrow> (string, external_tool_snapshot list) result \<Rightarrow> activations
   \<Rightarrow> (datasource_load_error, webhook_intake list \<times> ('p runner_host) event_producer list) result" where
  "load_external_raw_datasources J digest validate snapshots activations =
     (if activations = [] then Ok ([], [])
      else (case snapshots of
              Inl e \<Rightarrow> Err (SnapshotsNotLoaded e)
            | Inr ss \<Rightarrow>
                (case load_snapshots validate activations ss \<lparr>dl_specs = [], dl_seen_sources = Map.empty, dl_consumed = []\<rparr> of
                   Inl e \<Rightarrow> Err e
                 | Inr l \<Rightarrow>
                     (case find (\<lambda>c. c \<notin> set (dl_consumed l))
                             (concat (map (\<lambda>(tool, acts). map (\<lambda>(k, _). (tool, k)) acts) activations)) of
                        Some (tool, k) \<Rightarrow> Err (UnmatchedActivation tool k)
                      | None \<Rightarrow> Ok (map (raw_intake J digest) (dl_specs l), map (raw_producer J) (dl_specs l))))))"

subsection \<open>Redelivered webhooks\<close>

definition db_reads :: "db_status \<Rightarrow> bool" where
  "db_reads db \<longleftrightarrow> (case db of DbReadFails _ \<Rightarrow> False | _ \<Rightarrow> True)"

lemma enqueue_known:
  "db_reads db \<Longrightarrow> ii_ingress_id item \<in> set (map ir_ingress_id (rs_ingress st)) \<Longrightarrow> enqueue_ingress_item db item st = (Ok False, st)"
  by (auto simp: enqueue_ingress_item_def db_select_def filter_empty_conv db_reads_def split: db_status.split)

lemma enqueue_stores:
  "enqueue_ingress_item DbUp item st = (Ok b, st') \<Longrightarrow> ii_ingress_id item \<in> set (map ir_ingress_id (rs_ingress st'))"
  by (auto simp: enqueue_ingress_item_def db_select_def db_execute_def filter_empty_conv Let_def image_iff
      split: if_splits sum.splits) metis

lemma intake_stores:
  assumes "intake_handle J digest DbUp now spec request st = (Ok response, st')"
    and "length (wq_body request) \<le> rd_max_body_bytes spec" "sj_from_str J (wq_body request) = Inr (JObject kvs)"
  shows "ingress_id_for digest (rd_source_kind spec) (rd_source_key spec) (dedupe_value_of digest spec request)
    \<in> set (map ir_ingress_id (rs_ingress st')) \<and> response = \<lparr>wr_status = rd_response_status spec, wr_headers = [], wr_body = []\<rparr>"
  using assms by (auto simp: intake_handle_def Let_def split: sum.splits prod.splits dest!: enqueue_stores)

definition echo_tool :: external_tool where
  "echo_tool = \<lparr>et_name = ''support/echo'', et_event_sources = [''echo''], et_event_schema_versions = [''echo.v1''],
     et_datasources = [\<lparr>edm_key = ''echo-webhook'', edm_kind = ''webhook'', edm_mode = Raw, edm_source_kind = None,
       edm_schema_version = Some ''echo.v1'', edm_source_key = Some ''echo:local'', edm_response_status = None,
       edm_dedupe_header = None, edm_max_body_bytes = Some 64, edm_methods = [], edm_handler = None\<rparr>]\<rparr>"

definition echo_spec :: raw_datasource_spec where
  "echo_spec = projr (raw_datasource_spec_of echo_tool (hd (et_datasources echo_tool)) None)"

definition echo_serde :: serde_json where
  "echo_serde = \<lparr>sj_to_string = (\<lambda>v. Ok ''envelope''),
     sj_from_str = (\<lambda>s. if s = ''envelope'' then Ok (envelope_json (JObject []) ''ctx'') else if s = ''{}'' then Ok (JObject []) else Err ''bad'')\<rparr>"

definition echo_request :: webhook_request where
  "echo_request = \<lparr>wq_headers = (\<lambda>_. None), wq_body = ''{}''\<rparr>"

definition echo_metadata :: tool_function_metadata where
  "echo_metadata =
     (let t = \<lparr>tt_json_schema = JObject [], tt_ts_name = ''Unit'', tt_ts_decl = None\<rparr>
      in build_metadata t t t (metadata_builder_new (rd_tool_name echo_spec) ''SupportEcho'' ''echo''))"

lemma echo_spec_ok: "raw_datasource_spec_of echo_tool (hd (et_datasources echo_tool)) None = Ok echo_spec"
  by code_simp

lemma echo_spec_fields: "rd_source_kind echo_spec = ''echo''" "rd_max_body_bytes echo_spec = 64"
  "rd_dedupe_header echo_spec = None" "rd_key echo_spec = ''echo-webhook''"
  by code_simp+



subsection \<open>The producer leaves callbacks alone\<close>

lemma mark_delivered_checkpoints:
  "rs_checkpoints (snd (mark_ingress_delivered db ids now st)) = rs_checkpoints st"
  "rs_checkpoints (snd (mark_ingress_emitted db ids now st)) = rs_checkpoints st"
  "rs_checkpoints (snd (requeue_stale_ingress db before st)) = rs_checkpoints st"
  by (simp_all add: op_frames Let_def case_prod_beta split: sum.split)

lemma emit_items_frame:
  "emit_items J db now spec items st = (r, st') \<Longrightarrow> rs_callbacks st' = rs_callbacks st \<and> rs_checkpoints st' = rs_checkpoints st"
proof (induction items arbitrary: st r)
  case (Cons item items)
  have m: "rs_callbacks st2 = rs_callbacks st \<and> rs_checkpoints st2 = rs_checkpoints st"
    if "mark_ingress_delivered db [ii_ingress_id item] now st = (q, st2)" for q st2
    using callbacks_frame(3) [of db "[ii_ingress_id item]" now st] mark_delivered_checkpoints(1) [of db "[ii_ingress_id item]" now st] that
    by simp
  show ?case using Cons.prems Cons.IH m by (fastforce split: option.splits prod.splits sum.splits)
qed simp

lemma raw_poll_frame:
  assumes "raw_poll J spec E checkpoint st = (r, st')"
  shows "rs_callbacks st' = rs_callbacks st \<and> rs_checkpoints st' = rs_checkpoints st"
proof -
  have d: "rs_callbacks s2 = rs_callbacks s1 \<and> rs_checkpoints s2 = rs_checkpoints s1"
    if "mark_ingress_delivered db ids now s1 = (q, s2)" for db ids now s1 s2 q
    using callbacks_frame(3) [of db ids now s1] mark_delivered_checkpoints(1) [of db ids now s1] that by simp
  have e: "rs_callbacks s2 = rs_callbacks s1 \<and> rs_checkpoints s2 = rs_checkpoints s1"
    if "mark_ingress_emitted db ids now s1 = (q, s2)" for db ids now s1 s2 q
    using callbacks_frame(2) [of db ids now s1] mark_delivered_checkpoints(2) [of db ids now s1] that by simp
  have q: "rs_callbacks s2 = rs_callbacks s1 \<and> rs_checkpoints s2 = rs_checkpoints s1"
    if "requeue_stale_ingress db before s1 = (q, s2)" for db before s1 s2 q
    using callbacks_frame(1) [of db before s1] mark_delivered_checkpoints(3) [of db before s1] that by simp
  show ?thesis using assms
    by (auto simp: raw_poll_def Let_def split: sum.splits prod.splits dest!: d e q emit_items_frame)
qed

lemma raw_producer_foreign:
  assumes "rd_source_kind spec \<noteq> CALLBACK_SOURCE_KIND"
  shows "foreign_producer (raw_producer J spec)"
  using assms
  by (auto simp: foreign_producer_def raw_producer_def CALLBACK_SOURCE_KIND_def case_prod_beta
      raw_poll_frame [OF prod.collapse [symmetric]])

subsection \<open>What is mounted\<close>

lemma check_mounts_distinct:
  "check_mounts provider metadata built seen = Ok seen' \<Longrightarrow>
     distinct (map wi_mount_path built) \<and> dom seen' = dom seen \<union> set (map wi_mount_path built)
     \<and> dom seen \<inter> set (map wi_mount_path built) = {} \<and> list_all (\<lambda>i. starts_with (wi_mount_path i) ''/'') built"
proof (induction built arbitrary: seen)
  case (Cons intake built)
  then have "check_mounts provider metadata built (seen(wi_mount_path intake \<mapsto> provider)) = Ok seen'"
    "starts_with (wi_mount_path intake) ''/''" "seen (wi_mount_path intake) = None"
    by (auto simp: Let_def split: if_splits option.splits)
  note c = this
  show ?case using Cons.IH [OF c(1)] c(2,3) by (auto simp del: fun_upd_apply)
qed simp

lemma load_intakes_distinct:
  "load_webhook_intakes_from by_name resolver providers seen = Ok intakes \<Longrightarrow>
     distinct (map wi_mount_path intakes) \<and> dom seen \<inter> set (map wi_mount_path intakes) = {}
     \<and> list_all (\<lambda>i. starts_with (wi_mount_path i) ''/'') intakes"
proof (induction providers arbitrary: seen intakes)
  case (Cons provider providers)
  then obtain tool where "tool_name_parse (wp_tool_name provider) = Ok tool"
    by (cases "tool_name_parse (wp_tool_name provider)") auto
  show ?case
  proof (cases "by_name tool")
    case None
    with Cons \<open>tool_name_parse _ = Ok tool\<close> show ?thesis by simp
  next
    case (Some metadata)
    then obtain built seen' rest where "check_mounts (wp_tool_name provider) metadata built seen = Ok seen'"
      "load_webhook_intakes_from by_name resolver providers seen' = Ok rest" "intakes = built @ rest"
      using Cons.prems \<open>tool_name_parse _ = Ok tool\<close> by (auto simp: res_bind_def split: sum.splits)
    with check_mounts_distinct Cons.IH show ?thesis by fastforce
  qed
qed simp

text \<open>
  The routes of the compiled-in webhook intakes are well formed: when the loader succeeds, every mount
  path begins with a slash and no two intakes share a path, whatever the providers build.
\<close>

theorem mount_paths_unambiguous:
  assumes "load_configured_webhook_intakes by_name resolver providers = Ok intakes"
  shows "distinct (map wi_mount_path intakes) \<and> list_all (\<lambda>i. starts_with (wi_mount_path i) ''/'') intakes"
  using load_intakes_distinct [OF assms [unfolded load_configured_webhook_intakes_def]] by blast

theorem mount_paths_unambiguous_witness:
  "\<exists>intakes. load_configured_webhook_intakes (\<lambda>_. Some echo_metadata) None
       [\<lparr>wp_tool_name = ''support/echo'', wp_build = (\<lambda>_ _. Ok [raw_intake echo_serde (\<lambda>b. ''0'') echo_spec])\<rparr>] = Ok intakes
     \<and> length intakes = 1 \<and> distinct (map wi_mount_path intakes)"
proof -
  obtain tool where tool: "tool_name_parse ''support/echo'' = Ok tool"
    using echo_spec_ok by (cases "tool_name_parse ''support/echo''") (auto simp: raw_datasource_spec_of_def echo_tool_def res_bind_def
        Let_def split: sum.splits)
  obtain intakes where l: "load_configured_webhook_intakes (\<lambda>_. Some echo_metadata) None
       [\<lparr>wp_tool_name = ''support/echo'', wp_build = (\<lambda>_ _. Ok [raw_intake echo_serde (\<lambda>b. ''0'') echo_spec])\<rparr>] = Ok intakes"
    "length intakes = 1"
    using tool by (simp add: load_configured_webhook_intakes_def raw_intake_def starts_with_def)
  from mount_paths_unambiguous [OF l(1)] l show ?thesis by blast
qed

text \<open>A datasource of an approved snapshot, activated, and the specification it gives.\<close>

definition activated ::
  "(external_tool_snapshot \<Rightarrow> string option) \<Rightarrow> activations \<Rightarrow> external_tool_snapshot list
   \<Rightarrow> string \<times> string \<Rightarrow> raw_datasource_spec \<Rightarrow> bool" where
  "activated validate activations snapshots c spec \<longleftrightarrow>
     (\<exists>snapshot \<in> set snapshots. validate snapshot = None \<and> ets_approved snapshot \<and>
        (\<exists>ds \<in> set (et_datasources (ets_tool snapshot)). \<exists>acts source_key.
           c = (et_name (ets_tool snapshot), edm_key ds) \<and> map_of activations (et_name (ets_tool snapshot)) = Some acts
           \<and> map_of acts (edm_key ds) = Some source_key
           \<and> raw_datasource_spec_of (ets_tool snapshot) ds source_key = Ok spec))"

definition load_ok ::
  "(external_tool_snapshot \<Rightarrow> string option) \<Rightarrow> activations \<Rightarrow> external_tool_snapshot list \<Rightarrow> datasource_load \<Rightarrow> bool" where
  "load_ok validate activations snapshots l \<longleftrightarrow>
     distinct (map rd_source_kind (dl_specs l)) \<and> dom (dl_seen_sources l) = rd_source_kind ` set (dl_specs l)
     \<and> (\<forall>spec \<in> set (dl_specs l). \<exists>c. activated validate activations snapshots c spec)
     \<and> (\<forall>c \<in> set (dl_consumed l). \<exists>spec \<in> set (dl_specs l). activated validate activations snapshots c spec)"

lemma load_tool_ok:
  assumes "snapshot \<in> set snapshots" "validate snapshot = None" "ets_approved snapshot"
    and "map_of activations (et_name (ets_tool snapshot)) = Some acts"
  shows "load_tool_datasources (ets_tool snapshot) acts dss l = Ok l' \<Longrightarrow> set dss \<subseteq> set (et_datasources (ets_tool snapshot)) \<Longrightarrow>
    load_ok validate activations snapshots l \<Longrightarrow> load_ok validate activations snapshots l'"
proof (induction dss arbitrary: l)
  case (Cons ds dss)
  let ?tool = "ets_tool snapshot"
  show ?case
  proof (cases "map_of acts (edm_key ds)")
    case None
    with Cons show ?thesis by simp
  next
    case (Some source_key)
    with Cons.prems(1) obtain spec where spec: "raw_datasource_spec_of ?tool ds source_key = Ok spec"
      by (auto split: sum.splits)
    with Some Cons.prems(1) have none: "dl_seen_sources l (rd_source_kind spec) = None"
      by (auto simp: Let_def split: option.splits)
    have "activated validate activations snapshots (et_name ?tool, edm_key ds) spec"
      using assms Some spec Cons.prems(2) unfolding activated_def by auto
    with Cons.prems(3) none
    have "load_ok validate activations snapshots \<lparr>dl_specs = dl_specs l @ [spec],
        dl_seen_sources = (dl_seen_sources l)(rd_source_kind spec \<mapsto> et_name ?tool @ ''.'' @ edm_key ds),
        dl_consumed = (et_name ?tool, edm_key ds) # dl_consumed l\<rparr>"
      unfolding load_ok_def by (auto simp: domIff)
    with Cons Some spec none show ?thesis by (simp add: Let_def)
  qed
qed simp

lemma load_snapshots_ok:
  "load_snapshots validate activations ss l = Ok l' \<Longrightarrow> set ss \<subseteq> set snapshots \<Longrightarrow>
   load_ok validate activations snapshots l \<Longrightarrow> load_ok validate activations snapshots l'"
proof (induction ss arbitrary: l)
  case (Cons snapshot ss)
  show ?case
  proof (cases "map_of activations (et_name (ets_tool snapshot))")
    case None
    with Cons show ?thesis by simp
  next
    case (Some acts)
    with Cons.prems(1) obtain l1 where l1: "validate snapshot = None" "ets_approved snapshot"
      "load_tool_datasources (ets_tool snapshot) acts (et_datasources (ets_tool snapshot)) l = Ok l1"
      "load_snapshots validate activations ss l1 = Ok l'"
      by (auto simp: Let_def split: option.splits if_splits sum.splits)
    have "load_ok validate activations snapshots l1"
      by (rule load_tool_ok [of snapshot, OF _ _ l1(2) Some l1(3)]) (use Cons.prems l1(1) in simp_all)
    with Cons.IH [OF l1(4)] Cons.prems show ?thesis by simp
  qed
qed simp

text \<open>
  When the external datasources load, there is one intake and one producer for each specification; no two
  specifications share a source kind, so no two producers drain the same inbox items; every
  specification comes from an activated datasource of a valid and approved snapshot; and every
  activation of the configuration is in effect.
\<close>

theorem external_datasources_well_formed:
  assumes "load_external_raw_datasources J digest validate (Inr snapshots) activations = Ok (intakes, producers)"
  shows "\<exists>specs. intakes = map (raw_intake J digest) specs \<and> producers = map (raw_producer J) specs
    \<and> distinct (map rd_source_kind specs)
    \<and> (\<forall>spec \<in> set specs. \<exists>c. activated validate activations snapshots c spec)
    \<and> (\<forall>(tool, acts) \<in> set activations. \<forall>(k, _) \<in> set acts. \<exists>spec \<in> set specs. activated validate activations snapshots (tool, k) spec)"
proof (cases "activations = []")
  case True
  then show ?thesis using assms by (auto simp: load_external_raw_datasources_def)
next
  case False
  then obtain l where l: "load_snapshots validate activations snapshots \<lparr>dl_specs = [], dl_seen_sources = Map.empty, dl_consumed = []\<rparr> = Ok l"
    "find (\<lambda>c. c \<notin> set (dl_consumed l)) (concat (map (\<lambda>(tool, acts). map (\<lambda>(k, _). (tool, k)) acts) activations)) = None"
    "intakes = map (raw_intake J digest) (dl_specs l)" "producers = map (raw_producer J) (dl_specs l)"
    using assms by (auto simp: load_external_raw_datasources_def split: sum.splits option.splits)
  have "load_ok validate activations snapshots l" using load_snapshots_ok [OF l(1) order_refl] by (simp add: load_ok_def)
  moreover have "(tool, k) \<in> set (dl_consumed l)" if "(tool, acts) \<in> set activations" "(k, v) \<in> set acts" for tool acts k v
    using l(2) that by (force simp: find_None_iff)
  ultimately show ?thesis using l(3,4) unfolding load_ok_def by (intro exI [of _ "dl_specs l"]) blast
qed

theorem external_datasources_well_formed_witness:
  "\<exists>intakes producers specs. load_external_raw_datasources echo_serde (\<lambda>b. ''0'') (\<lambda>_. None)
       (Inr [\<lparr>ets_tool = echo_tool, ets_approved = True\<rparr>]) [(''support/echo'', [(''echo-webhook'', None)])]
       = Ok (intakes, producers :: (unit runner_host) event_producer list)
     \<and> length intakes = 1 \<and> intakes = map (raw_intake echo_serde (\<lambda>b. ''0'')) specs \<and> distinct (map rd_source_kind specs)"
proof -
  obtain intakes and producers :: "(unit runner_host) event_producer list" where
    l: "load_external_raw_datasources echo_serde (\<lambda>b. ''0'') (\<lambda>_. None)
       (Inr [\<lparr>ets_tool = echo_tool, ets_approved = True\<rparr>]) [(''support/echo'', [(''echo-webhook'', None)])] = Ok (intakes, producers)"
    "length intakes = 1"
    using echo_spec_ok by (simp add: load_external_raw_datasources_def echo_tool_def)
  from external_datasources_well_formed [OF l(1)] l show ?thesis by blast
qed

subsection \<open>Items that were not acknowledged\<close>

lemma collect_res_total: "(\<And>x. x \<in> set xs \<Longrightarrow> f x = Ok (g x)) \<Longrightarrow> collect_res f xs = Ok (map g xs)"
  by (induction xs) auto

definition row_item :: "ingress_row \<Rightarrow> ingress_item" where
  "row_item row = (case parse_ingress_row row of Inr item \<Rightarrow> item | Inl _ \<Rightarrow> undefined)"

lemma parse_row_total: "0 \<le> ir_enqueued_at r \<Longrightarrow> parse_ingress_row r = Ok (row_item r)"
  by (simp add: row_item_def parse_ingress_row_def)

lemma list_pending_total:
  assumes "\<forall>r \<in> set (rs_ingress st). 0 \<le> ir_enqueued_at r" "length (rs_ingress st) \<le> limit"
  shows "\<exists>items. list_pending_ingress_items DbUp kinds limit st = Ok items \<and>
    (\<forall>r \<in> set (rs_ingress st). \<forall>k \<in> set kinds. ir_status r = InPending \<longrightarrow> ir_emitted_at r = None \<longrightarrow> ir_source_kind r = Some k
       \<longrightarrow> row_item r \<in> set items)"
proof -
  let ?p = "\<lambda>r. ir_status r = InPending \<and> ir_emitted_at r = None \<and> (case ir_source_kind r of Some k \<Rightarrow> k \<in> set kinds | None \<Rightarrow> False)"
  let ?rows = "sort_key (\<lambda>r. (ir_enqueued_at r, ir_ingress_id r)) (filter ?p (rs_ingress st))"
  have "length ?rows \<le> limit" using assms(2) by (simp add: le_trans [OF length_filter_le])
  then have "list_pending_ingress_items DbUp kinds limit st = collect_res parse_ingress_row ?rows"
    by (simp add: list_pending_ingress_items_def db_select_def)
  also have "\<dots> = Ok (map row_item ?rows)" using assms(1) by (intro collect_res_total parse_row_total) auto
  finally show ?thesis by auto
qed

lemma emit_items_total:
  assumes "unat now < 2 ^ 63"
  shows "\<exists>events ids st'. emit_items J DbUp now spec items st = (Ok (events, ids), st') \<and>
    (\<forall>item \<in> set items. \<forall>j envelope. sj_from_str J (ii_payload_json item) = Inr j \<longrightarrow> envelope_of_json j = Some envelope \<longrightarrow>
       item_event spec item envelope \<in> set events)"
proof (induction items arbitrary: st)
  case (Cons item items)
  show ?case
  proof (cases "Option.bind (case sj_from_str J (ii_payload_json item) of Inr j \<Rightarrow> Some j | Inl _ \<Rightarrow> None) envelope_of_json")
    case None
    have "\<exists>st1. mark_ingress_delivered DbUp [ii_ingress_id item] now st = (Ok (), st1)"
      using assms by (simp add: mark_ingress_delivered_def unix_ms_to_db_int_def db_update_def)
    then obtain st1 where m: "mark_ingress_delivered DbUp [ii_ingress_id item] now st = (Ok (), st1)" by blast
    then show ?thesis using None Cons.IH [of st1] by auto
  next
    case (Some envelope)
    then show ?thesis using Cons.IH [of st] by auto
  qed
qed simp

text \<open>Rows that differ only in their status and time stamps.\<close>

definition same_rows :: "ingress_row list \<Rightarrow> ingress_row list \<Rightarrow> bool" where
  "same_rows rows rows' \<longleftrightarrow> map ir_enqueued_at rows' = map ir_enqueued_at rows"

lemma same_rows_props:
  assumes "same_rows rows rows'"
  shows "length rows' = length rows" "(\<forall>r \<in> set rows. 0 \<le> ir_enqueued_at r) \<Longrightarrow> (\<forall>r \<in> set rows'. 0 \<le> ir_enqueued_at r)"
proof -
  show "length rows' = length rows" using assms map_eq_imp_length_eq unfolding same_rows_def by blast
  have "ir_enqueued_at ` set rows' = ir_enqueued_at ` set rows" using assms unfolding same_rows_def by (metis set_map)
  then show "(\<forall>r \<in> set rows. 0 \<le> ir_enqueued_at r) \<Longrightarrow> (\<forall>r \<in> set rows'. 0 \<le> ir_enqueued_at r)" by (metis imageE imageI)
qed

lemma deliver_up:
  assumes "unat now < 2 ^ 63"
  shows "\<exists>st'. mark_ingress_delivered DbUp ids now st = (Ok (), st') \<and> same_rows (rs_ingress st) (rs_ingress st')
    \<and> (\<forall>r \<in> set (rs_ingress st). ir_ingress_id r \<notin> set ids \<longrightarrow> r \<in> set (rs_ingress st'))"
  using assms by (auto simp: mark_ingress_delivered_def unix_ms_to_db_int_def db_update_def same_rows_def image_iff)

lemma requeue_up:
  assumes "unat before < 2 ^ 63"
  shows "\<exists>n st'. requeue_stale_ingress DbUp before st = (Ok n, st') \<and> same_rows (rs_ingress st) (rs_ingress st')
    \<and> (\<forall>r \<in> set (rs_ingress st). \<forall>ms. ir_status r = InEmitted \<longrightarrow> ir_emitted_at r = Some ms \<longrightarrow> ms \<le> uint before
         \<longrightarrow> r\<lparr>ir_status := InPending, ir_emitted_at := None\<rparr> \<in> set (rs_ingress st'))"
  using assms by (auto simp: requeue_stale_ingress_def unix_ms_to_db_int_def db_update_def same_rows_def image_iff)

lemma emitted_up:
  assumes "unat now < 2 ^ 63"
  shows "\<exists>emitted st'. mark_ingress_emitted DbUp ids now st = (Ok emitted, st')
    \<and> (\<forall>r \<in> set (rs_ingress st). ir_ingress_id r \<in> set ids \<longrightarrow> ir_status r = InPending \<longrightarrow> ir_emitted_at r = None
         \<longrightarrow> ir_ingress_id r \<in> set emitted)"
  using assms by (auto simp: mark_ingress_emitted_def unix_ms_to_db_int_def db_update_def image_iff)

lemma saturating_sub_le: "unat (saturating_sub a b) \<le> unat a"
proof (cases "a < b")
  case False
  then have "a - b \<le> a" by (simp add: word_sub_le)
  then show ?thesis using False by (simp add: saturating_sub_def word_le_nat_alt)
qed (simp add: saturating_sub_def)


definition stale_row :: ingress_row where
  "stale_row = \<lparr>ir_ingress_id = ''i1'', ir_source_kind = Some ''echo'', ir_source_key = ''echo:local'', ir_payload_json = ''envelope'',
     ir_status = InEmitted, ir_enqueued_at = 1, ir_emitted_at = Some 2, ir_delivered_at = None\<rparr>"


end
