(* ===== verification/Sandbox_Provider.thy ===== *)
theory Sandbox_Provider
  imports Tool_Names Sse "HOL-Library.Char_ord" "HOL-Library.List_Lexorder"
begin

text \<open>
  Sandboxes for external tools (\<^verbatim>\<open>crates/baml-rt-tools/src/external_tools/sandbox\<close>): the values of
  \<^verbatim>\<open>spec.rs\<close>, the bind-path guard, the stock specification of \<^verbatim>\<open>wiring.rs\<close>, the provider trait and
  its microsandbox implementation.  The microsandbox crate, the file system and the SHA-256
  digest are arguments; times and durations are counted in nanoseconds.
\<close>


subsection \<open>Durations\<close>

abbreviation second :: nat where
  "second \<equiv> 1000000000"

text \<open>\<^verbatim>\<open>{:?}\<close> of a \<^verbatim>\<open>Duration\<close>: the largest unit that has an integral part, and the fraction
  without its trailing zeros.\<close>

fun frac_digits :: "nat \<Rightarrow> nat \<Rightarrow> string" where
  "frac_digits 0 f = []"
| "frac_digits (Suc k) f = frac_digits k (f div 10) @ [digit_char (f mod 10)]"

definition drop_zeros :: "string \<Rightarrow> string" where
  "drop_zeros s = rev (dropWhile (\<lambda>c. c = CHR ''0'') (rev s))"

definition fmt_decimal :: "nat \<Rightarrow> nat \<Rightarrow> nat \<Rightarrow> string" where
  "fmt_decimal i k f =
     (case drop_zeros (frac_digits k f) of [] \<Rightarrow> show_nat i | ds \<Rightarrow> show_nat i @ ''.'' @ ds)"

definition debug_duration :: "nat \<Rightarrow> string" where
  "debug_duration d =
     (if second \<le> d then fmt_decimal (d div second) 9 (d mod second) @ ''s''
      else if 1000000 \<le> d then fmt_decimal (d div 1000000) 6 (d mod 1000000) @ ''ms''
      else if 1000 \<le> d then fmt_decimal (d div 1000) 3 (d mod 1000) @ [CHR 0xC2, CHR 0xB5] @ ''s''
      else fmt_decimal d 0 0 @ ''ns'')"

definition duration_from_secs :: "nat \<Rightarrow> nat" where
  "duration_from_secs n = n * second"

definition as_secs :: "nat \<Rightarrow> nat" where
  "as_secs d = d div second"

text \<open>\<^verbatim>\<open>SystemTime::elapsed\<close> fails when the clock is behind the recorded time.\<close>

definition elapsed :: "nat \<Rightarrow> nat \<Rightarrow> nat option" where
  "elapsed now t = (if t \<le> now then Some (now - t) else None)"

subsection \<open>Specifications and handles\<close>

datatype sandbox_image_source = Oci string | Bind string

definition is_oci :: "sandbox_image_source \<Rightarrow> bool" where
  "is_oci i = (case i of Oci _ \<Rightarrow> True | Bind _ \<Rightarrow> False)"

record volume_mount =
  vm_host :: string
  vm_guest :: string
  vm_readonly :: bool

record port_mapping =
  pm_host :: "16 word"
  pm_guest :: "16 word"

datatype pull_policy = IfMissing | Always | Never

datatype destination_group = Metadata | Private

datatype destination = Any | Domain string | Cidr string | Group destination_group

datatype protocol = Tcp | Udp | Http | Https

record network_rule =
  nr_destination :: destination
  nr_protocol :: "protocol option"
  nr_port :: "16 word option"

record network_policy =
  np_allow :: "network_rule list"
  np_hard_deny :: "destination_group list"

datatype secret_binding_mode = EgressBound "string list" | PerInvoke

record secret_binding =
  sb_env_var :: string
  sb_value :: string
  sb_binding :: secret_binding_mode

record sandbox_spec =
  ssp_name :: string
  ssp_image :: sandbox_image_source
  ssp_guest_workdir :: string
  ssp_cpus :: "32 word"
  ssp_memory_mib :: "32 word"
  ssp_env :: "(string \<times> string) list"
  ssp_volumes :: "volume_mount list"
  ssp_port_mappings :: "port_mapping list"
  ssp_network_policy :: network_policy
  ssp_secrets :: "secret_binding list"
  ssp_scripts :: "(string \<times> string) list"
  ssp_idle_timeout :: nat
  ssp_max_duration :: nat
  ssp_detached :: bool
  ssp_pull_policy :: pull_policy
  ssp_entrypoint :: "string list"
  ssp_policy_hash :: "string option"

record sandbox_handle =
  sh_name :: string
  sh_created_at :: nat
  sh_last_used_at :: nat
  sh_guest_workdir :: string
  sh_policy_hash :: "string option"
  sh_idle_timeout :: nat
  sh_max_duration :: nat

definition sandbox_handle_new :: "nat \<Rightarrow> string \<Rightarrow> nat \<Rightarrow> sandbox_handle" where
  "sandbox_handle_new now n max_duration =
     \<lparr>sh_name = n, sh_created_at = now, sh_last_used_at = now, sh_guest_workdir = ''/'', sh_policy_hash = None,
      sh_idle_timeout = max_duration, sh_max_duration = max_duration\<rparr>"

definition handle_touch :: "nat \<Rightarrow> sandbox_handle \<Rightarrow> sandbox_handle" where
  "handle_touch now h = h\<lparr>sh_last_used_at := now\<rparr>"

definition is_expired :: "nat \<Rightarrow> sandbox_handle \<Rightarrow> bool" where
  "is_expired now h =
     (let max_expired = (case elapsed now (sh_created_at h) of Some d \<Rightarrow> sh_max_duration h \<le> d | None \<Rightarrow> False);
          idle_expired = (case elapsed now (sh_last_used_at h) of Some d \<Rightarrow> sh_idle_timeout h \<le> d | None \<Rightarrow> False)
      in max_expired \<or> idle_expired)"

text \<open>The reattach checklist: lifetime, policy hash where both sides have one, working directory.\<close>

definition validate_reattach :: "nat \<Rightarrow> sandbox_handle \<Rightarrow> sandbox_spec \<Rightarrow> bool" where
  "validate_reattach now h spec =
     (if is_expired now h then False
      else if (case (sh_policy_hash h, ssp_policy_hash spec) of (Some a, Some b) \<Rightarrow> a \<noteq> b | _ \<Rightarrow> False) then False
      else if sh_guest_workdir h \<noteq> ssp_guest_workdir spec then False
      else True)"

subsection \<open>Bind paths\<close>

text \<open>The file system: \<^verbatim>\<open>canonicalize\<close> with the text of its error, and \<^verbatim>\<open>is_dir\<close>.\<close>

record file_system =
  fs_canonicalize :: "string \<Rightarrow> (string, string) result"
  fs_is_dir :: "string \<Rightarrow> bool"

text \<open>\<^verbatim>\<open>Path::starts_with\<close> compares whole components.\<close>

definition path_components :: "string \<Rightarrow> string list" where
  "path_components p =
     (if starts_with p ''/'' then [''/''] else []) @ filter (\<lambda>c. c \<noteq> [] \<and> c \<noteq> ''.'') (split_on (CHR ''/'') p)"

definition path_starts_with :: "string \<Rightarrow> string \<Rightarrow> bool" where
  "path_starts_with p r \<longleftrightarrow> prefix (path_components r) (path_components p)"

definition canonicalize_bind_path :: "file_system \<Rightarrow> string \<Rightarrow> string list \<Rightarrow> string res" where
  "canonicalize_bind_path fs raw roots =
     (case fs_canonicalize fs raw of
        Inl e \<Rightarrow> Err (InvalidArgument (''bind path does not resolve: '' @ raw @ '': '' @ e))
      | Inr canonical \<Rightarrow>
          (if \<not> fs_is_dir fs canonical
           then Err (InvalidArgument (''bind path is not a directory: '' @ canonical))
           else if roots = [] then Err (InvalidArgument ''bind rootfs is disabled: sandbox.bind_roots is empty'')
           else if \<not> list_ex (\<lambda>r. case fs_canonicalize fs r of
                                   Inl _ \<Rightarrow> False
                                 | Inr root_canon \<Rightarrow> path_starts_with canonical root_canon) roots
           then Err (InvalidArgument (''bind path escapes allowlist: '' @ canonical))
           else Ok canonical))"

subsection \<open>Names and stock specifications\<close>

record sandbox_cache_key =
  ck_agent_id :: string
  ck_context_id :: string
  ck_tool_name :: tool_name

fun sanitize_loop :: "nat \<Rightarrow> string \<Rightarrow> string \<Rightarrow> string" where
  "sanitize_loop max_len out [] = out"
| "sanitize_loop max_len out (ch # s) =
     (let mapped = (if is_ascii_alphanumeric ch \<or> ch = CHR ''-'' \<or> ch = CHR ''_'' then ch else CHR ''_'');
          out' = out @ [mapped]
      in if max_len \<le> length out' then out' else sanitize_loop max_len out' s)"

definition sanitize_component :: "string \<Rightarrow> nat \<Rightarrow> string" where
  "sanitize_component input max_len =
     (let out = sanitize_loop max_len [] input in if out = [] then ''x'' else out)"

text \<open>The first ten hexadecimal digits of the digest, a string of 64.\<close>

definition short_hash :: "(string \<Rightarrow> string) \<Rightarrow> string \<Rightarrow> string" where
  "short_hash sha256_hex input = take 10 (sha256_hex input)"

definition encode_name :: "(string \<Rightarrow> string) \<Rightarrow> string \<Rightarrow> sandbox_cache_key \<Rightarrow> string" where
  "encode_name sha256_hex runner_id key =
     ''baml:'' @ sanitize_component runner_id 8 @ '':'' @
     short_hash sha256_hex (runner_id @ ''|'' @ ck_agent_id key @ ''|'' @ ck_context_id key @ ''|''
                            @ display_tool_name (ck_tool_name key))"

datatype sandbox_image_ref = OciRef string | BindRef string

record sandbox_adapter_runtime_spec =
  sar_schema_version :: "32 word"
  sar_protocol :: string
  sar_command :: "string list"
  sar_workdir :: "string option"

record sandbox_runtime_spec =
  srs_image :: sandbox_image_ref
  srs_entrypoint :: "string list"
  srs_adapter :: "sandbox_adapter_runtime_spec option"

record process_runtime_spec =
  prs_command :: "string list"
  prs_setup :: "string list"

datatype tool_runtime = Process process_runtime_spec | Sandbox sandbox_runtime_spec

definition DEFAULT_IDLE_TIMEOUT_SECS :: nat where
  "DEFAULT_IDLE_TIMEOUT_SECS = 300"

definition DEFAULT_MAX_DURATION_SECS :: nat where
  "DEFAULT_MAX_DURATION_SECS = 3600"

text \<open>A \<^verbatim>\<open>BTreeMap\<close> as the list of its entries in key order.\<close>

fun btree_insert :: "string \<Rightarrow> 'v \<Rightarrow> (string \<times> 'v) list \<Rightarrow> (string \<times> 'v) list" where
  "btree_insert k v [] = [(k, v)]"
| "btree_insert k v ((k', v') # m) =
     (if k < k' then (k, v) # (k', v') # m
      else if k = k' then (k, v) # m
      else (k', v') # btree_insert k v m)"

text \<open>The secrets a tool declares, taken from the environment of the runner.\<close>

definition build_secret_env :: "(string \<Rightarrow> string option) \<Rightarrow> string list \<Rightarrow> (string \<times> string) list" where
  "build_secret_env env_var secrets =
     foldl (\<lambda>acc n. case env_var n of
                       Some v \<Rightarrow> if trim v \<noteq> [] then btree_insert n v acc else acc
                     | None \<Rightarrow> acc) [] secrets"

definition build_stock_spec ::
  "string \<Rightarrow> sandbox_image_source \<Rightarrow> string \<Rightarrow> string list \<Rightarrow> (string \<times> string) list \<Rightarrow> sandbox_spec" where
  "build_stock_spec n img workdir entrypoint env =
     \<lparr>ssp_name = n, ssp_image = img, ssp_guest_workdir = workdir, ssp_cpus = 1, ssp_memory_mib = 512,
      ssp_env = env, ssp_volumes = [], ssp_port_mappings = [],
      ssp_network_policy = \<lparr>np_allow = [], np_hard_deny = []\<rparr>, ssp_secrets = [], ssp_scripts = [],
      ssp_idle_timeout = duration_from_secs DEFAULT_IDLE_TIMEOUT_SECS, ssp_max_duration = duration_from_secs DEFAULT_MAX_DURATION_SECS,
      ssp_detached = True, ssp_pull_policy = IfMissing, ssp_entrypoint = entrypoint, ssp_policy_hash = None\<rparr>"

definition build_default_spec_builder ::
  "file_system \<Rightarrow> (string \<Rightarrow> string option) \<Rightarrow> (sandbox_cache_key \<Rightarrow> string) \<Rightarrow> tool_name \<Rightarrow> tool_runtime option
   \<Rightarrow> string list \<Rightarrow> string list \<Rightarrow> (sandbox_cache_key \<Rightarrow> sandbox_spec res) res" where
  "build_default_spec_builder fs env_var encode tool runtime secrets bind_roots =
     (case runtime of
        Some (Sandbox sandbox) \<Rightarrow>
          res_bind (case srs_image sandbox of
                      OciRef r \<Rightarrow> Ok (Oci r)
                    | BindRef path \<Rightarrow>
                        res_bind (canonicalize_bind_path fs path bind_roots) (\<lambda>canonical. Ok (Bind canonical)))
            (\<lambda>img.
               let workdir = (case Option.bind (srs_adapter sandbox) sar_workdir of Some w \<Rightarrow> w | None \<Rightarrow> ''/'');
                   secret_env = build_secret_env env_var secrets
               in Ok (\<lambda>key. Ok (build_stock_spec (encode key) img workdir (srs_entrypoint sandbox) secret_env)))
      | _ \<Rightarrow> Err (InvalidArgument
               (''tool '' @ CHR 0x27 # display_tool_name tool @ CHR 0x27 #
                '' reached default sandbox spec factory without a sandbox runtime declaration'')))"

subsection \<open>The provider\<close>

text \<open>The trait \<^verbatim>\<open>SandboxProvider\<close>, over the state \<^typ>\<open>'w\<close> of the provider.\<close>

record ('ch, 'w) sandbox_provider =
  pv_create :: "sandbox_spec \<Rightarrow> 'w \<Rightarrow> sandbox_handle res \<times> 'w"
  pv_rpc_channel :: "sandbox_handle \<Rightarrow> 'w \<Rightarrow> 'ch res \<times> 'w"
  pv_teardown :: "sandbox_handle \<Rightarrow> 'w \<Rightarrow> unit res \<times> 'w"
  pv_reattach :: "string \<Rightarrow> 'w \<Rightarrow> sandbox_handle res \<times> 'w"
  pv_now :: "'w \<Rightarrow> nat"

text \<open>What the microsandbox builder is given, in the order of the calls.\<close>

record sandbox_builder =
  bl_name :: string
  bl_cpus :: "8 word"
  bl_memory :: "32 word"
  bl_workdir :: string
  bl_idle_timeout :: nat
  bl_max_duration :: nat
  bl_replace :: bool
  bl_image :: sandbox_image_source
  bl_env :: "(string \<times> string) list"
  bl_secret_env :: "(string \<times> string \<times> string) list"
  bl_entrypoint :: "string list option"
  bl_ports :: "(16 word \<times> 16 word) list"
  bl_scripts :: "(string \<times> string) list"
  bl_public_only :: bool

text \<open>The operations of the microsandbox crate; \<^typ>\<open>'x\<close> is its state, errors are their texts.\<close>

record ('sb, 'ex, 'ch, 'x) microsandbox =
  mb_create :: "bool \<Rightarrow> sandbox_builder \<Rightarrow> 'x \<Rightarrow> (string, 'sb) result \<times> 'x"
  mb_start :: "string \<Rightarrow> 'x \<Rightarrow> (string, 'sb) result \<times> 'x"
  mb_printenv :: "'sb \<Rightarrow> 'x \<Rightarrow> (string, string) result \<times> 'x"
  mb_exec :: "'sb \<Rightarrow> string \<Rightarrow> string \<Rightarrow> 'x \<Rightarrow> (string, 'ex) result \<times> 'x"
  mb_adapt :: "'ex \<Rightarrow> 'x \<Rightarrow> (string, 'ch) result \<times> 'x"
  mb_stop :: "'sb \<Rightarrow> 'x \<Rightarrow> bool \<times> 'x"
  mb_kill :: "'sb \<Rightarrow> 'x \<Rightarrow> 'x"

record ('sb, 'x) msb_state =
  ms_live :: "string \<rightharpoonup> 'sb"
  ms_now :: nat
  ms_rt :: 'x

definition to_rt_err :: "string \<Rightarrow> string \<Rightarrow> baml_error" where
  "to_rt_err ctxt e = InvalidArgument (ctxt @ '': '' @ e)"

definition clamp_cpus :: "32 word \<Rightarrow> 8 word" where
  "clamp_cpus cpus = (if cpus = 0 then 1 else if 255 < cpus then 255 else ucast cpus)"

definition STASH_POLICY_HASH :: string where
  "STASH_POLICY_HASH = ''BAML_POLICY_HASH''"

definition STASH_MAX_DURATION_SECS :: string where
  "STASH_MAX_DURATION_SECS = ''BAML_MAX_DURATION_SECS''"

definition STASH_IDLE_TIMEOUT_SECS :: string where
  "STASH_IDLE_TIMEOUT_SECS = ''BAML_IDLE_TIMEOUT_SECS''"

definition STASH_GUEST_WORKDIR :: string where
  "STASH_GUEST_WORKDIR = ''BAML_GUEST_WORKDIR''"

definition baseline_env :: "string \<Rightarrow> (string \<times> string) list" where
  "baseline_env workdir =
     [(''HOME'', ''/home/sandbox''), (''USER'', ''sandbox''), (''PWD'', workdir),
      (''XDG_CONFIG_HOME'', ''/home/sandbox/.config''), (''XDG_CACHE_HOME'', ''/home/sandbox/.cache''),
      (''TMPDIR'', ''/tmp'')]"

definition stash_env :: "sandbox_spec \<Rightarrow> (string \<times> string) list" where
  "stash_env spec =
     (case ssp_policy_hash spec of Some hash \<Rightarrow> [(STASH_POLICY_HASH, hash)] | None \<Rightarrow> [])
     @ [(STASH_MAX_DURATION_SECS, show_nat (as_secs (ssp_max_duration spec))),
        (STASH_IDLE_TIMEOUT_SECS, show_nat (as_secs (ssp_idle_timeout spec))),
        (STASH_GUEST_WORKDIR, ssp_guest_workdir spec)]"

definition create_env :: "sandbox_spec \<Rightarrow> (string \<times> string) list" where
  "create_env spec =
     ssp_env spec
     @ filter (\<lambda>(k, v). k \<notin> fst ` set (ssp_env spec)) (baseline_env (ssp_guest_workdir spec))
     @ stash_env spec"

definition create_builder :: "sandbox_spec \<Rightarrow> sandbox_builder" where
  "create_builder spec =
     \<lparr>bl_name = ssp_name spec, bl_cpus = clamp_cpus (ssp_cpus spec), bl_memory = ssp_memory_mib spec,
      bl_workdir = ssp_guest_workdir spec, bl_idle_timeout = as_secs (ssp_idle_timeout spec),
      bl_max_duration = as_secs (ssp_max_duration spec), bl_replace = True, bl_image = ssp_image spec,
      bl_env = create_env spec,
      bl_secret_env = concat (map (\<lambda>s. case sb_binding s of
                                          EgressBound hosts \<Rightarrow> map (\<lambda>host. (sb_env_var s, sb_value s, host)) hosts
                                        | PerInvoke \<Rightarrow> []) (ssp_secrets spec)),
      bl_entrypoint = (if ssp_entrypoint spec \<noteq> [] then Some (ssp_entrypoint spec) else None),
      bl_ports = map (\<lambda>p. (pm_host p, pm_guest p)) (ssp_port_mappings spec),
      bl_scripts = ssp_scripts spec, bl_public_only = True\<rparr>"

definition msb_create ::
  "('sb, 'ex, 'ch, 'x) microsandbox \<Rightarrow> sandbox_spec \<Rightarrow> ('sb, 'x) msb_state \<Rightarrow> sandbox_handle res \<times> ('sb, 'x) msb_state" where
  "msb_create mb spec st =
     (if (case ssp_image spec of Bind _ \<Rightarrow> ssp_pull_policy spec = Always | Oci _ \<Rightarrow> False)
      then (Err (InvalidArgument ''pull_policy=always is invalid for bind sandbox images''), st)
      else (case mb_create mb (ssp_detached spec) (create_builder spec) (ms_rt st) of
              (Inl e, x) \<Rightarrow>
                (Err (to_rt_err ((if ssp_detached spec then ''microsandbox create_detached '' else ''microsandbox create '')
                                 @ CHR 0x27 # ssp_name spec @ CHR 0x27 # '' failed'') e), st\<lparr>ms_rt := x\<rparr>)
            | (Inr sandbox, x) \<Rightarrow>
                (Ok \<lparr>sh_name = ssp_name spec, sh_created_at = ms_now st, sh_last_used_at = ms_now st,
                     sh_guest_workdir = ssp_guest_workdir spec, sh_policy_hash = ssp_policy_hash spec,
                     sh_idle_timeout = ssp_idle_timeout spec, sh_max_duration = ssp_max_duration spec\<rparr>,
                 st\<lparr>ms_live := (ms_live st)(ssp_name spec \<mapsto> sandbox), ms_rt := x\<rparr>)))"

definition msb_rpc_channel ::
  "('sb, 'ex, 'ch, 'x) microsandbox \<Rightarrow> sandbox_handle \<Rightarrow> ('sb, 'x) msb_state \<Rightarrow> 'ch res \<times> ('sb, 'x) msb_state" where
  "msb_rpc_channel mb h st =
     (case ms_live st (sh_name h) of
        None \<Rightarrow> (Err (InvalidArgument (''MicrosandboxProvider has no live sandbox named '' @ CHR 0x27 # sh_name h
                       @ CHR 0x27 # ''; call create/reattach first'')), st)
      | Some sandbox \<Rightarrow>
          (case (case mb_exec mb sandbox ''/tool-adapter'' (sh_guest_workdir h) (ms_rt st) of
                   (Inr ex, x) \<Rightarrow> (Inr ex, x)
                 | (Inl _, x) \<Rightarrow> mb_exec mb sandbox ''tool-adapter'' (sh_guest_workdir h) x) of
             (Inl e, x) \<Rightarrow>
               (Err (to_rt_err (''microsandbox exec_stream for sandbox '' @ CHR 0x27 # sh_name h @ CHR 0x27 # '' failed'') e),
                st\<lparr>ms_rt := x\<rparr>)
           | (Inr ex, x) \<Rightarrow>
               (case mb_adapt mb ex x of
                  (Inl msg, y) \<Rightarrow>
                    (Err (InvalidArgument (''sandbox '' @ CHR 0x27 # sh_name h @ CHR 0x27 #
                           '' exec-to-channel adapter failed: '' @ msg)), st\<lparr>ms_rt := y\<rparr>)
                | (Inr ch, y) \<Rightarrow> (Ok ch, st\<lparr>ms_rt := y\<rparr>))))"

text \<open>A stop that fails or times out falls back to a kill; the caller is told nothing of either.\<close>

definition msb_teardown ::
  "('sb, 'ex, 'ch, 'x) microsandbox \<Rightarrow> sandbox_handle \<Rightarrow> ('sb, 'x) msb_state \<Rightarrow> unit res \<times> ('sb, 'x) msb_state" where
  "msb_teardown mb h st =
     (case ms_live st (sh_name h) of
        None \<Rightarrow> (Ok (), st)
      | Some sandbox \<Rightarrow>
          (case mb_stop mb sandbox (ms_rt st) of
             (stopped, x) \<Rightarrow>
               (Ok (), st\<lparr>ms_live := (ms_live st)(sh_name h := None),
                          ms_rt := (if stopped then x else mb_kill mb sandbox x)\<rparr>)))"

type_synonym reattach_metadata = "string option \<times> nat \<times> nat \<times> string"

definition recover_line :: "string \<Rightarrow> reattach_metadata \<Rightarrow> reattach_metadata" where
  "recover_line line = (\<lambda>(policy_hash, idle, mx, workdir).
     (case strip_prefix (STASH_POLICY_HASH @ ''='') line of
        Some v \<Rightarrow> (if v \<noteq> [] then (Some v, idle, mx, workdir) else (policy_hash, idle, mx, workdir))
      | None \<Rightarrow>
     (case strip_prefix (STASH_MAX_DURATION_SECS @ ''='') line of
        Some v \<Rightarrow> (case parse_uint 64 v of Some n \<Rightarrow> (policy_hash, idle, n, workdir)
                   | None \<Rightarrow> (policy_hash, idle, mx, workdir))
      | None \<Rightarrow>
     (case strip_prefix (STASH_IDLE_TIMEOUT_SECS @ ''='') line of
        Some v \<Rightarrow> (case parse_uint 64 v of Some n \<Rightarrow> (policy_hash, n, mx, workdir)
                   | None \<Rightarrow> (policy_hash, idle, mx, workdir))
      | None \<Rightarrow>
     (case strip_prefix (STASH_GUEST_WORKDIR @ ''='') line of
        Some v \<Rightarrow> (if v \<noteq> [] then (policy_hash, idle, mx, v) else (policy_hash, idle, mx, workdir))
      | None \<Rightarrow> (policy_hash, idle, mx, workdir))))))"

definition recover_metadata :: "string \<Rightarrow> reattach_metadata" where
  "recover_metadata stdout =
     (case fold recover_line (str_lines stdout) (None, 0, 0, ''/'') of
        (policy_hash, idle, mx, workdir) \<Rightarrow> (policy_hash, duration_from_secs idle, duration_from_secs mx, workdir))"

definition msb_reattach ::
  "('sb, 'ex, 'ch, 'x) microsandbox \<Rightarrow> string \<Rightarrow> ('sb, 'x) msb_state \<Rightarrow> sandbox_handle res \<times> ('sb, 'x) msb_state" where
  "msb_reattach mb n st =
     (case mb_start mb n (ms_rt st) of
        (Inl e, x) \<Rightarrow> (Err (to_rt_err (''microsandbox Sandbox::start('' @ CHR 0x27 # n @ CHR 0x27 # '') failed'') e),
                       st\<lparr>ms_rt := x\<rparr>)
      | (Inr sandbox, x) \<Rightarrow>
          (case mb_printenv mb sandbox x of
             (out, y) \<Rightarrow>
               (case (case out of Inl _ \<Rightarrow> (None, duration_from_secs 0, duration_from_secs 0, ''/'') | Inr s \<Rightarrow> recover_metadata s) of
                  (policy_hash, idle, mx, workdir) \<Rightarrow>
                    (Ok \<lparr>sh_name = n, sh_created_at = ms_now st, sh_last_used_at = ms_now st, sh_guest_workdir = workdir,
                         sh_policy_hash = policy_hash, sh_idle_timeout = idle, sh_max_duration = mx\<rparr>,
                     st\<lparr>ms_live := (ms_live st)(n \<mapsto> sandbox), ms_rt := y\<rparr>))))"

definition owned_name :: "string \<Rightarrow> string \<Rightarrow> bool" where
  "owned_name runner_id n \<longleftrightarrow>
     starts_with n (''baml:'' @ runner_id @ '':'') \<or> starts_with n (''baml:'' @ take 8 runner_id @ '':'')"

definition microsandbox_provider ::
  "('sb, 'ex, 'ch, 'x) microsandbox \<Rightarrow> ('ch, ('sb, 'x) msb_state) sandbox_provider" where
  "microsandbox_provider mb =
     \<lparr>pv_create = msb_create mb, pv_rpc_channel = msb_rpc_channel mb, pv_teardown = msb_teardown mb,
      pv_reattach = msb_reattach mb, pv_now = ms_now\<rparr>"

subsection \<open>Lifetimes\<close>

lemma elapsed_self [simp]: "elapsed t t = Some 0"
  by (simp add: elapsed_def)

lemma is_expired_iff:
  "is_expired now h \<longleftrightarrow>
     sh_created_at h + sh_max_duration h \<le> now \<and> sh_created_at h \<le> now
     \<or> sh_last_used_at h + sh_idle_timeout h \<le> now \<and> sh_last_used_at h \<le> now"
  by (auto simp: is_expired_def elapsed_def split: if_splits)

lemma expired_fresh:
  "sh_created_at h = now \<Longrightarrow> sh_last_used_at h = now
   \<Longrightarrow> is_expired now h \<longleftrightarrow> sh_max_duration h = 0 \<or> sh_idle_timeout h = 0"
  by (auto simp: is_expired_iff)

lemma touch_keeps_max:
  "sh_created_at h + sh_max_duration h \<le> now \<Longrightarrow> is_expired now (handle_touch t h)"
  by (auto simp: is_expired_iff handle_touch_def)

subsection \<open>What a reattached handle knows\<close>

definition env_line :: "string \<times> string \<Rightarrow> string" where
  "env_line kv = fst kv @ ''='' @ snd kv"

definition env_text :: "(string \<times> string) list \<Rightarrow> string" where
  "env_text kvs = concat (map (\<lambda>kv. env_line kv @ [CHR 0x0A]) kvs)"

text \<open>Variables whose names have no equals sign and whose lines have no line break.\<close>

definition printable_env :: "(string \<times> string) list \<Rightarrow> bool" where
  "printable_env kvs \<longleftrightarrow>
     distinct (map fst kvs) \<and>
     list_all (\<lambda>(k, v). CHR ''='' \<notin> set k \<and> CHR 0x0A \<notin> set k \<and> CHR 0x0A \<notin> set v \<and> CHR 0x0D \<notin> set v) kvs"

lemma strip_key:
  "CHR ''='' \<notin> set k \<Longrightarrow> CHR ''='' \<notin> set K \<Longrightarrow>
     strip_prefix (K @ ''='') (k @ ''='' @ v) = (if k = K then Some v else None)"
proof (induction K arbitrary: k)
  case Nil
  then show ?case by (cases k) auto
next
  case (Cons a K)
  then show ?case by (cases k) auto
qed

lemma stash_keys [simp]:
  "CHR ''='' \<notin> set STASH_POLICY_HASH" "CHR ''='' \<notin> set STASH_MAX_DURATION_SECS"
  "CHR ''='' \<notin> set STASH_IDLE_TIMEOUT_SECS" "CHR ''='' \<notin> set STASH_GUEST_WORKDIR"
  "STASH_POLICY_HASH \<noteq> STASH_MAX_DURATION_SECS" "STASH_POLICY_HASH \<noteq> STASH_IDLE_TIMEOUT_SECS"
  "STASH_POLICY_HASH \<noteq> STASH_GUEST_WORKDIR" "STASH_MAX_DURATION_SECS \<noteq> STASH_IDLE_TIMEOUT_SECS"
  "STASH_MAX_DURATION_SECS \<noteq> STASH_GUEST_WORKDIR" "STASH_IDLE_TIMEOUT_SECS \<noteq> STASH_GUEST_WORKDIR"
  by (simp_all add: STASH_POLICY_HASH_def STASH_MAX_DURATION_SECS_def STASH_IDLE_TIMEOUT_SECS_def
      STASH_GUEST_WORKDIR_def)

lemmas stash_keys_sym [simp] = stash_keys(5-10) [symmetric]

definition text_or :: "'a \<Rightarrow> (string \<Rightarrow> 'a) \<Rightarrow> string option \<Rightarrow> 'a" where
  "text_or d f v = (case v of Some s \<Rightarrow> if s \<noteq> [] then f s else d | None \<Rightarrow> d)"

definition num_or :: "nat \<Rightarrow> string option \<Rightarrow> nat" where
  "num_or d v = (case Option.bind v (parse_uint 64) of Some n \<Rightarrow> n | None \<Rightarrow> d)"

lemma strip_line:
  assumes "CHR ''='' \<notin> set k" "CHR ''='' \<notin> set K"
  shows "strip_prefix (K @ ''='') (env_line (k, v)) = (if k = K then Some v else None)"
  using strip_key [OF assms] by (simp add: env_line_def)

lemma recover_line_key:
  assumes "CHR ''='' \<notin> set k"
  shows "recover_line (env_line (k, v)) (h, i, m, w) =
    (if k = STASH_POLICY_HASH then text_or h Some (Some v) else h,
     if k = STASH_IDLE_TIMEOUT_SECS then num_or i (Some v) else i,
     if k = STASH_MAX_DURATION_SECS then num_or m (Some v) else m,
     if k = STASH_GUEST_WORKDIR then text_or w (\<lambda>s. s) (Some v) else w)"
  unfolding recover_line_def prod.case strip_line [OF assms stash_keys(1)] strip_line [OF assms stash_keys(2)]
    strip_line [OF assms stash_keys(3)] strip_line [OF assms stash_keys(4)] text_or_def num_or_def
  by (auto split: option.split)

lemma text_or_step:
  "map_of kvs k = None \<Longrightarrow>
   text_or (if k = K then text_or d f (Some v) else d) f (map_of kvs K) = text_or d f (map_of ((k, v) # kvs) K)"
  by (auto simp: text_or_def)

lemma num_or_step:
  "map_of kvs k = None \<Longrightarrow>
   num_or (if k = K then num_or d (Some v) else d) (map_of kvs K) = num_or d (map_of ((k, v) # kvs) K)"
  by (auto simp: num_or_def)

lemma recover_lines:
  "printable_env kvs \<Longrightarrow>
   fold recover_line (map env_line kvs) (h, i, m, w) =
     (text_or h Some (map_of kvs STASH_POLICY_HASH), num_or i (map_of kvs STASH_IDLE_TIMEOUT_SECS),
      num_or m (map_of kvs STASH_MAX_DURATION_SECS), text_or w (\<lambda>s. s) (map_of kvs STASH_GUEST_WORKDIR))"
proof (induction kvs arbitrary: h i m w)
  case Nil
  then show ?case by (simp add: text_or_def num_or_def)
next
  case (Cons kv kvs)
  obtain k v where kv: "kv = (k, v)" by (cases kv)
  have k: "CHR ''='' \<notin> set k" and fresh: "map_of kvs k = None" and ok: "printable_env kvs"
    using Cons.prems by (auto simp: printable_env_def kv map_of_eq_None_iff)
  show ?case
    by (simp only: kv list.map fold_simps recover_line_key [OF k] Cons.IH [OF ok] text_or_step [OF fresh]
        num_or_step [OF fresh])
qed

lemma split_lines:
  "(\<And>l. l \<in> set ls \<Longrightarrow> CHR 0x0A \<notin> set l) \<Longrightarrow>
   split_on (CHR 0x0A) (concat (map (\<lambda>l. l @ [CHR 0x0A]) ls)) = ls @ [[]]"
  by (induction ls) (auto simp: split_on_append)

lemma str_lines_env:
  assumes "printable_env kvs"
  shows "str_lines (env_text kvs) = map env_line kvs"
proof -
  have nl: "CHR 0x0A \<notin> set l" if "l \<in> set (map env_line kvs)" for l
    using that assms by (auto simp: printable_env_def env_line_def list_all_iff)
  have cr: "strip_suffix [CHR 0x0D] (env_line kv) = None" if "kv \<in> set kvs" for kv
  proof (rule ccontr)
    assume "strip_suffix [CHR 0x0D] (env_line kv) \<noteq> None"
    then obtain r where "fst kv @ ''='' @ snd kv = r @ [CHR 0x0D]" by (auto simp: strip_suffix_iff env_line_def)
    then have "last (fst kv @ ''='' @ snd kv) = CHR 0x0D" by simp
    then have "snd kv \<noteq> [] \<and> last (snd kv) = CHR 0x0D" by (auto split: if_splits)
    then have "CHR 0x0D \<in> set (snd kv)" by (metis last_in_set)
    then show False using assms that by (auto simp: printable_env_def list_all_iff)
  qed
  have "split_on (CHR 0x0A) (env_text kvs) = map env_line kvs @ [[]]"
    using split_lines [of "map env_line kvs"] nl by (simp add: env_text_def comp_def)
  moreover have "map strip_cr (map env_line kvs) = map env_line kvs"
    by (rule map_idI) (auto simp: strip_cr_def cr)
  ultimately show ?thesis by (simp only: str_lines_def Let_def last_snoc butlast_snoc if_True simp_thms append_Nil2)
qed

lemma recover_env_text:
  assumes "printable_env kvs"
  shows "recover_metadata (env_text kvs) =
     (text_or None Some (map_of kvs STASH_POLICY_HASH), duration_from_secs (num_or 0 (map_of kvs STASH_IDLE_TIMEOUT_SECS)),
      duration_from_secs (num_or 0 (map_of kvs STASH_MAX_DURATION_SECS)), text_or ''/'' (\<lambda>s. s) (map_of kvs STASH_GUEST_WORKDIR))"
  by (simp add: recover_metadata_def str_lines_env [OF assms] recover_lines [OF assms])

text \<open>The environment of the guest: the last binding given to the builder wins.\<close>

definition guest_env :: "sandbox_builder \<Rightarrow> string \<rightharpoonup> string" where
  "guest_env b = map_of (rev (bl_env b))"

text \<open>A listing shows, for the stashed variables, what the builder was given.\<close>

definition shows_stash :: "sandbox_builder \<Rightarrow> (string \<times> string) list \<Rightarrow> bool" where
  "shows_stash b kvs \<longleftrightarrow>
     printable_env kvs \<and>
     list_all (\<lambda>k. map_of kvs k = guest_env b k)
       [STASH_POLICY_HASH, STASH_MAX_DURATION_SECS, STASH_IDLE_TIMEOUT_SECS, STASH_GUEST_WORKDIR]"

lemma guest_env_stash:
  "guest_env (create_builder spec) STASH_MAX_DURATION_SECS = Some (show_nat (as_secs (ssp_max_duration spec)))"
  "guest_env (create_builder spec) STASH_IDLE_TIMEOUT_SECS = Some (show_nat (as_secs (ssp_idle_timeout spec)))"
  "guest_env (create_builder spec) STASH_GUEST_WORKDIR = Some (ssp_guest_workdir spec)"
  "ssp_policy_hash spec = Some hash \<Longrightarrow> guest_env (create_builder spec) STASH_POLICY_HASH = Some hash"
  by (auto simp: guest_env_def create_builder_def create_env_def stash_env_def split: option.split)

lemma num_or_show: "n < 2 ^ 64 \<Longrightarrow> num_or d (Some (show_nat n)) = n"
  by (simp add: num_or_def parse_uint_show_nat del: power_numeral)

lemma reattach_handle:
  assumes start: "mb_start mb n (ms_rt st) = (Inr sandbox, x)"
    and env: "mb_printenv mb sandbox x = (Inr (env_text kvs), y)"
    and shown: "shows_stash (create_builder spec) kvs"
    and fits: "as_secs (ssp_max_duration spec) < 2 ^ 64" "as_secs (ssp_idle_timeout spec) < 2 ^ 64"
    and workdir: "ssp_guest_workdir spec \<noteq> []"
  shows "\<exists>h st'. msb_reattach mb n st = (Ok h, st') \<and> sh_name h = n \<and> ms_live st' n = Some sandbox
     \<and> ms_now st' = ms_now st \<and> sh_created_at h = ms_now st \<and> sh_last_used_at h = ms_now st
     \<and> sh_guest_workdir h = ssp_guest_workdir spec
     \<and> sh_policy_hash h = text_or None Some (guest_env (create_builder spec) STASH_POLICY_HASH)
     \<and> sh_max_duration h = duration_from_secs (as_secs (ssp_max_duration spec))
     \<and> sh_idle_timeout h = duration_from_secs (as_secs (ssp_idle_timeout spec))"
proof -
  have p: "printable_env kvs" and m: "\<And>k. k \<in> {STASH_POLICY_HASH, STASH_MAX_DURATION_SECS,
      STASH_IDLE_TIMEOUT_SECS, STASH_GUEST_WORKDIR} \<Longrightarrow> map_of kvs k = guest_env (create_builder spec) k"
    using shown by (auto simp: shows_stash_def)
  have "recover_metadata (env_text kvs) =
      (text_or None Some (guest_env (create_builder spec) STASH_POLICY_HASH),
       duration_from_secs (as_secs (ssp_idle_timeout spec)), duration_from_secs (as_secs (ssp_max_duration spec)), ssp_guest_workdir spec)"
    using workdir
    by (simp add: recover_env_text [OF p] m guest_env_stash num_or_show [OF fits(1)] num_or_show [OF fits(2)]
        text_or_def)
  then show ?thesis by (simp add: msb_reattach_def start env)
qed

lemma duration_from_secs_zero: "duration_from_secs (as_secs d) = 0 \<longleftrightarrow> d < second"
  by (simp add: duration_from_secs_def as_secs_def div_eq_0_iff)

lemma duration_from_secs_as_secs: "duration_from_secs (as_secs d) \<le> d \<and> d < duration_from_secs (as_secs d) + second"
proof -
  have "d div second * second + d mod second = d" "d mod second < second" by simp_all
  then show ?thesis unfolding duration_from_secs_def as_secs_def by linarith
qed


definition demo_spec :: sandbox_spec where
  "demo_spec = build_stock_spec ''baml:r:1'' (Oci ''img'') ''/w'' [] []"

text \<open>A runtime in which a sandbox is what it was built from.\<close>

definition demo_microsandbox :: "(sandbox_builder, unit, unit, string \<rightharpoonup> sandbox_builder) microsandbox" where
  "demo_microsandbox =
     \<lparr>mb_create = (\<lambda>_ b x. (Inr b, x(bl_name b \<mapsto> b))),
      mb_start = (\<lambda>n x. (case x n of Some b \<Rightarrow> Inr b | None \<Rightarrow> Inl ''not found'', x)),
      mb_printenv = (\<lambda>b x. (Inr (env_text (bl_env b)), x)),
      mb_exec = (\<lambda>_ _ _ x. (Inr (), x)), mb_adapt = (\<lambda>_ x. (Inr (), x)),
      mb_stop = (\<lambda>b x. (True, x(bl_name b := None))), mb_kill = (\<lambda>_ x. x)\<rparr>"

definition demo_msb_state :: "(sandbox_builder, string \<rightharpoonup> sandbox_builder) msb_state" where
  "demo_msb_state = snd (msb_create demo_microsandbox demo_spec \<lparr>ms_live = Map.empty, ms_now = 7, ms_rt = Map.empty\<rparr>)"

lemmas demo_sandbox_simps =
  demo_spec_def demo_microsandbox_def demo_msb_state_def msb_create_def create_builder_def build_stock_spec_def

lemma show_nat_no_break [simp]: "CHR 0x0A \<notin> set (show_nat n)" "CHR 0x0D \<notin> set (show_nat n)"
  using show_nat_digits [of n] by (auto simp: is_ascii_digit_def)

lemma demo_stash: "shows_stash (create_builder demo_spec) (create_env demo_spec)"
  by (simp add: shows_stash_def printable_env_def guest_env_def demo_sandbox_simps create_env_def stash_env_def
      baseline_env_def STASH_POLICY_HASH_def STASH_MAX_DURATION_SECS_def STASH_IDLE_TIMEOUT_SECS_def
      STASH_GUEST_WORKDIR_def)


subsection \<open>Confinement\<close>

lemma case_Inr: "(case x of Inl _ \<Rightarrow> False | Inr r \<Rightarrow> P r) \<longleftrightarrow> (\<exists>r. x = Inr r \<and> P r)"
  by (cases x) auto

lemma canonicalize_bind_path_ok:
  "canonicalize_bind_path fs raw roots = Ok p \<longleftrightarrow>
     fs_canonicalize fs raw = Ok p \<and> fs_is_dir fs p \<and>
     (\<exists>r root. r \<in> set roots \<and> fs_canonicalize fs r = Ok root \<and> prefix (path_components root) (path_components p))"
  by (auto simp: canonicalize_bind_path_def path_starts_with_def list_ex_iff case_Inr split: sum.splits if_splits)


definition demo_fs :: file_system where
  "demo_fs = \<lparr>fs_canonicalize = (\<lambda>p. if p = ''/imgs/../imgs/a'' then Inr ''/imgs/a'' else Inr p), fs_is_dir = (\<lambda>_. True)\<rparr>"

definition demo_bind_runtime :: tool_runtime where
  "demo_bind_runtime =
     Sandbox \<lparr>srs_image = BindRef ''/imgs/../imgs/a'', srs_entrypoint = [], srs_adapter = None\<rparr>"

definition demo_tool :: tool_name where
  "demo_tool = \<lparr>tn_bundle = BundleName ''b'', tn_local = LocalToolName ''t''\<rparr>"


subsection \<open>Limits\<close>

lemma clamp_cpus_bounds: "unat (clamp_cpus c) = max 1 (min 255 (unat c))"
proof (cases "c = 0 \<or> 255 < c")
  case True
  then show ?thesis by (auto simp: clamp_cpus_def word_less_nat_alt)
next
  case False
  then have "unat c \<le> 255" "c \<noteq> 0" "0 < unat c" by (auto simp: word_less_nat_alt unat_gt_0)
  then show ?thesis using False by (simp add: clamp_cpus_def unsigned_ucast_eq take_bit_eq_mod)
qed

end
