(* ===== verification/Sandbox_Invoker.thy ===== *)
theory Sandbox_Invoker
  imports Sandbox_Provider
begin

text \<open>
  Single calls to sandboxed tools: the cache of sandboxes and the JSON-RPC caller of
  \<^verbatim>\<open>external_tools/sandbox/invoker.rs\<close>, the response envelope of \<^verbatim>\<open>baml-sandbox-protocol/src/protocol.rs\<close> and
  the error mapping of \<^verbatim>\<open>external_tools/invoker.rs\<close>.  What happens to a frame on the channel is an
  argument.  The theorems cover what the cache holds, when a sandbox is reused and when a call
  is made again.
\<close>

subsection \<open>The response envelope\<close>

record json_rpc_error =
  je_code :: int
  je_message :: string
  je_data :: "json option"

record json_rpc_response =
  jr_jsonrpc :: string
  jr_id :: nat
  jr_result :: "json option"
  jr_error :: "json_rpc_error option"

text \<open>Numbers keep their text: an unsigned one is digits only, a signed one may have a minus sign.\<close>

definition digits_value :: "string \<Rightarrow> nat option" where
  "digits_value s = (if s = [] then None else parse_digits 0 s)"

definition as_u64 :: "json \<Rightarrow> nat option" where
  "as_u64 j = (case j of JNumber s \<Rightarrow>
       (case digits_value s of Some n \<Rightarrow> if n < 2 ^ 64 then Some n else None | None \<Rightarrow> None) | _ \<Rightarrow> None)"

definition as_i32 :: "json \<Rightarrow> int option" where
  "as_i32 j = (case j of
       JNumber (CHR ''-'' # s) \<Rightarrow>
         (case digits_value s of Some n \<Rightarrow> if n \<le> 2 ^ 31 then Some (- int n) else None | None \<Rightarrow> None)
     | JNumber s \<Rightarrow> (case digits_value s of Some n \<Rightarrow> if n < 2 ^ 31 then Some (int n) else None | None \<Rightarrow> None)
     | _ \<Rightarrow> None)"

definition non_null :: "json option \<Rightarrow> json option" where
  "non_null v = (case v of Some JNull \<Rightarrow> None | _ \<Rightarrow> v)"

text \<open>The derived decoders read an object by field names or an array by positions.\<close>

definition json_field :: "json \<Rightarrow> nat \<Rightarrow> string \<Rightarrow> json option" where
  "json_field j i k = (case j of JObject m \<Rightarrow> obj_get m k | JArray vs \<Rightarrow> if i < length vs then Some (vs ! i) else None | _ \<Rightarrow> None)"

definition struct_shape :: "nat \<Rightarrow> json \<Rightarrow> bool" where
  "struct_shape n j = (case j of JObject _ \<Rightarrow> True | JArray vs \<Rightarrow> length vs = n | _ \<Rightarrow> False)"

definition error_from_json :: "json \<Rightarrow> json_rpc_error option" where
  "error_from_json j =
     (if struct_shape 3 j
      then (case (Option.bind (json_field j 0 ''code'') as_i32, Option.bind (json_field j 1 ''message'') as_str) of
              (Some c, Some m) \<Rightarrow> Some \<lparr>je_code = c, je_message = m, je_data = non_null (json_field j 2 ''data'')\<rparr>
            | _ \<Rightarrow> None)
      else None)"

definition response_from_json :: "json \<Rightarrow> json_rpc_response option" where
  "response_from_json j =
     (if struct_shape 4 j
      then (case (Option.bind (json_field j 0 ''jsonrpc'') as_str, Option.bind (json_field j 1 ''id'') as_u64) of
              (Some v, Some i) \<Rightarrow>
                (case non_null (json_field j 3 ''error'') of
                   None \<Rightarrow> Some \<lparr>jr_jsonrpc = v, jr_id = i, jr_result = non_null (json_field j 2 ''result''), jr_error = None\<rparr>
                 | Some e \<Rightarrow>
                     (case error_from_json e of
                        None \<Rightarrow> None
                      | Some err \<Rightarrow> Some \<lparr>jr_jsonrpc = v, jr_id = i, jr_result = non_null (json_field j 2 ''result''),
                                          jr_error = Some err\<rparr>))
            | _ \<Rightarrow> None)
      else None)"

definition request_to_json :: "string \<Rightarrow> 64 word \<Rightarrow> json \<Rightarrow> json" where
  "request_to_json meth i params =
     JObject [(''jsonrpc'', JString ''2.0''), (''method'', JString meth), (''id'', JNumber (show_nat (unat i))),
              (''params'', params)]"

subsection \<open>Error classes\<close>

datatype error_class = ConfigurationClass | InvalidArgumentClass | TransientClass | PermissionClass | ExecutionClass

definition error_class_str :: "error_class \<Rightarrow> string" where
  "error_class_str c = (case c of ConfigurationClass \<Rightarrow> ''configuration'' | InvalidArgumentClass \<Rightarrow> ''invalid_argument''
       | TransientClass \<Rightarrow> ''transient'' | PermissionClass \<Rightarrow> ''permission'' | ExecutionClass \<Rightarrow> ''execution'')"

definition error_classes :: "error_class list" where
  "error_classes = [ConfigurationClass, InvalidArgumentClass, TransientClass, PermissionClass, ExecutionClass]"

definition class_from_json :: "json \<Rightarrow> error_class option" where
  "class_from_json j =
     (case (case j of JString s \<Rightarrow> Some s | JObject [(s, JNull)] \<Rightarrow> Some s | _ \<Rightarrow> None) of
        Some s \<Rightarrow> find (\<lambda>c. error_class_str c = s) error_classes
      | None \<Rightarrow> None)"

definition class_disposition :: "error_class \<Rightarrow> error_disposition" where
  "class_disposition c = (case c of ConfigurationClass \<Rightarrow> Fatal | InvalidArgumentClass \<Rightarrow> LlmCorrectable
       | TransientClass \<Rightarrow> HostRetriable | PermissionClass \<Rightarrow> Fatal | ExecutionClass \<Rightarrow> InformAndContinue)"

definition error_class_of :: "json_rpc_error \<Rightarrow> error_class" where
  "error_class_of err =
     (case Option.bind (Option.bind (je_data err) (\<lambda>d. json_get d ''error_class'')) class_from_json of
        Some c \<Rightarrow> c | None \<Rightarrow> ExecutionClass)"

definition map_jsonrpc_error :: "tool_name \<Rightarrow> json_rpc_error \<Rightarrow> baml_error" where
  "map_jsonrpc_error tool err =
     (let class = error_class_of err
      in ToolClassified
           \<lparr>cte_code = ''external_'' @ display_tool_name tool @ ''_'' @ error_class_str class,
            cte_disposition = class_disposition class, cte_message = je_message err, cte_hint = None,
            cte_retry_after_ms = Option.bind (Option.bind (je_data err) (\<lambda>d. json_get d ''retry_after_ms'')) as_u64\<rparr>)"

subsection \<open>The cache\<close>

type_synonym sandbox_cache = "sandbox_cache_key \<rightharpoonup> sandbox_handle"

definition cache_evict :: "sandbox_cache_key \<Rightarrow> sandbox_cache \<Rightarrow> sandbox_handle option \<times> sandbox_cache" where
  "cache_evict key cache = (cache key, cache(key := None))"

definition cache_touch :: "nat \<Rightarrow> sandbox_cache_key \<Rightarrow> sandbox_cache \<Rightarrow> sandbox_cache" where
  "cache_touch now key cache = (case cache key of Some h \<Rightarrow> cache(key \<mapsto> handle_touch now h) | None \<Rightarrow> cache)"

text \<open>\<^verbatim>\<open>drain\<close> returns the handles, in the order of the table, and leaves the cache empty.\<close>

definition cache_drain :: "sandbox_cache \<Rightarrow> sandbox_handle set \<times> sandbox_cache" where
  "cache_drain cache = (ran cache, Map.empty)"

definition try_reattach ::
  "('ch, 'w) sandbox_provider \<Rightarrow> sandbox_spec \<Rightarrow> bool \<Rightarrow> 'w \<Rightarrow> sandbox_handle option \<times> 'w" where
  "try_reattach P spec reattach_ok w =
     (if reattach_ok \<and> is_oci (ssp_image spec)
      then (case pv_reattach P (ssp_name spec) w of
              (Inr existing, w1) \<Rightarrow>
                (if validate_reattach (pv_now P w1) existing spec then (Some existing, w1)
                 else (None, snd (pv_teardown P existing w1)))
            | (Inl _, w1) \<Rightarrow> (None, w1))
      else (None, w))"

definition get_or_create ::
  "(sandbox_cache_key \<Rightarrow> string) \<Rightarrow> ('ch, 'w) sandbox_provider \<Rightarrow> (sandbox_cache_key \<Rightarrow> sandbox_spec res)
   \<Rightarrow> sandbox_cache_key \<Rightarrow> bool \<Rightarrow> sandbox_cache \<times> 'w \<Rightarrow> sandbox_handle res \<times> sandbox_cache \<times> 'w" where
  "get_or_create encode P build key reattach_ok = (\<lambda>(cache, w).
     (if (case cache key of Some h \<Rightarrow> \<not> is_expired (pv_now P w) h | None \<Rightarrow> False)
      then (Ok (the (cache key)), cache, w)
      else (case build key of
              Inl e \<Rightarrow> (Err e, cache, w)
            | Inr spec \<Rightarrow>
                (if ssp_name spec \<noteq> encode key
                 then (Err (InvalidArgument (''SandboxSpec.name '' @ CHR 0x27 # ssp_name spec @ CHR 0x27 #
                         '' does not match encoded name '' @ CHR 0x27 # encode key @ [CHR 0x27])), cache, w)
                 else (case try_reattach P spec reattach_ok w of
                         (Some existing, w1) \<Rightarrow> (Ok existing, cache(key \<mapsto> existing), w1)
                       | (None, w1) \<Rightarrow>
                           (case pv_create P spec w1 of
                              (Inl e, w2) \<Rightarrow> (Err e, cache, w2)
                            | (Inr h, w2) \<Rightarrow> (Ok h, cache(key \<mapsto> h), w2)))))))"

subsection \<open>Calls\<close>

text \<open>What becomes of one request on a channel: the send fails, the receive fails, the time is up, or a
  value arrives.\<close>

datatype exchange = SendFailed string | RecvFailed string | TimedOut | Received json

record ('ch, 'w) sandbox_invoker =
  si_provider :: "('ch, 'w) sandbox_provider"
  si_encode :: "sandbox_cache_key \<Rightarrow> string"
  si_build_spec :: "sandbox_cache_key \<Rightarrow> sandbox_spec res"
  si_agent_id :: string
  si_context_id :: string
  si_describe_timeout :: nat
  si_invoke_timeout :: nat
  si_exchange :: "'ch \<Rightarrow> json \<Rightarrow> nat \<Rightarrow> 'w \<Rightarrow> exchange \<times> 'w"
  si_decode_text :: "json \<Rightarrow> string"

record 'w invoker_state =
  is_cache :: sandbox_cache
  is_next_id :: "64 word"
  is_world :: 'w

definition sandbox_invoker_new ::
  "('ch, 'w) sandbox_provider \<Rightarrow> (sandbox_cache_key \<Rightarrow> string) \<Rightarrow> (sandbox_cache_key \<Rightarrow> sandbox_spec res) \<Rightarrow> string \<Rightarrow> string
   \<Rightarrow> ('ch \<Rightarrow> json \<Rightarrow> nat \<Rightarrow> 'w \<Rightarrow> exchange \<times> 'w) \<Rightarrow> (json \<Rightarrow> string) \<Rightarrow> ('ch, 'w) sandbox_invoker" where
  "sandbox_invoker_new P encode build agent context ex de =
     \<lparr>si_provider = P, si_encode = encode, si_build_spec = build, si_agent_id = agent, si_context_id = context,
      si_describe_timeout = duration_from_secs 10, si_invoke_timeout = duration_from_secs 120, si_exchange = ex, si_decode_text = de\<rparr>"

definition invoker_key :: "('ch, 'w) sandbox_invoker \<Rightarrow> tool_name \<Rightarrow> sandbox_cache_key" where
  "invoker_key iv tool = \<lparr>ck_agent_id = si_agent_id iv, ck_context_id = si_context_id iv, ck_tool_name = tool\<rparr>"

definition finish_call :: "('ch, 'w) sandbox_invoker \<Rightarrow> tool_name \<Rightarrow> sandbox_cache_key \<Rightarrow> json \<Rightarrow> 'w invoker_state
   \<Rightarrow> json res \<times> 'w invoker_state" where
  "finish_call iv tool key value st =
     (case response_from_json value of
        None \<Rightarrow> (Err (InvalidArgumentWithSource ''failed to decode JSON-RPC response envelope'' (si_decode_text iv value)), st)
      | Some response \<Rightarrow>
          (case jr_error response of
             Some err \<Rightarrow> (Err (map_jsonrpc_error tool err), st)
           | None \<Rightarrow>
               (ok_or (jr_result response) (InvalidArgument ''JSON-RPC response missing result''),
                st\<lparr>is_cache := cache_touch (pv_now (si_provider iv) (is_world st)) key (is_cache st)\<rparr>)))"

definition json_rpc_call_once ::
  "('ch, 'w) sandbox_invoker \<Rightarrow> tool_name \<Rightarrow> string \<Rightarrow> json \<Rightarrow> nat \<Rightarrow> sandbox_cache_key \<Rightarrow> bool \<Rightarrow> 'w invoker_state
   \<Rightarrow> json res \<times> 'w invoker_state" where
  "json_rpc_call_once iv tool meth params timeout key allow_reattach st =
     (case get_or_create (si_encode iv) (si_provider iv) (si_build_spec iv) key allow_reattach (is_cache st, is_world st) of
        (Inl e, cache, w) \<Rightarrow> (Err e, st\<lparr>is_cache := cache, is_world := w\<rparr>)
      | (Inr h, cache, w) \<Rightarrow>
          (case pv_rpc_channel (si_provider iv) h w of
             (Inl e, w1) \<Rightarrow> (Err e, st\<lparr>is_cache := cache, is_world := w1\<rparr>)
           | (Inr ch, w1) \<Rightarrow>
               (let payload = request_to_json meth (is_next_id st) params
                in (case si_exchange iv ch payload timeout w1 of
                      (r, w2) \<Rightarrow>
                        (let st' = st\<lparr>is_cache := cache, is_next_id := is_next_id st + 1, is_world := w2\<rparr>
                         in (case r of
                               SendFailed e \<Rightarrow>
                                 (Err (InvalidArgumentWithSource (''failed to send TSRPC frame for '' @ meth) e), st')
                             | RecvFailed e \<Rightarrow>
                                 (Err (InvalidArgumentWithSource (''failed to recv TSRPC frame for '' @ meth) e), st')
                             | TimedOut \<Rightarrow>
                                 (Err (InvalidArgument (''sandbox invoke timed out after '' @ debug_duration timeout
                                        @ '' for method '' @ meth)), st')
                             | Received value \<Rightarrow> finish_call iv tool key value st'))))))"

definition is_sandbox_transport_error :: "baml_error \<Rightarrow> bool" where
  "is_sandbox_transport_error err =
     (let msg = display_error err
      in str_contains msg ''exec_stream'' \<or> str_contains msg ''Broken pipe''
         \<or> str_contains msg ''failed to send TSRPC frame'' \<or> str_contains msg ''failed to recv TSRPC frame''
         \<or> str_contains msg ''exec-to-channel adapter failed'' \<or> str_contains msg ''has no live sandbox named'')"

definition evict_stale :: "('ch, 'w) sandbox_invoker \<Rightarrow> sandbox_cache_key \<Rightarrow> 'w invoker_state \<Rightarrow> 'w invoker_state" where
  "evict_stale iv key st =
     (case cache_evict key (is_cache st) of
        (Some stale, cache) \<Rightarrow>
          st\<lparr>is_cache := cache, is_world := snd (pv_teardown (si_provider iv) stale (is_world st))\<rparr>
      | (None, cache) \<Rightarrow> st\<lparr>is_cache := cache\<rparr>)"

definition json_rpc_call ::
  "('ch, 'w) sandbox_invoker \<Rightarrow> tool_name \<Rightarrow> string \<Rightarrow> json \<Rightarrow> nat \<Rightarrow> 'w invoker_state \<Rightarrow> json res \<times> 'w invoker_state" where
  "json_rpc_call iv tool meth params timeout st =
     (let key = invoker_key iv tool
      in (case json_rpc_call_once iv tool meth params timeout key True st of
            (Inr value, st1) \<Rightarrow> (Ok value, st1)
          | (Inl err, st1) \<Rightarrow>
              (if is_sandbox_transport_error err
               then json_rpc_call_once iv tool meth params timeout key False (evict_stale iv key st1)
               else (Err err, st1))))"

subsection \<open>What the cache holds\<close>

definition cache_named :: "(sandbox_cache_key \<Rightarrow> string) \<Rightarrow> sandbox_cache \<Rightarrow> bool" where
  "cache_named encode cache \<longleftrightarrow> (\<forall>key h. cache key = Some h \<longrightarrow> sh_name h = encode key)"

lemma cache_named_upd [simp]:
  "cache_named encode cache \<Longrightarrow> sh_name h = encode key \<Longrightarrow> cache_named encode (cache(key \<mapsto> h))"
  "cache_named encode cache \<Longrightarrow> cache_named encode (cache(key := None))"
  "cache_named encode Map.empty"
  by (auto simp: cache_named_def)

lemma cache_named_touch [simp]: "cache_named encode cache \<Longrightarrow> cache_named encode (cache_touch now key cache)"
  by (auto simp: cache_touch_def cache_named_def handle_touch_def split: option.splits)

lemma cache_named_evict [simp]: "cache_named encode (is_cache st) \<Longrightarrow> cache_named encode (is_cache (evict_stale iv key st))"
  by (simp add: evict_stale_def cache_evict_def split: option.split)

lemma cache_named_finish [simp]:
  "cache_named encode (is_cache st) \<Longrightarrow> cache_named encode (is_cache (snd (finish_call iv tool key value st)))"
  by (simp add: finish_call_def split: option.split)

text \<open>A provider whose handles carry the name they were asked for.\<close>

locale named_provider =
  fixes P :: "('ch, 'w) sandbox_provider"
  assumes create_name: "pv_create P spec w = (Inr h, w') \<Longrightarrow> sh_name h = ssp_name spec"
    and reattach_name: "pv_reattach P n w = (Inr h, w') \<Longrightarrow> sh_name h = n"
begin

lemma try_reattach_name: "try_reattach P spec ok w = (Some h, w') \<Longrightarrow> sh_name h = ssp_name spec"
  by (auto simp: try_reattach_def dest: reattach_name split: if_splits prod.splits sum.splits)

lemma get_or_create_named:
  assumes "cache_named encode cache" and "get_or_create encode P build key ok (cache, w) = (r, cache', w')"
  shows "cache_named encode cache' \<and> (\<forall>h. r = Inr h \<longrightarrow> sh_name h = encode key)"
  using assms
  by (auto simp: get_or_create_def cache_named_def dest: try_reattach_name create_name
      split: if_splits option.splits sum.splits prod.splits)

lemma call_once_named:
  assumes "si_provider iv = P" and "cache_named (si_encode iv) (is_cache st)"
  shows "cache_named (si_encode iv) (is_cache (snd (json_rpc_call_once iv tool meth params timeout key ok st)))"
proof -
  obtain r cache w where g: "get_or_create (si_encode iv) P (si_build_spec iv) key ok (is_cache st, is_world st) = (r, cache, w)"
    by (cases "get_or_create (si_encode iv) P (si_build_spec iv) key ok (is_cache st, is_world st)")
  have "cache_named (si_encode iv) cache" using get_or_create_named [OF assms(2) g] by blast
  then show ?thesis
    by (simp add: json_rpc_call_once_def assms(1) g Let_def split: sum.split prod.split exchange.split)
qed

lemma call_named:
  assumes "si_provider iv = P" and "cache_named (si_encode iv) (is_cache st)"
  shows "cache_named (si_encode iv) (is_cache (snd (json_rpc_call iv tool meth params timeout st)))"
proof -
  let ?once = "json_rpc_call_once iv tool meth params timeout (invoker_key iv tool)"
  have "cache_named (si_encode iv) (is_cache (snd (?once True st)))" by (rule call_once_named [OF assms])
  then show ?thesis
    using call_once_named [OF assms(1)]
    by (cases "?once True st") (auto simp: json_rpc_call_def Let_def split: sum.split)
qed

end

lemma msb_create_name: "msb_create mb spec st = (Inr h, st') \<Longrightarrow> sh_name h = ssp_name spec"
  by (auto simp: msb_create_def split: if_splits prod.splits sum.splits)

lemma msb_reattach_fields:
  "msb_reattach mb n st = (Inr h, st') \<Longrightarrow>
     sh_name h = n \<and> sh_created_at h = ms_now st \<and> sh_last_used_at h = ms_now st \<and> ms_now st' = ms_now st"
  by (auto simp: msb_reattach_def split: prod.splits sum.splits)

interpretation msb: named_provider "microsandbox_provider mb"
  by unfold_locales (auto simp: microsandbox_provider_def dest: msb_create_name msb_reattach_fields)

text \<open>The cache is shared by the callers of every agent and context of the runner; between their calls the
  world may change in any way.\<close>

inductive invoker_step :: "('ch, 'w) sandbox_invoker \<Rightarrow> 'w invoker_state \<Rightarrow> 'w invoker_state \<Rightarrow> bool" for iv where
  step_call:
    "invoker_step iv st (snd (json_rpc_call (iv\<lparr>si_agent_id := agent, si_context_id := ctxt, si_build_spec := build\<rparr>)
       tool meth params timeout st))"
| step_evict: "invoker_step iv st (st\<lparr>is_cache := snd (cache_evict key (is_cache st))\<rparr>)"
| step_touch: "invoker_step iv st (st\<lparr>is_cache := cache_touch now key (is_cache st)\<rparr>)"
| step_drain: "invoker_step iv st (st\<lparr>is_cache := snd (cache_drain (is_cache st))\<rparr>)"
| step_world: "invoker_step iv st (st\<lparr>is_world := w\<rparr>)"

inductive_cases invoker_stepE: "invoker_step iv st st'"

lemma invoker_step_named:
  assumes "invoker_step iv st st'" and "si_provider iv = microsandbox_provider mb"
    and "cache_named (si_encode iv) (is_cache st)"
  shows "cache_named (si_encode iv) (is_cache st')"
  using assms
proof cases
  case (step_call build ctxt agent tool meth params timeout)
  let ?iv = "iv\<lparr>si_agent_id := agent, si_context_id := ctxt, si_build_spec := build\<rparr>"
  show ?thesis using msb.call_named [of ?iv mb st tool meth params timeout] assms(2,3) step_call by simp
qed (use assms(3) in \<open>simp_all add: cache_evict_def cache_drain_def\<close>)

lemma invoker_reachable_named:
  assumes "(invoker_step iv)\<^sup>*\<^sup>* st st'" and "si_provider iv = microsandbox_provider mb" and "is_cache st = Map.empty"
  shows "cache_named (si_encode iv) (is_cache st')"
  using assms(1) by (induction rule: rtranclp_induct) (auto simp: assms(3) intro: invoker_step_named [OF _ assms(2)])


definition demo_encode :: "sandbox_cache_key \<Rightarrow> string" where
  "demo_encode = encode_name (\<lambda>_. ''0123456789abcdef'') ''runner''"

definition demo_build :: "sandbox_cache_key \<Rightarrow> sandbox_spec res" where
  "demo_build key = Ok (build_stock_spec (demo_encode key) (Oci ''img'') ''/'' [] [])"

definition demo_key :: sandbox_cache_key where
  "demo_key = \<lparr>ck_agent_id = ''a'', ck_context_id = ''c'', ck_tool_name = demo_tool\<rparr>"

definition demo_invoker :: "(unit, (sandbox_builder, string \<rightharpoonup> sandbox_builder) msb_state) sandbox_invoker" where
  "demo_invoker = sandbox_invoker_new (microsandbox_provider demo_microsandbox) demo_encode demo_build ''a'' ''c''
     (\<lambda>_ _ _ w. (TimedOut, w)) (\<lambda>_. [])"

definition demo_world :: "(sandbox_builder, string \<rightharpoonup> sandbox_builder) msb_state" where
  "demo_world = \<lparr>ms_live = Map.empty, ms_now = 7, ms_rt = Map.empty\<rparr>"

lemma demo_encode_key: "demo_encode demo_key = ''baml:runner:0123456789''"
  by (simp add: demo_encode_def encode_name_def short_hash_def sanitize_component_def is_ascii_alphanumeric_def
      is_ascii_lowercase_def is_ascii_uppercase_def is_ascii_digit_def Let_def)


subsection \<open>Reuse past the lifetime\<close>

text \<open>a cached sandbox that has outlived its maximal duration is taken up again as long as the runtime can
  start it under its name: the handle made for it counts its age from now, so that the age check of
  the reattach list cannot fail.\<close>

theorem expired_sandbox_reattached:
  assumes "cache key = Some old" and "is_expired (ms_now w) old"
    and "build key = Ok spec" and "ssp_name spec = encode key" and "is_oci (ssp_image spec)"
    and "mb_start mb (ssp_name spec) (ms_rt w) = (Inr sandbox, x)"
    and "mb_printenv mb sandbox x = (Inr (env_text kvs), y)"
    and "shows_stash (create_builder spec) kvs"
    and "as_secs (ssp_max_duration spec) < 2 ^ 64" "as_secs (ssp_idle_timeout spec) < 2 ^ 64"
    and "ssp_guest_workdir spec \<noteq> []" "ssp_policy_hash spec \<noteq> Some []"
    and "second \<le> ssp_max_duration spec" "second \<le> ssp_idle_timeout spec"
  shows "\<exists>h w'. get_or_create encode (microsandbox_provider mb) build key True (cache, w) = (Ok h, cache(key \<mapsto> h), w')
     \<and> sh_name h = encode key \<and> sh_created_at h = ms_now w \<and> \<not> is_expired (ms_now w') h
     \<and> ms_live w' (encode key) = Some sandbox"
proof -
  obtain h w' where h: "msb_reattach mb (ssp_name spec) w = (Ok h, w')" "sh_name h = ssp_name spec"
      "ms_live w' (ssp_name spec) = Some sandbox" "ms_now w' = ms_now w" "sh_created_at h = ms_now w"
      "sh_last_used_at h = ms_now w" "sh_guest_workdir h = ssp_guest_workdir spec"
      "sh_policy_hash h = text_or None Some (guest_env (create_builder spec) STASH_POLICY_HASH)"
      "sh_max_duration h = duration_from_secs (as_secs (ssp_max_duration spec))"
      "sh_idle_timeout h = duration_from_secs (as_secs (ssp_idle_timeout spec))"
    using reattach_handle [OF assms(6-11)] by blast
  have hash: "sh_policy_hash h = Some a" if "ssp_policy_hash spec = Some a" for a
    using that assms(12) by (auto simp: h text_or_def guest_env_stash)
  have "\<not> is_expired (ms_now w') h" using assms(13,14) by (simp add: expired_fresh h duration_from_secs_zero)
  moreover from this have "validate_reattach (ms_now w') h spec"
    using hash by (auto simp: validate_reattach_def h(7) split: option.splits)
  ultimately show ?thesis
    using assms(1-5) h(1-5)
    by (auto simp: get_or_create_def try_reattach_def microsandbox_provider_def)
qed

text \<open>A sandbox created at time 7 for the stock specification, asked for again two hours later.\<close>

definition late_world :: "(sandbox_builder, string \<rightharpoonup> sandbox_builder) msb_state" where
  "late_world = demo_msb_state\<lparr>ms_now := 7 + 7200 * second\<rparr>"

theorem expired_sandbox_reattached_witness:
  "\<exists>old h w'. fst (msb_create demo_microsandbox demo_spec demo_world) = Ok old
     \<and> is_expired (ms_now late_world) old
     \<and> get_or_create (\<lambda>_. ''baml:r:1'') (microsandbox_provider demo_microsandbox) (\<lambda>_. Ok demo_spec) demo_key True
         (Map.empty(demo_key \<mapsto> old), late_world) = (Ok h, Map.empty(demo_key \<mapsto> h), w')
     \<and> \<not> is_expired (ms_now w') h"
proof -
  let ?old = "\<lparr>sh_name = ''baml:r:1'', sh_created_at = 7, sh_last_used_at = 7, sh_guest_workdir = ''/w'',
    sh_policy_hash = None, sh_idle_timeout = 300 * second, sh_max_duration = 3600 * second\<rparr>"
  have n: "ssp_name demo_spec = ''baml:r:1''" by (simp add: demo_spec_def build_stock_spec_def)
  have created: "fst (msb_create demo_microsandbox demo_spec demo_world) = Ok ?old"
    by (simp add: demo_sandbox_simps demo_world_def duration_from_secs_def DEFAULT_IDLE_TIMEOUT_SECS_def DEFAULT_MAX_DURATION_SECS_def)
  have expired: "is_expired (ms_now late_world) ?old" by (simp add: is_expired_iff late_world_def)
  have "\<exists>h w'. get_or_create (\<lambda>_. ''baml:r:1'') (microsandbox_provider demo_microsandbox) (\<lambda>_. Ok demo_spec) demo_key True
      (Map.empty(demo_key \<mapsto> ?old), late_world) = (Ok h, Map.empty(demo_key \<mapsto> ?old, demo_key \<mapsto> h), w')
      \<and> sh_name h = ''baml:r:1'' \<and> sh_created_at h = ms_now late_world \<and> \<not> is_expired (ms_now w') h
      \<and> ms_live w' ''baml:r:1'' = Some (create_builder demo_spec)"
    by (rule expired_sandbox_reattached [where spec = demo_spec and kvs = "create_env demo_spec"
          and x = "ms_rt demo_msb_state" and y = "ms_rt demo_msb_state" and old = ?old])
      (use expired n demo_stash in \<open>simp_all add: late_world_def demo_sandbox_simps is_oci_def as_secs_def duration_from_secs_def
         DEFAULT_IDLE_TIMEOUT_SECS_def DEFAULT_MAX_DURATION_SECS_def\<close>)
  then show ?thesis using created expired by auto
qed

subsection \<open>Second attempts\<close>

definition transport_texts :: "string list" where
  "transport_texts = [''exec_stream'', ''Broken pipe'', ''failed to send TSRPC frame'', ''failed to recv TSRPC frame'',
     ''exec-to-channel adapter failed'', ''has no live sandbox named'']"

lemma transport_error_texts:
  "is_sandbox_transport_error err \<longleftrightarrow> list_ex (str_contains (display_error err)) transport_texts"
  by (simp add: is_sandbox_transport_error_def transport_texts_def Let_def)

lemma once_replied:
  assumes "get_or_create (si_encode iv) (si_provider iv) (si_build_spec iv) key ok (is_cache st, is_world st) = (Inr h, cache, w)"
    and "pv_rpc_channel (si_provider iv) h w = (Inr ch, wb)"
    and "si_exchange iv ch (request_to_json meth (is_next_id st) params) timeout wb = (Received reply, wc)"
    and "response_from_json reply = Some response" and "jr_error response = Some err"
  shows "json_rpc_call_once iv tool meth params timeout key ok st =
     (Err (map_jsonrpc_error tool err), st\<lparr>is_cache := cache, is_next_id := is_next_id st + 1, is_world := wc\<rparr>)"
  using assms by (simp add: json_rpc_call_once_def finish_call_def Let_def)

text \<open>C35: an error that the tool itself reports, after it has run, ends the call only when its message has none
  of the phrases that stand for a broken transport; a message with one of them has the sandbox torn
  down and the tool run a second time.\<close>

theorem tool_error_text_decides_rerun:
  assumes "get_or_create (si_encode iv) (si_provider iv) (si_build_spec iv) (invoker_key iv tool) True
             (is_cache st, is_world st) = (Ok h, cache, w)"
    and "pv_rpc_channel (si_provider iv) h w = (Ok ch, wb)"
    and "si_exchange iv ch (request_to_json meth (is_next_id st) params) timeout wb = (Received reply, wc)"
    and "response_from_json reply = Some response" and "jr_error response = Some err"
    and "sta = st\<lparr>is_cache := cache, is_next_id := is_next_id st + 1, is_world := wc\<rparr>"
  shows "json_rpc_call iv tool meth params timeout st =
     (if list_ex (str_contains (je_message err)) transport_texts
      then json_rpc_call_once iv tool meth params timeout (invoker_key iv tool) False (evict_stale iv (invoker_key iv tool) sta)
      else (Err (map_jsonrpc_error tool err), sta))"
  using assms(6)
  by (simp add: json_rpc_call_def once_replied [OF assms(1-5)] transport_error_texts map_jsonrpc_error_def Let_def)

text \<open>A tool that counts its runs and fails with the text of the operating system for a closed pipe.\<close>

definition count_provider :: "(unit, nat) sandbox_provider" where
  "count_provider =
     \<lparr>pv_create = (\<lambda>spec n. (Ok (sandbox_handle_new 0 (ssp_name spec) 10), n)), pv_rpc_channel = (\<lambda>_ n. (Ok (), n)),
      pv_teardown = (\<lambda>_ n. (Ok (), n)), pv_reattach = (\<lambda>_ n. (Err (InvalidArgument []), n)), pv_now = (\<lambda>_. 0)\<rparr>"

definition broken_pipe_reply :: json where
  "broken_pipe_reply = JObject [(''jsonrpc'', JString ''2.0''), (''id'', JNumber ''1''),
     (''error'', JObject [(''code'', JNumber ''-32000''), (''message'', JString ''upstream: Broken pipe'')])]"

definition count_invoker :: "(unit, nat) sandbox_invoker" where
  "count_invoker = sandbox_invoker_new count_provider (\<lambda>_. ''n'') (\<lambda>_. Ok (build_stock_spec ''n'' (Oci ''i'') ''/'' [] []))
     ''a'' ''c'' (\<lambda>_ _ _ n. (Received broken_pipe_reply, n + 1)) (\<lambda>_. [])"

lemmas count_simps =
  count_invoker_def sandbox_invoker_new_def count_provider_def get_or_create_def try_reattach_def is_oci_def
  build_stock_spec_def sandbox_handle_new_def is_expired_iff

lemma broken_pipe_response:
  "response_from_json broken_pipe_reply = Some \<lparr>jr_jsonrpc = ''2.0'', jr_id = 1, jr_result = None,
     jr_error = Some \<lparr>je_code = -32000, je_message = ''upstream: Broken pipe'', je_data = None\<rparr>\<rparr>"
  by (simp add: response_from_json_def broken_pipe_reply_def struct_shape_def json_field_def obj_get_def as_str_def
      as_u64_def as_i32_def digits_value_def is_ascii_digit_def error_from_json_def non_null_def)

theorem tool_error_text_decides_rerun_witness:
  "\<exists>st'. json_rpc_call count_invoker demo_tool ''tool/invoke'' JNull 5
       \<lparr>is_cache = Map.empty, is_next_id = 1, is_world = 0\<rparr>
     = (Err (map_jsonrpc_error demo_tool \<lparr>je_code = -32000, je_message = ''upstream: Broken pipe'', je_data = None\<rparr>), st')
     \<and> is_world st' = 2"
proof -
  let ?st = "\<lparr>is_cache = Map.empty, is_next_id = 1, is_world = 0 :: nat\<rparr>"
  let ?h = "sandbox_handle_new 0 ''n'' 10"
  let ?key = "invoker_key count_invoker demo_tool"
  let ?err = "\<lparr>je_code = -32000, je_message = ''upstream: Broken pipe'', je_data = None\<rparr>"
  let ?response = "\<lparr>jr_jsonrpc = ''2.0'', jr_id = 1, jr_result = None, jr_error = Some ?err\<rparr>"
  let ?st1 = "?st\<lparr>is_cache := Map.empty(?key \<mapsto> ?h), is_next_id := 2, is_world := 1\<rparr>"
  have pipe: "str_contains ''upstream: Broken pipe'' ''Broken pipe''" by (simp add: str_contains_def)
  have "json_rpc_call count_invoker demo_tool ''tool/invoke'' JNull 5 ?st
      = (if list_ex (str_contains (je_message ?err)) transport_texts
         then json_rpc_call_once count_invoker demo_tool ''tool/invoke'' JNull 5 ?key False
                (evict_stale count_invoker ?key ?st1)
         else (Err (map_jsonrpc_error demo_tool ?err), ?st1))"
    by (rule tool_error_text_decides_rerun [where h = ?h and cache = "Map.empty(?key \<mapsto> ?h)" and w = 0 and wb = 0
          and wc = 1 and reply = broken_pipe_reply and ch = "()" and response = ?response and err = ?err])
      (simp_all add: count_simps broken_pipe_response)
  moreover have "json_rpc_call_once count_invoker demo_tool ''tool/invoke'' JNull 5 ?key False
      (evict_stale count_invoker ?key ?st1)
    = (Err (map_jsonrpc_error demo_tool ?err),
       ?st\<lparr>is_cache := Map.empty(?key \<mapsto> ?h), is_next_id := 3, is_world := 2\<rparr>)"
    by (subst once_replied [where h = ?h and cache = "Map.empty(?key \<mapsto> ?h)" and w = 1 and wb = 1 and wc = 2
          and reply = broken_pipe_reply and ch = "()" and response = ?response and err = ?err])
      (simp_all add: count_simps broken_pipe_response evict_stale_def cache_evict_def)
  ultimately show ?thesis using pipe by (simp add: transport_texts_def)
qed

end
