(* ===== verification/Session_Pool.thy ===== *)
theory Session_Pool
  imports Sandbox_Provider "HOL-Library.Multiset"
begin

text \<open>
  The pool of sandboxes for session tools (\<^verbatim>\<open>external_tools/sandbox/session_pool.rs\<close>).  Each section that
  holds the pool's lock is one step of the task that runs it, as is each call to the provider; a
  task may be dropped wherever it waits.  Session ids and waiters are numbers drawn from a
  counter, the provider is the set of names it has a sandbox for.  The theorems bound the
  sessions of a key, show that no slot or sandbox is lost, and that the assertions of the code hold.
\<close>

subsection \<open>Entries\<close>

definition DEFAULT_POOL_MAX :: nat where
  "DEFAULT_POOL_MAX = 1"

definition DEFAULT_POOL_CHECKOUT_TIMEOUT :: nat where
  "DEFAULT_POOL_CHECKOUT_TIMEOUT = 2000 * 1000000"

record session_pool_config =
  spc_default_pool_max :: nat
  spc_pool_checkout_timeout :: nat

definition session_pool_config_default :: session_pool_config where
  "session_pool_config_default =
     \<lparr>spc_default_pool_max = DEFAULT_POOL_MAX, spc_pool_checkout_timeout = DEFAULT_POOL_CHECKOUT_TIMEOUT\<rparr>"

datatype pool_error = Exhausted tool_name nat nat | Provider baml_error

definition into_baml_error :: "pool_error \<Rightarrow> baml_error" where
  "into_baml_error e =
     (case e of
        Exhausted tool cap waited \<Rightarrow>
          ToolClassified
            \<lparr>cte_code = ''pool_exhausted'', cte_disposition = HostRetriable,
             cte_message = ''session pool for '' @ CHR 0x27 # display_tool_name tool @ CHR 0x27 #
               '' is at capacity '' @ show_nat cap @ '' (waited '' @ debug_duration waited @ '')'',
             cte_hint = Some ''retry after another session finishes or raise pool_max in tool metadata'',
             cte_retry_after_ms = Some 50\<rparr>
      | Provider err \<Rightarrow> err)"

datatype entry_state = Idle | Live nat | Reserving nat | Draining

record pool_entry =
  en_handle :: "sandbox_handle option"
  en_state :: entry_state
  en_last_idle_at :: nat

record key_pool =
  kp_entries :: "pool_entry list"
  kp_waiters :: "nat list"

definition key_pool_default :: key_pool where
  "key_pool_default = \<lparr>kp_entries = [], kp_waiters = []\<rparr>"

text \<open>\<^verbatim>\<open>Iterator::position\<close> and \<^verbatim>\<open>Vec::swap_remove\<close>.\<close>

fun position :: "('a \<Rightarrow> bool) \<Rightarrow> 'a list \<Rightarrow> nat option" where
  "position P [] = None"
| "position P (x # xs) = (if P x then Some 0 else map_option Suc (position P xs))"

definition vec_swap_remove :: "nat \<Rightarrow> 'a list \<Rightarrow> 'a list" where
  "vec_swap_remove i xs = (if Suc i = length xs then butlast xs else (butlast xs)[i := last xs])"

definition idle_index :: "key_pool \<Rightarrow> nat option" where
  "idle_index p = position (\<lambda>e. en_state e = Idle) (kp_entries p)"

definition count_active :: "key_pool \<Rightarrow> nat" where
  "count_active p = length (kp_entries p)"

text \<open>The waiter at the front of the queue, if any, is given its permit.\<close>

definition notify_one_waiter :: "key_pool \<Rightarrow> nat option \<times> key_pool" where
  "notify_one_waiter p =
     (case kp_waiters p of [] \<Rightarrow> (None, p) | w # ws \<Rightarrow> (Some w, p\<lparr>kp_waiters := ws\<rparr>))"

subsection \<open>The sections under the lock\<close>

definition expired_idle :: "nat \<Rightarrow> pool_entry \<Rightarrow> bool" where
  "expired_idle now e \<longleftrightarrow>
     en_state e = Idle \<and> (case en_handle e of Some h \<Rightarrow> is_expired now h | None \<Rightarrow> True)"

lemma length_vec_swap_remove: "i < length xs \<Longrightarrow> length (vec_swap_remove i xs) = length xs - 1"
  by (simp add: vec_swap_remove_def)

function remove_expired :: "nat \<Rightarrow> nat \<Rightarrow> pool_entry list \<Rightarrow> sandbox_handle list \<Rightarrow> pool_entry list \<times> sandbox_handle list" where
  "remove_expired now idx es expired =
     (if idx < length es
      then (if expired_idle now (es ! idx)
            then remove_expired now idx (vec_swap_remove idx es)
                   (case en_handle (es ! idx) of Some h \<Rightarrow> expired @ [h] | None \<Rightarrow> expired)
            else remove_expired now (idx + 1) es expired)
      else (es, expired))"
  by pat_completeness auto

termination
  by (relation "measure (\<lambda>(now, idx, es, expired). length es - idx)") (auto simp: length_vec_swap_remove)

declare remove_expired.simps [simp del]

datatype checkout_outcome = Expired "sandbox_handle list" | Reuse sandbox_handle | ReusePanic | Reserve | Park

text \<open>One turn of the loop of \<^verbatim>\<open>checkout\<close>; \<^term>\<open>fresh\<close> is the id of the session, the reservation or the
  waiter it makes.\<close>

definition checkout_section :: "nat \<Rightarrow> nat \<Rightarrow> nat \<Rightarrow> key_pool \<Rightarrow> checkout_outcome \<times> nat option \<times> key_pool" where
  "checkout_section now cap fresh pool =
     (case remove_expired now 0 (kp_entries pool) [] of
        (es, expired) \<Rightarrow>
          (let p = pool\<lparr>kp_entries := es\<rparr>
           in if expired \<noteq> [] then (case notify_one_waiter p of (w, p') \<Rightarrow> (Expired expired, w, p'))
              else (case idle_index p of
                      Some i \<Rightarrow>
                        (let e = (es ! i)\<lparr>en_state := Live fresh\<rparr>; p' = p\<lparr>kp_entries := es[i := e]\<rparr>
                         in (case en_handle e of Some h \<Rightarrow> (Reuse h, None, p') | None \<Rightarrow> (ReusePanic, None, p')))
                    | None \<Rightarrow>
                        (if count_active p < cap
                         then (Reserve, None,
                               p\<lparr>kp_entries := es @ [\<lparr>en_handle = None, en_state = Reserving fresh, en_last_idle_at = now\<rparr>]\<rparr>)
                         else (Park, None, p\<lparr>kp_waiters := kp_waiters p @ [fresh]\<rparr>)))))"

text \<open>The second half of \<^verbatim>\<open>cold_create\<close>: the reservation becomes a live entry.\<close>

definition promote :: "nat \<Rightarrow> tool_name \<Rightarrow> nat \<Rightarrow> nat \<Rightarrow> sandbox_handle \<Rightarrow> key_pool option \<Rightarrow> key_pool res" where
  "promote now tool rid session h pool =
     (case pool of
        None \<Rightarrow> Err (ToolExecution (''session pool: key '' @ CHR 0x27 # display_tool_name tool @ CHR 0x27 #
                       '' missing while completing reservation''))
      | Some p \<Rightarrow>
          (case position (\<lambda>e. en_state e = Reserving rid) (kp_entries p) of
             None \<Rightarrow> Err (ToolExecution (''session pool: reservation lost for tool '' @ CHR 0x27 # display_tool_name tool @ [CHR 0x27]))
           | Some i \<Rightarrow>
               Ok (p\<lparr>kp_entries := (kp_entries p)[i := (kp_entries p ! i)
                       \<lparr>en_state := Live session, en_handle := Some h, en_last_idle_at := now\<rparr>]\<rparr>)))"

definition drop_reservation_section :: "nat \<Rightarrow> key_pool option \<Rightarrow> nat option \<times> key_pool option" where
  "drop_reservation_section rid pool =
     (case pool of
        None \<Rightarrow> (None, None)
      | Some p \<Rightarrow>
          (case notify_one_waiter (p\<lparr>kp_entries := filter (\<lambda>e. en_state e \<noteq> Reserving rid) (kp_entries p)\<rparr>) of
             (w, p') \<Rightarrow> (w, Some p')))"

definition cancel_waiter :: "nat \<Rightarrow> key_pool option \<Rightarrow> key_pool option" where
  "cancel_waiter w pool = map_option (\<lambda>p. p\<lparr>kp_waiters := filter (\<lambda>v. v \<noteq> w) (kp_waiters p)\<rparr>) pool"

datatype release = ReturnIdle | Destroy

datatype release_outcome = NotFound | Returned | Destroyed sandbox_handle | DestroyPanic

definition release_section ::
  "nat \<Rightarrow> nat \<Rightarrow> release \<Rightarrow> key_pool option \<Rightarrow> release_outcome \<times> nat option \<times> key_pool option" where
  "release_section now session disposition pool =
     (case pool of
        None \<Rightarrow> (NotFound, None, None)
      | Some p \<Rightarrow>
          (case position (\<lambda>e. en_state e = Live session) (kp_entries p) of
             None \<Rightarrow> (NotFound, None, Some p)
           | Some i \<Rightarrow>
               (case disposition of
                  ReturnIdle \<Rightarrow>
                    (let e = (kp_entries p ! i)\<lparr>en_state := Idle, en_last_idle_at := now,
                               en_handle := map_option (handle_touch now) (en_handle (kp_entries p ! i))\<rparr>
                     in (case notify_one_waiter (p\<lparr>kp_entries := (kp_entries p)[i := e]\<rparr>) of
                           (w, p') \<Rightarrow> (Returned, w, Some p')))
                | Destroy \<Rightarrow>
                    (case notify_one_waiter (p\<lparr>kp_entries := vec_swap_remove i (kp_entries p)\<rparr>) of
                       (w, p') \<Rightarrow>
                         (case en_handle (kp_entries p ! i) of
                            Some h \<Rightarrow> (Destroyed h, w, Some p')
                          | None \<Rightarrow> (DestroyPanic, w, Some p'))))))"

subsection \<open>Tasks\<close>

text \<open>Where a task stands: in a turn of the checkout loop, tearing down what it found expired, waiting, giving up,
  booting, holding its sandbox, releasing it, cleaning up after a reservation, tearing down.\<close>

datatype pool_task =
    Entering sandbox_cache_key
  | Reaping sandbox_cache_key "sandbox_handle list"
  | Parked sandbox_cache_key nat
  | Cancelling sandbox_cache_key nat nat
  | Booting sandbox_cache_key nat
  | Booted sandbox_cache_key nat sandbox_handle
  | Holding sandbox_cache_key sandbox_handle nat
  | Releasing sandbox_cache_key nat release
  | Cleaning sandbox_cache_key nat "sandbox_handle option"
  | Tearing sandbox_handle
  | Panicked

record session_pool =
  sp_config :: session_pool_config
  sp_build_spec :: "sandbox_cache_key \<Rightarrow> sandbox_spec res"

record pool_system =
  ps_pools :: "sandbox_cache_key \<rightharpoonup> key_pool"
  ps_tasks :: "nat \<rightharpoonup> pool_task"
  ps_errors :: "nat \<rightharpoonup> baml_error"
  ps_fired :: "nat set"
  ps_running :: "string set"
  ps_next :: nat

definition pool_new :: pool_system where
  "pool_new = \<lparr>ps_pools = Map.empty, ps_tasks = Map.empty, ps_errors = Map.empty, ps_fired = {}, ps_running = {}, ps_next = 0\<rparr>"

definition pool_cap :: "session_pool \<Rightarrow> nat" where
  "pool_cap sp = max (spc_default_pool_max (sp_config sp)) 1"

definition or_default :: "key_pool option \<Rightarrow> key_pool" where
  "or_default p = (case p of Some q \<Rightarrow> q | None \<Rightarrow> key_pool_default)"

definition fire :: "nat option \<Rightarrow> nat set \<Rightarrow> nat set" where
  "fire w ws = (case w of Some v \<Rightarrow> insert v ws | None \<Rightarrow> ws)"

text \<open>A teardown that succeeds leaves no sandbox of the name.\<close>

definition tear_down :: "bool \<Rightarrow> sandbox_handle \<Rightarrow> string set \<Rightarrow> string set" where
  "tear_down ok h names = (if ok then names - {sh_name h} else names)"

definition created_handle :: "nat \<Rightarrow> sandbox_spec \<Rightarrow> sandbox_handle" where
  "created_handle now spec =
     \<lparr>sh_name = ssp_name spec, sh_created_at = now, sh_last_used_at = now, sh_guest_workdir = ssp_guest_workdir spec,
      sh_policy_hash = ssp_policy_hash spec, sh_idle_timeout = ssp_idle_timeout spec,
      sh_max_duration = ssp_max_duration spec\<rparr>"

definition set_task :: "nat \<Rightarrow> pool_task option \<Rightarrow> pool_system \<Rightarrow> pool_system" where
  "set_task t T s = s\<lparr>ps_tasks := (ps_tasks s)(t := T)\<rparr>"

definition checkout_start :: "nat \<Rightarrow> sandbox_cache_key \<Rightarrow> pool_system \<Rightarrow> pool_system option" where
  "checkout_start t key s = (if ps_tasks s t = None then Some (set_task t (Some (Entering key)) s) else None)"

definition checkout_turn :: "session_pool \<Rightarrow> nat \<Rightarrow> nat \<Rightarrow> sandbox_cache_key \<Rightarrow> pool_system \<Rightarrow> pool_system" where
  "checkout_turn sp now t key s =
     (case checkout_section now (pool_cap sp) (ps_next s) (or_default (ps_pools s key)) of
        (outcome, w, p) \<Rightarrow>
          set_task t (Some (case outcome of
                              Expired hs \<Rightarrow> Reaping key hs
                            | Reuse h \<Rightarrow> Holding key h (ps_next s)
                            | ReusePanic \<Rightarrow> Panicked
                            | Reserve \<Rightarrow> Booting key (ps_next s)
                            | Park \<Rightarrow> Parked key (ps_next s)))
            (s\<lparr>ps_pools := (ps_pools s)(key \<mapsto> p), ps_fired := fire w (ps_fired s), ps_next := ps_next s + 1\<rparr>))"

definition cancel_turn :: "session_pool \<Rightarrow> nat \<Rightarrow> sandbox_cache_key \<Rightarrow> nat \<Rightarrow> nat \<Rightarrow> pool_system \<Rightarrow> pool_system" where
  "cancel_turn sp t key w waited s =
     set_task t None
       (s\<lparr>ps_pools := (ps_pools s)(key := cancel_waiter w (ps_pools s key)),
          ps_errors := (ps_errors s)(t \<mapsto> into_baml_error (Exhausted (ck_tool_name key) (pool_cap sp) waited))\<rparr>)"

definition promote_turn :: "nat \<Rightarrow> nat \<Rightarrow> sandbox_cache_key \<Rightarrow> nat \<Rightarrow> sandbox_handle \<Rightarrow> pool_system \<Rightarrow> pool_system" where
  "promote_turn now t key rid h s =
     (case promote now (ck_tool_name key) rid (ps_next s) h (ps_pools s key) of
        Inl e \<Rightarrow> set_task t (Some (Cleaning key rid (Some h)))
                   (s\<lparr>ps_errors := (ps_errors s)(t \<mapsto> e), ps_next := ps_next s + 1\<rparr>)
      | Inr p \<Rightarrow> set_task t (Some (Holding key h (ps_next s)))
                   (s\<lparr>ps_pools := (ps_pools s)(key \<mapsto> p), ps_next := ps_next s + 1\<rparr>))"

definition clean_turn :: "nat \<Rightarrow> sandbox_cache_key \<Rightarrow> nat \<Rightarrow> sandbox_handle option \<Rightarrow> pool_system \<Rightarrow> pool_system" where
  "clean_turn t key rid h s =
     (case drop_reservation_section rid (ps_pools s key) of
        (w, p) \<Rightarrow> set_task t (map_option Tearing h)
                    (s\<lparr>ps_pools := (ps_pools s)(key := p), ps_fired := fire w (ps_fired s)\<rparr>))"

definition release_turn :: "nat \<Rightarrow> nat \<Rightarrow> sandbox_cache_key \<Rightarrow> nat \<Rightarrow> release \<Rightarrow> pool_system \<Rightarrow> pool_system" where
  "release_turn now t key session disposition s =
     (case release_section now session disposition (ps_pools s key) of
        (outcome, w, p) \<Rightarrow>
          set_task t (case outcome of
                        NotFound \<Rightarrow> None
                      | Returned \<Rightarrow> None
                      | Destroyed h \<Rightarrow> Some (Tearing h)
                      | DestroyPanic \<Rightarrow> Some Panicked)
            (s\<lparr>ps_pools := (ps_pools s)(key := p), ps_fired := fire w (ps_fired s)\<rparr>))"

text \<open>The task takes the lock, runs its section and lets go of it.\<close>

definition lock_turn :: "session_pool \<Rightarrow> nat \<Rightarrow> nat \<Rightarrow> pool_system \<Rightarrow> pool_system option" where
  "lock_turn sp now t s =
     (case ps_tasks s t of
        Some (Entering key) \<Rightarrow> Some (checkout_turn sp now t key s)
      | Some (Cancelling key w waited) \<Rightarrow> Some (cancel_turn sp t key w waited s)
      | Some (Booted key rid h) \<Rightarrow> Some (promote_turn now t key rid h s)
      | Some (Cleaning key rid h) \<Rightarrow> Some (clean_turn t key rid h s)
      | Some (Releasing key session d) \<Rightarrow> Some (release_turn now t key session d s)
      | _ \<Rightarrow> None)"

text \<open>The next teardown of a task; the loop over the expired handles goes back to the top when it is through.\<close>

definition teardown_turn :: "nat \<Rightarrow> bool \<Rightarrow> pool_system \<Rightarrow> pool_system option" where
  "teardown_turn t ok s =
     (case ps_tasks s t of
        Some (Reaping key []) \<Rightarrow> Some (set_task t (Some (Entering key)) s)
      | Some (Reaping key (h # hs)) \<Rightarrow>
          Some (set_task t (Some (Reaping key hs)) (s\<lparr>ps_running := tear_down ok h (ps_running s)\<rparr>))
      | Some (Tearing h) \<Rightarrow> Some (set_task t None (s\<lparr>ps_running := tear_down ok h (ps_running s)\<rparr>))
      | _ \<Rightarrow> None)"

definition wake_turn :: "nat \<Rightarrow> pool_system \<Rightarrow> pool_system option" where
  "wake_turn t s =
     (case ps_tasks s t of
        Some (Parked key w) \<Rightarrow>
          (if w \<in> ps_fired s then Some (set_task t (Some (Entering key)) (s\<lparr>ps_fired := ps_fired s - {w}\<rparr>)) else None)
      | _ \<Rightarrow> None)"

text \<open>The time is up when the elapsed time has reached the timeout, before or while waiting.\<close>

definition expire_turn :: "session_pool \<Rightarrow> nat \<Rightarrow> nat \<Rightarrow> pool_system \<Rightarrow> pool_system option" where
  "expire_turn sp waited t s =
     (case ps_tasks s t of
        Some (Parked key w) \<Rightarrow>
          (if spc_pool_checkout_timeout (sp_config sp) \<le> waited
           then Some (set_task t (Some (Cancelling key w waited)) s) else None)
      | _ \<Rightarrow> None)"

text \<open>The first half of \<^verbatim>\<open>cold_create\<close>; on an error the guard of the reservation starts its clean-up.\<close>

definition boot_turn :: "session_pool \<Rightarrow> nat \<Rightarrow> unit res \<Rightarrow> nat \<Rightarrow> pool_system \<Rightarrow> pool_system option" where
  "boot_turn sp now created t s =
     (case ps_tasks s t of
        Some (Booting key rid) \<Rightarrow>
          (case (case sp_build_spec sp key of Inl e \<Rightarrow> Inl e | Inr spec \<Rightarrow> (case created of Inl e \<Rightarrow> Inl e | Inr _ \<Rightarrow> Inr spec)) of
             Inl e \<Rightarrow> Some (set_task t (Some (Cleaning key rid None)) (s\<lparr>ps_errors := (ps_errors s)(t \<mapsto> e)\<rparr>))
           | Inr spec \<Rightarrow>
               Some (set_task t (Some (Booted key rid (created_handle now spec)))
                       (s\<lparr>ps_running := insert (ssp_name spec) (ps_running s)\<rparr>)))
      | _ \<Rightarrow> None)"

definition finish_turn :: "release \<Rightarrow> nat \<Rightarrow> pool_system \<Rightarrow> pool_system option" where
  "finish_turn d t s =
     (case ps_tasks s t of
        Some (Holding key h session) \<Rightarrow> Some (set_task t (Some (Releasing key session d)) s)
      | _ \<Rightarrow> None)"

text \<open>A future that is dropped: the guard of a reservation and the borrow handle leave a spawned task behind,
  when there is a runtime to spawn it on; every other future is just gone.\<close>

definition drop_turn :: "bool \<Rightarrow> nat \<Rightarrow> pool_system \<Rightarrow> pool_system option" where
  "drop_turn in_runtime t s =
     (case ps_tasks s t of
        None \<Rightarrow> None
      | Some (Booting key rid) \<Rightarrow> Some (set_task t (if in_runtime then Some (Cleaning key rid None) else None) s)
      | Some (Booted key rid h) \<Rightarrow> Some (set_task t (if in_runtime then Some (Cleaning key rid (Some h)) else None) s)
      | Some (Holding key h session) \<Rightarrow> Some (set_task t (if in_runtime then Some (Releasing key session Destroy) else None) s)
      | Some (Cleaning _ _ _) \<Rightarrow> None
      | Some _ \<Rightarrow> Some (set_task t None s))"

datatype pool_op =
    StartCheckout nat sandbox_cache_key
  | TakeLock nat nat
  | CallTeardown nat bool
  | WakeUp nat
  | TimeOut nat nat
  | CallCreate nat nat "unit res"
  | Release nat release
  | DropFuture nat bool

fun pool_step :: "session_pool \<Rightarrow> pool_op \<Rightarrow> pool_system \<Rightarrow> pool_system option" where
  "pool_step sp (StartCheckout t key) s = checkout_start t key s"
| "pool_step sp (TakeLock t now) s = lock_turn sp now t s"
| "pool_step sp (CallTeardown t ok) s = teardown_turn t ok s"
| "pool_step sp (WakeUp t) s = wake_turn t s"
| "pool_step sp (TimeOut t waited) s = expire_turn sp waited t s"
| "pool_step sp (CallCreate t now created) s = boot_turn sp now created t s"
| "pool_step sp (Release t d) s = finish_turn d t s"
| "pool_step sp (DropFuture t in_runtime) s = drop_turn in_runtime t s"

fun pool_run :: "session_pool \<Rightarrow> pool_op list \<Rightarrow> pool_system \<Rightarrow> pool_system option" where
  "pool_run sp [] s = Some s"
| "pool_run sp (c # cs) s = Option.bind (pool_step sp c s) (pool_run sp cs)"

text \<open>The states reached by operations that a predicate admits.\<close>

inductive pool_reach :: "session_pool \<Rightarrow> (pool_op \<Rightarrow> pool_system \<Rightarrow> bool) \<Rightarrow> pool_system \<Rightarrow> bool" for sp admits where
  reach_new: "pool_reach sp admits pool_new"
| reach_step: "pool_reach sp admits s \<Longrightarrow> admits c s \<Longrightarrow> pool_step sp c s = Some s' \<Longrightarrow> pool_reach sp admits s'"

subsection \<open>Vectors\<close>

lemma position_Some: "position P xs = Some i \<Longrightarrow> i < length xs \<and> P (xs ! i)"
  by (induction xs arbitrary: i) (auto split: if_splits)

lemma position_None: "position P xs = None \<longleftrightarrow> (\<forall>x \<in> set xs. \<not> P x)"
  by (induction xs) auto

lemma mset_vec_swap_remove:
  assumes "i < length xs"
  shows "mset (vec_swap_remove i xs) = mset xs - {#xs ! i#}"
proof -
  obtain ys y where xs: "xs = ys @ [y]" using assms by (metis length_0_conv less_nat_zero_code rev_exhaust)
  show ?thesis
  proof (cases "i = length ys")
    case True
    then show ?thesis by (simp add: vec_swap_remove_def xs)
  next
    case False
    then have "i < length ys" using assms xs by simp
    then show ?thesis by (simp add: vec_swap_remove_def xs nth_append mset_update)
  qed
qed

lemma set_vec_swap_remove: "i < length xs \<Longrightarrow> set (vec_swap_remove i xs) \<subseteq> set xs"
  using mset_vec_swap_remove [of i xs] by (metis in_diffD set_mset_mset subsetI)

lemma keeps_vec_swap_remove: "i < length xs \<Longrightarrow> x \<in> set xs \<Longrightarrow> x \<noteq> xs ! i \<Longrightarrow> x \<in> set (vec_swap_remove i xs)"
proof -
  assume *: "i < length xs" "x \<in> set xs" "x \<noteq> xs ! i"
  then have "x \<in># mset xs - {#xs ! i#}" by (simp add: in_diff_count)
  then show ?thesis by (metis *(1) mset_vec_swap_remove set_mset_mset)
qed

lemma nth_vec_swap_remove: "i < length xs \<Longrightarrow> j < i \<Longrightarrow> vec_swap_remove i xs ! j = xs ! j"
  by (auto simp: vec_swap_remove_def nth_butlast)

lemma keeps_update: "x \<in> set xs \<Longrightarrow> i < length xs \<Longrightarrow> x \<noteq> xs ! i \<Longrightarrow> x \<in> set (xs[i := y])"
  by (metis in_set_conv_nth length_list_update nth_list_update_neq)

lemma new_update: "i < length xs \<Longrightarrow> y \<in> set (xs[i := y])"
  by (metis length_list_update nth_list_update_eq nth_mem)

subsection \<open>Removal of what has expired\<close>

definition handles_of :: "pool_entry multiset \<Rightarrow> sandbox_handle multiset" where
  "handles_of M = image_mset (\<lambda>e. the (en_handle e)) (filter_mset (\<lambda>e. en_handle e \<noteq> None) M)"

lemma remove_expired_mset:
  "(\<And>j. j < idx \<Longrightarrow> j < length es \<Longrightarrow> \<not> expired_idle now (es ! j)) \<Longrightarrow>
   mset (fst (remove_expired now idx es expired)) = filter_mset (\<lambda>e. \<not> expired_idle now e) (mset es)
   \<and> mset (snd (remove_expired now idx es expired)) = mset expired + handles_of (filter_mset (expired_idle now) (mset es))"
proof (induction now idx es expired rule: remove_expired.induct)
  case (1 now idx es expired)
  show ?case
  proof (cases "idx < length es")
    case False
    then have none: "\<not> expired_idle now e" if "e \<in> set es" for e
      using "1.prems" that by (metis in_set_conv_nth less_le_trans not_less)
    have "filter_mset (expired_idle now) (mset es) = {#}" using none by (simp add: filter_mset_eq_mempty_iff)
    moreover have "filter_mset (\<lambda>e. \<not> expired_idle now e) (mset es) = mset es"
      using none by (simp add: filter_mset_eq_conv)
    ultimately show ?thesis using False none by (auto simp: remove_expired.simps [of now idx] handles_of_def)
  next
    case True
    show ?thesis
    proof (cases "expired_idle now (es ! idx)")
      case True
      let ?es = "vec_swap_remove idx es"
      let ?ex = "case en_handle (es ! idx) of Some h \<Rightarrow> expired @ [h] | None \<Rightarrow> expired"
      have prems: "\<not> expired_idle now (?es ! j)" if "j < idx" "j < length ?es" for j
        using "1.prems" that \<open>idx < length es\<close> by (simp add: nth_vec_swap_remove length_vec_swap_remove)
      have split: "mset es = add_mset (es ! idx) (mset ?es)"
        using \<open>idx < length es\<close> by (simp add: mset_vec_swap_remove)
      show ?thesis
        using "1.IH"(1) [OF \<open>idx < length es\<close> True prems] True \<open>idx < length es\<close>
        by (auto simp: remove_expired.simps [of now idx es] split handles_of_def split: option.splits)
    next
      case False
      have prems: "\<not> expired_idle now (es ! j)" if "j < idx + 1" "j < length es" for j
        using "1.prems" that False by (cases "j = idx") auto
      show ?thesis
        using "1.IH"(2) [OF \<open>idx < length es\<close> False prems] False \<open>idx < length es\<close>
        by (simp add: remove_expired.simps [of now idx es])
    qed
  qed
qed

text \<open>the loop that swaps expired entries out of the vector ends, removes exactly the idle entries whose sandbox
  has expired, keeps every other one, and collects each removed sandbox for teardown exactly once.\<close>

theorem remove_expired_exact:
  "mset (fst (remove_expired now 0 es [])) = filter_mset (\<lambda>e. \<not> expired_idle now e) (mset es)
   \<and> mset (snd (remove_expired now 0 es [])) = handles_of (filter_mset (expired_idle now) (mset es))"
  using remove_expired_mset [of 0 es now "[]"] by simp

lemma remove_expired_spec:
  assumes "remove_expired now 0 es [] = (es', expired)"
  shows "mset es' = filter_mset (\<lambda>e. \<not> expired_idle now e) (mset es)"
    and "mset expired = handles_of (filter_mset (expired_idle now) (mset es))"
  using remove_expired_mset [of 0 es now "[]"] assms by simp_all

lemma remove_expired_facts:
  assumes "remove_expired now 0 es [] = (es', expired)"
  shows "set es' = {e \<in> set es. \<not> expired_idle now e}" and "length es' \<le> length es"
    and "e \<in> set es \<Longrightarrow> expired_idle now e \<Longrightarrow> en_handle e = Some h \<Longrightarrow> h \<in> set expired"
proof -
  note spec = remove_expired_spec [OF assms]
  show "set es' = {e \<in> set es. \<not> expired_idle now e}" by (metis set_mset_filter set_mset_mset spec(1))
  show "length es' \<le> length es" by (metis size_filter_mset_lesseq size_mset spec(1))
  assume "e \<in> set es" "expired_idle now e" "en_handle e = Some h"
  then have "h \<in># handles_of (filter_mset (expired_idle now) (mset es))" by (force simp: handles_of_def)
  then show "h \<in> set expired" by (metis set_mset_mset spec(2))
qed

subsection \<open>The invariant\<close>

fun claim :: "pool_task \<Rightarrow> (sandbox_cache_key \<times> entry_state) option" where
  "claim (Booting k r) = Some (k, Reserving r)"
| "claim (Booted k r _) = Some (k, Reserving r)"
| "claim (Cleaning k r _) = Some (k, Reserving r)"
| "claim (Holding k _ i) = Some (k, Live i)"
| "claim (Releasing k i _) = Some (k, Live i)"
| "claim _ = None"

fun state_id :: "entry_state \<Rightarrow> nat" where
  "state_id (Live n) = n"
| "state_id (Reserving n) = n"
| "state_id _ = 0"

definition entry_ok :: "pool_entry \<Rightarrow> bool" where
  "entry_ok e \<longleftrightarrow> (case en_state e of Reserving _ \<Rightarrow> en_handle e = None | Draining \<Rightarrow> False | _ \<Rightarrow> en_handle e \<noteq> None)"

definition pool_ok :: "nat \<Rightarrow> key_pool \<Rightarrow> bool" where
  "pool_ok cap p \<longleftrightarrow> length (kp_entries p) \<le> cap \<and> (\<forall>e \<in> set (kp_entries p). entry_ok e)"

text \<open>The entry that a task works on is in the pool; a held sandbox is the one of its entry.\<close>

definition backs :: "key_pool option \<Rightarrow> entry_state \<Rightarrow> pool_task \<Rightarrow> bool" where
  "backs p st T \<longleftrightarrow>
     (\<exists>q e. p = Some q \<and> e \<in> set (kp_entries q) \<and> en_state e = st \<and> (\<forall>k h i. T = Holding k h i \<longrightarrow> en_handle e = Some h))"

definition task_ok :: "pool_system \<Rightarrow> pool_task \<Rightarrow> bool" where
  "task_ok s T \<longleftrightarrow>
     T \<noteq> Panicked \<and> (\<forall>k st. claim T = Some (k, st) \<longrightarrow> backs (ps_pools s k) st T \<and> state_id st < ps_next s)"

definition pool_inv :: "nat \<Rightarrow> pool_system \<Rightarrow> bool" where
  "pool_inv cap s \<longleftrightarrow>
     (\<forall>k p. ps_pools s k = Some p \<longrightarrow> pool_ok cap p) \<and>
     (\<forall>t T. ps_tasks s t = Some T \<longrightarrow> task_ok s T) \<and>
     (\<forall>t T t' T'. ps_tasks s t = Some T \<longrightarrow> ps_tasks s t' = Some T' \<longrightarrow> claim T \<noteq> None \<longrightarrow> claim T = claim T' \<longrightarrow> t = t')"

lemma claim_not_idle: "claim T = Some (k, st) \<Longrightarrow> st \<noteq> Idle"
  by (cases T) auto

lemma pool_invD:
  assumes "pool_inv cap s"
  shows "ps_pools s k = Some p \<Longrightarrow> pool_ok cap p"
    and "ps_tasks s t = Some T \<Longrightarrow> task_ok s T"
    and "ps_tasks s t = Some T \<Longrightarrow> ps_tasks s t' = Some T' \<Longrightarrow> claim T = Some c \<Longrightarrow> claim T' = Some c \<Longrightarrow> t = t'"
  using assms unfolding pool_inv_def by (blast, blast, metis option.distinct(1))

text \<open>A step that changes the place of one task and no pool.\<close>

lemma inv_task:
  assumes inv: "pool_inv cap s"
    and same: "ps_pools s' = ps_pools s" "ps_tasks s' = (ps_tasks s)(t := T')" "ps_next s' = ps_next s"
    and new: "\<And>T. T' = Some T \<Longrightarrow> T \<noteq> Panicked \<and> (\<forall>k h i. T \<noteq> Holding k h i) \<and>
                (claim T = None \<or> (\<exists>T0. ps_tasks s t = Some T0 \<and> claim T0 = claim T))"
  shows "pool_inv cap s'"
proof -
  have tasks: "task_ok s' T" if "ps_tasks s' u = Some T" for u T
  proof (cases "u = t")
    case True
    then have T: "T' = Some T" using that same by simp
    show ?thesis
      using new [OF T] pool_invD(2) [OF inv] by (auto simp: task_ok_def same backs_def) (metis+)?
  next
    case False
    then show ?thesis using that pool_invD(2) [OF inv] by (auto simp: task_ok_def same)
  qed
  have unique: "u = v" if "ps_tasks s' u = Some T" "ps_tasks s' v = Some V" "claim T \<noteq> None" "claim T = claim V" for u v T V
    using that new pool_invD(3) [OF inv] same(2) by (metis fun_upd_apply option.exhaust_sel)
  show ?thesis unfolding pool_inv_def using tasks unique pool_invD(1) [OF inv] same(1) by auto
qed

text \<open>A step that changes one pool and the place of one task, whose claim on it stays or is new.\<close>

lemma inv_pool:
  assumes inv: "pool_inv cap s"
    and upd: "ps_pools s' = (ps_pools s)(k \<mapsto> q)" "ps_tasks s' = (ps_tasks s)(t := T')" "ps_next s \<le> ps_next s'"
    and ok: "pool_ok cap q"
    and keep: "\<And>p e. ps_pools s k = Some p \<Longrightarrow> e \<in> set (kp_entries p) \<Longrightarrow> en_state e \<noteq> Idle \<Longrightarrow>
                (\<And>T0. ps_tasks s t = Some T0 \<Longrightarrow> claim T0 \<noteq> Some (k, en_state e)) \<Longrightarrow> e \<in> set (kp_entries q)"
    and new: "\<And>T. T' = Some T \<Longrightarrow> T \<noteq> Panicked \<and>
                (claim T = None \<or> (\<exists>st. claim T = Some (k, st) \<and> backs (Some q) st T \<and> state_id st = ps_next s \<and> ps_next s < ps_next s'))"
  shows "pool_inv cap s'"
proof -
  have others: "task_ok s' T" if u: "u \<noteq> t" "ps_tasks s u = Some T" for u T
  proof -
    have T: "task_ok s T" by (rule pool_invD(2) [OF inv u(2)])
    have "backs (ps_pools s' k') st T \<and> state_id st < ps_next s'" if c: "claim T = Some (k', st)" for k' st
    proof
      show "state_id st < ps_next s'" using T c upd(3) by (auto simp: task_ok_def)
      have b: "backs (ps_pools s k') st T" using T c by (auto simp: task_ok_def)
      have free: "claim T0 \<noteq> Some (k', st)" if "ps_tasks s t = Some T0" for T0
        using pool_invD(3) [OF inv u(2) that c] u(1) by blast
      obtain p e where e: "ps_pools s k' = Some p" "e \<in> set (kp_entries p)" "en_state e = st"
          "\<forall>k h i. T = Holding k h i \<longrightarrow> en_handle e = Some h"
        using b by (auto simp: backs_def)
      show "backs (ps_pools s' k') st T"
      proof (cases "k' = k")
        case True
        then have "e \<in> set (kp_entries q)" using keep [of p e] e claim_not_idle [OF c] free by auto
        then show ?thesis using True e by (auto simp: backs_def upd(1))
      next
        case False
        then show ?thesis using b by (simp add: upd(1))
      qed
    qed
    then show ?thesis using T by (simp add: task_ok_def)
  qed
  have mine: "task_ok s' T" if "T' = Some T" for T
    using new [OF that] upd by (auto simp: task_ok_def)
  have fresh: "claim V \<noteq> claim T" if "v \<noteq> t" "ps_tasks s v = Some V" "T' = Some T" "claim T \<noteq> None" for v V T
    using pool_invD(2) [OF inv that(2)] new [OF that(3)] that(4) by (auto simp: task_ok_def)
  have unique: "u = v" if uv: "ps_tasks s' u = Some T" "ps_tasks s' v = Some V" "claim T \<noteq> None" "claim T = claim V" for u v T V
  proof (cases "u = t"; cases "v = t")
    assume "u = t" "v \<noteq> t"
    then show ?thesis using fresh [of v V T] uv upd(2) by simp
  next
    assume "u \<noteq> t" "v = t"
    then show ?thesis using fresh [of u T V] uv upd(2) by simp
  next
    assume "u \<noteq> t" "v \<noteq> t"
    then show ?thesis using pool_invD(3) [OF inv, of u T v V] uv upd(2) by auto
  qed simp
  have "task_ok s' T" if "ps_tasks s' u = Some T" for u T
    using that mine others upd(2) by (cases "u = t") auto
  moreover have "pool_ok cap p" if "ps_pools s' k' = Some p" for k' p
    using that ok pool_invD(1) [OF inv] upd(1) by (cases "k' = k") auto
  ultimately show ?thesis unfolding pool_inv_def using unique by blast
qed

subsection \<open>What the sections do\<close>

lemma notify_entries [simp]: "kp_entries (snd (notify_one_waiter p)) = kp_entries p"
  by (simp add: notify_one_waiter_def split: list.split)

lemma notify_eq: "notify_one_waiter p = (w, q) \<Longrightarrow> kp_entries q = kp_entries p"
  by (metis notify_entries snd_conv)

lemma pool_ok_entries: "kp_entries q = kp_entries p \<Longrightarrow> pool_ok cap q = pool_ok cap p"
  by (simp add: pool_ok_def)

definition keeps_busy :: "key_pool \<Rightarrow> (entry_state \<Rightarrow> bool) \<Rightarrow> key_pool \<Rightarrow> bool" where
  "keeps_busy p except q \<longleftrightarrow>
     (\<forall>e \<in> set (kp_entries p). en_state e \<noteq> Idle \<longrightarrow> \<not> except (en_state e) \<longrightarrow> e \<in> set (kp_entries q))"

lemma checkout_section_ok:
  assumes "checkout_section now cap fresh p = (outcome, w, q)" and ok: "pool_ok cap p"
  shows "pool_ok cap q \<and> outcome \<noteq> ReusePanic \<and> keeps_busy p (\<lambda>_. False) q"
    and "outcome = Reuse h \<Longrightarrow> \<exists>e \<in> set (kp_entries q). en_state e = Live fresh \<and> en_handle e = Some h"
    and "outcome = Reserve \<Longrightarrow> \<exists>e \<in> set (kp_entries q). en_state e = Reserving fresh"
proof -
  obtain es ex where r: "remove_expired now 0 (kp_entries p) [] = (es, ex)" by fastforce
  note facts = remove_expired_facts [OF r]
  have small: "length es \<le> cap" and good: "\<And>e. e \<in> set es \<Longrightarrow> entry_ok e"
    using ok facts(1,2) by (auto simp: pool_ok_def)
  have busy: "e \<in> set es" if "e \<in> set (kp_entries p)" "en_state e \<noteq> Idle" for e
    using that facts(1) by (auto simp: expired_idle_def)
  have all: "(pool_ok cap q \<and> outcome \<noteq> ReusePanic \<and> keeps_busy p (\<lambda>_. False) q)
    \<and> (\<forall>h. outcome = Reuse h \<longrightarrow> (\<exists>e \<in> set (kp_entries q). en_state e = Live fresh \<and> en_handle e = Some h))
    \<and> (outcome = Reserve \<longrightarrow> (\<exists>e \<in> set (kp_entries q). en_state e = Reserving fresh))"
  proof (cases "ex \<noteq> []")
    case True
    then have q: "outcome = Expired ex" "kp_entries q = es"
      using assms(1) by (auto simp: checkout_section_def r Let_def dest: notify_eq split: prod.splits)
    show ?thesis using small good busy by (auto simp: q pool_ok_def keeps_busy_def)
  next
    case False
    note sec = assms(1) [unfolded checkout_section_def r prod.case Let_def idle_index_def, simplified, simplified False, simplified]
    show ?thesis
    proof (cases "position (\<lambda>e. en_state e = Idle) es")
      case (Some i)
      then have i: "i < length es" "en_state (es ! i) = Idle" using position_Some by fastforce+
      then obtain h where h: "en_handle (es ! i) = Some h"
        using good [of "es ! i"] by (auto simp: entry_ok_def)
      let ?e = "(es ! i)\<lparr>en_state := Live fresh\<rparr>"
      have q: "outcome = Reuse h" "kp_entries q = es[i := ?e]"
        using sec Some h by auto
      have e: "entry_ok ?e" using h by (simp add: entry_ok_def)
      have "entry_ok x" if "x \<in> set (es[i := ?e])" for x
        using that good e set_update_subset_insert [of es i ?e] by blast
      moreover have "keeps_busy p (\<lambda>_. False) q"
        using busy i by (auto simp: keeps_busy_def q intro!: keeps_update)
      moreover have "?e \<in> set (kp_entries q)" using new_update [OF i(1)] by (simp add: q)
      then have "\<exists>x \<in> set (kp_entries q). en_state x = Live fresh \<and> en_handle x = Some h"
        using h by (intro bexI [of _ ?e]) simp_all
      ultimately show ?thesis using small by (auto simp: q pool_ok_def)
    next
      case None
      show ?thesis
      proof (cases "length es < cap")
        case True
        then have "outcome = Reserve"
          "kp_entries q = es @ [\<lparr>en_handle = None, en_state = Reserving fresh, en_last_idle_at = now\<rparr>]"
          using sec None by (auto simp: count_active_def)
        then show ?thesis using True good busy by (auto simp: pool_ok_def keeps_busy_def entry_ok_def)
      next
        case full: False
        then have "outcome = Park" "kp_entries q = es" using sec None by (auto simp: count_active_def)
        then show ?thesis using small good busy by (auto simp: pool_ok_def keeps_busy_def)
      qed
    qed
  qed
  show "pool_ok cap q \<and> outcome \<noteq> ReusePanic \<and> keeps_busy p (\<lambda>_. False) q" using all by blast
  show "outcome = Reuse h \<Longrightarrow> \<exists>e \<in> set (kp_entries q). en_state e = Live fresh \<and> en_handle e = Some h" using all by blast
  show "outcome = Reserve \<Longrightarrow> \<exists>e \<in> set (kp_entries q). en_state e = Reserving fresh" using all by blast
qed

lemma promote_ok:
  assumes "e0 \<in> set (kp_entries p)" "en_state e0 = Reserving rid" and ok: "pool_ok cap p"
  shows "\<exists>q. promote now tool rid session h (Some p) = Inr q \<and> pool_ok cap q
     \<and> keeps_busy p (\<lambda>st. st = Reserving rid) q
     \<and> (\<exists>e \<in> set (kp_entries q). en_state e = Live session \<and> en_handle e = Some h)"
proof -
  obtain i where i: "position (\<lambda>e. en_state e = Reserving rid) (kp_entries p) = Some i"
    using assms position_None [of "\<lambda>e. en_state e = Reserving rid" "kp_entries p"] by (meson not_Some_eq)
  then have l: "i < length (kp_entries p)" "en_state (kp_entries p ! i) = Reserving rid" using position_Some by fastforce+
  let ?e = "(kp_entries p ! i)\<lparr>en_state := Live session, en_handle := Some h, en_last_idle_at := now\<rparr>"
  let ?q = "p\<lparr>kp_entries := (kp_entries p)[i := ?e]\<rparr>"
  have "promote now tool rid session h (Some p) = Inr ?q" by (simp add: promote_def i)
  moreover have "entry_ok x" if "x \<in> set ((kp_entries p)[i := ?e])" for x
    using that ok set_update_subset_insert [of "kp_entries p" i ?e] by (auto simp: pool_ok_def entry_ok_def)
  moreover have "keeps_busy p (\<lambda>st. st = Reserving rid) ?q"
    using l by (auto simp: keeps_busy_def intro!: keeps_update)
  moreover have "\<exists>e \<in> set (kp_entries ?q). en_state e = Live session \<and> en_handle e = Some h"
    using new_update [OF l(1), of ?e] by (intro bexI [of _ ?e]) simp_all
  ultimately show ?thesis using ok by (intro exI [of _ ?q]) (auto simp: pool_ok_def)
qed

lemma drop_reservation_ok:
  assumes "drop_reservation_section rid (Some p) = (w, q)" and "pool_ok cap p"
  shows "\<exists>q'. q = Some q' \<and> pool_ok cap q' \<and> keeps_busy p (\<lambda>st. st = Reserving rid) q'
     \<and> kp_entries q' = filter (\<lambda>e. en_state e \<noteq> Reserving rid) (kp_entries p)"
proof -
  let ?p = "p\<lparr>kp_entries := filter (\<lambda>e. en_state e \<noteq> Reserving rid) (kp_entries p)\<rparr>"
  have q: "q = Some (snd (notify_one_waiter ?p))"
    using assms(1) by (auto simp: drop_reservation_section_def split: prod.splits)
  have "length (filter (\<lambda>e. en_state e \<noteq> Reserving rid) (kp_entries p)) \<le> cap"
    using assms(2) by (meson length_filter_le order_trans pool_ok_def)
  then show ?thesis using assms(2) by (auto simp: q pool_ok_def keeps_busy_def)
qed

lemma release_ok:
  assumes "release_section now session d (Some p) = (outcome, w, q)" and ok: "pool_ok cap p"
  shows "\<exists>q'. q = Some q' \<and> pool_ok cap q' \<and> keeps_busy p (\<lambda>st. st = Live session) q' \<and> outcome \<noteq> DestroyPanic"
proof (cases "position (\<lambda>e. en_state e = Live session) (kp_entries p)")
  case None
  then show ?thesis using assms by (auto simp: release_section_def keeps_busy_def)
next
  case (Some i)
  then have l: "i < length (kp_entries p)" "en_state (kp_entries p ! i) = Live session" using position_Some by fastforce+
  have "entry_ok (kp_entries p ! i)" using ok l(1) by (simp add: pool_ok_def)
  then obtain h where h: "en_handle (kp_entries p ! i) = Some h" using l(2) by (auto simp: entry_ok_def)
  show ?thesis
  proof (cases d)
    case ReturnIdle
    let ?e = "(kp_entries p ! i)\<lparr>en_state := Idle, en_last_idle_at := now,
                en_handle := map_option (handle_touch now) (en_handle (kp_entries p ! i))\<rparr>"
    let ?p = "p\<lparr>kp_entries := (kp_entries p)[i := ?e]\<rparr>"
    have q: "outcome = Returned" "q = Some (snd (notify_one_waiter ?p))"
      using assms(1) by (auto simp: release_section_def Some ReturnIdle Let_def split: prod.splits)
    have "entry_ok x" if "x \<in> set ((kp_entries p)[i := ?e])" for x
      using that ok h set_update_subset_insert [of "kp_entries p" i ?e] by (auto simp: pool_ok_def entry_ok_def)
    then show ?thesis using ok l by (auto simp: q pool_ok_def keeps_busy_def intro!: keeps_update)
  next
    case Destroy
    let ?p = "p\<lparr>kp_entries := vec_swap_remove i (kp_entries p)\<rparr>"
    have q: "outcome = Destroyed h" "q = Some (snd (notify_one_waiter ?p))"
      using assms(1) by (auto simp: release_section_def Some Destroy h Let_def split: prod.splits)
    show ?thesis
      using ok l set_vec_swap_remove [OF l(1)]
      by (auto simp: q pool_ok_def keeps_busy_def length_vec_swap_remove intro!: keeps_vec_swap_remove)
  qed
qed

subsection \<open>Every step keeps the invariant\<close>

lemma set_task_simps [simp]:
  "ps_pools (set_task t T s) = ps_pools s" "ps_tasks (set_task t T s) = (ps_tasks s)(t := T)"
  "ps_next (set_task t T s) = ps_next s" "ps_running (set_task t T s) = ps_running s"
  "ps_fired (set_task t T s) = ps_fired s"
  by (simp_all add: set_task_def)

lemma pool_cap_pos [simp]: "0 < pool_cap sp"
  by (simp add: pool_cap_def)

lemma or_default_ok: "pool_inv cap s \<Longrightarrow> pool_ok cap (or_default (ps_pools s k))"
  by (cases "ps_pools s k") (auto simp: or_default_def key_pool_default_def pool_ok_def dest: pool_invD(1))

lemma checkout_turn_inv:
  assumes inv: "pool_inv (pool_cap sp) s" and t: "ps_tasks s t = Some (Entering k)"
  shows "pool_inv (pool_cap sp) (checkout_turn sp now t k s)"
proof -
  obtain out w q where sec: "checkout_section now (pool_cap sp) (ps_next s) (or_default (ps_pools s k)) = (out, w, q)"
    by (metis prod_cases3)
  note ok = checkout_section_ok [OF sec or_default_ok [OF inv]]
  show ?thesis
  proof (rule inv_pool [OF inv])
    show "ps_pools (checkout_turn sp now t k s) = (ps_pools s)(k \<mapsto> q)"
      "ps_next s \<le> ps_next (checkout_turn sp now t k s)"
      by (simp_all add: checkout_turn_def sec)
    show "ps_tasks (checkout_turn sp now t k s) = (ps_tasks s)(t := Some (case out of
            Expired hs \<Rightarrow> Reaping k hs | Reuse h \<Rightarrow> Holding k h (ps_next s) | ReusePanic \<Rightarrow> Panicked
          | Reserve \<Rightarrow> Booting k (ps_next s) | Park \<Rightarrow> Parked k (ps_next s)))"
      by (simp add: checkout_turn_def sec)
    show "pool_ok (pool_cap sp) q" using ok(1) by blast
    show "e \<in> set (kp_entries q)" if "ps_pools s k = Some p" "e \<in> set (kp_entries p)" "en_state e \<noteq> Idle" for p e
      using that ok(1) by (auto simp: keeps_busy_def or_default_def)
  qed (use ok in \<open>auto simp: backs_def checkout_turn_def sec split: checkout_outcome.splits\<close>)
qed

lemma promote_turn_holds:
  assumes inv: "pool_inv (pool_cap sp) s" and t: "ps_tasks s t = Some (Booted k rid h)"
  shows "pool_inv (pool_cap sp) (promote_turn now t k rid h s)
     \<and> ps_tasks (promote_turn now t k rid h s) t = Some (Holding k h (ps_next s))"
proof -
  obtain p e where e: "ps_pools s k = Some p" "e \<in> set (kp_entries p)" "en_state e = Reserving rid"
    using pool_invD(2) [OF inv t] by (auto simp: task_ok_def backs_def)
  obtain q where q: "promote now (ck_tool_name k) rid (ps_next s) h (Some p) = Inr q" "pool_ok (pool_cap sp) q"
      "keeps_busy p (\<lambda>st. st = Reserving rid) q"
      "\<exists>e \<in> set (kp_entries q). en_state e = Live (ps_next s) \<and> en_handle e = Some h"
    using promote_ok [OF e(2,3) pool_invD(1) [OF inv e(1)]] by blast
  have turn: "promote_turn now t k rid h s = set_task t (Some (Holding k h (ps_next s)))
      (s\<lparr>ps_pools := (ps_pools s)(k \<mapsto> q), ps_next := ps_next s + 1\<rparr>)"
    by (simp add: promote_turn_def e(1) q(1))
  have "pool_inv (pool_cap sp) (promote_turn now t k rid h s)"
    unfolding turn
  proof (rule inv_pool [OF inv, where q = q and k = k and t = t and T' = "Some (Holding k h (ps_next s))"])
    show "e' \<in> set (kp_entries q)" if "ps_pools s k = Some p'" "e' \<in> set (kp_entries p')" "en_state e' \<noteq> Idle"
      "\<And>T0. ps_tasks s t = Some T0 \<Longrightarrow> claim T0 \<noteq> Some (k, en_state e')" for p' e'
      using that q(3) e(1) t by (auto simp: keeps_busy_def)
  qed (use q in \<open>auto simp: backs_def\<close>)
  then show ?thesis by (simp add: turn)
qed

lemma clean_turn_inv:
  assumes inv: "pool_inv cap s" and t: "ps_tasks s t = Some (Cleaning k rid h)"
  shows "pool_inv cap (clean_turn t k rid h s)"
proof -
  obtain p e where e: "ps_pools s k = Some p" "e \<in> set (kp_entries p)" "en_state e = Reserving rid"
    using pool_invD(2) [OF inv t] by (auto simp: task_ok_def backs_def)
  obtain w q where d: "drop_reservation_section rid (Some p) = (w, q)" by fastforce
  obtain q' where q: "q = Some q'" "pool_ok cap q'" "keeps_busy p (\<lambda>st. st = Reserving rid) q'"
    using drop_reservation_ok [OF d pool_invD(1) [OF inv e(1)]] by blast
  have turn: "clean_turn t k rid h s = set_task t (map_option Tearing h)
      (s\<lparr>ps_pools := (ps_pools s)(k \<mapsto> q'), ps_fired := fire w (ps_fired s)\<rparr>)"
    by (simp add: clean_turn_def e(1) d q(1))
  show ?thesis
    unfolding turn
  proof (rule inv_pool [OF inv, where q = q' and k = k and t = t and T' = "map_option Tearing h"])
    show "e' \<in> set (kp_entries q')" if "ps_pools s k = Some p'" "e' \<in> set (kp_entries p')" "en_state e' \<noteq> Idle"
      "\<And>T0. ps_tasks s t = Some T0 \<Longrightarrow> claim T0 \<noteq> Some (k, en_state e')" for p' e'
      using that q(3) e(1) t by (auto simp: keeps_busy_def)
  qed (use q in auto)
qed

lemma release_turn_inv:
  assumes inv: "pool_inv cap s" and t: "ps_tasks s t = Some (Releasing k i d)"
  shows "pool_inv cap (release_turn now t k i d s)"
proof -
  obtain p e where e: "ps_pools s k = Some p" "e \<in> set (kp_entries p)" "en_state e = Live i"
    using pool_invD(2) [OF inv t] by (auto simp: task_ok_def backs_def)
  obtain out w q where r: "release_section now i d (Some p) = (out, w, q)" by (metis prod_cases3)
  obtain q' where q: "q = Some q'" "pool_ok cap q'" "keeps_busy p (\<lambda>st. st = Live i) q'" "out \<noteq> DestroyPanic"
    using release_ok [OF r pool_invD(1) [OF inv e(1)]] by blast
  let ?T = "case out of NotFound \<Rightarrow> None | Returned \<Rightarrow> None | Destroyed h \<Rightarrow> Some (Tearing h) | DestroyPanic \<Rightarrow> Some Panicked"
  have turn: "release_turn now t k i d s = set_task t ?T
      (s\<lparr>ps_pools := (ps_pools s)(k \<mapsto> q'), ps_fired := fire w (ps_fired s)\<rparr>)"
    by (simp add: release_turn_def e(1) r q(1))
  show ?thesis
    unfolding turn
  proof (rule inv_pool [OF inv, where q = q' and k = k and t = t and T' = ?T])
    show "e' \<in> set (kp_entries q')" if "ps_pools s k = Some p'" "e' \<in> set (kp_entries p')" "en_state e' \<noteq> Idle"
      "\<And>T0. ps_tasks s t = Some T0 \<Longrightarrow> claim T0 \<noteq> Some (k, en_state e')" for p' e'
      using that q(3) e(1) t by (auto simp: keeps_busy_def)
  qed (use q in \<open>auto split: release_outcome.splits\<close>)
qed

lemma cancel_turn_inv:
  assumes inv: "pool_inv cap s" and t: "ps_tasks s t = Some (Cancelling k w waited)"
  shows "pool_inv cap (cancel_turn sp t k w waited s)"
proof (cases "ps_pools s k")
  case None
  then have same: "(ps_pools s)(k := cancel_waiter w (ps_pools s k)) = ps_pools s"
    by (auto simp: cancel_waiter_def)
  show ?thesis by (rule inv_task [OF inv, where t = t and T' = None]) (simp_all add: cancel_turn_def same)
next
  case (Some p)
  show ?thesis
    by (rule inv_pool [OF inv, where t = t and T' = None and k = k
          and q = "p\<lparr>kp_waiters := filter (\<lambda>v. v \<noteq> w) (kp_waiters p)\<rparr>"])
      (use pool_invD(1) [OF inv Some] in \<open>auto simp: cancel_turn_def cancel_waiter_def Some pool_ok_def\<close>)
qed

text \<open>The steps that leave the pools alone.\<close>

lemma quiet_step_inv:
  assumes inv: "pool_inv cap s" and step: "pool_step sp c s = Some s'" and quiet: "\<And>t now. c \<noteq> TakeLock t now"
  shows "pool_inv cap s'"
proof (cases c)
  case (StartCheckout t key)
  show ?thesis
    by (rule inv_task [OF inv, where t = t and T' = "Some (Entering key)"])
      (use step in \<open>auto simp: StartCheckout checkout_start_def split: if_splits\<close>)
next
  case (CallTeardown t ok)
  show ?thesis
    by (rule inv_task [OF inv, where t = t and T' = "ps_tasks s' t"])
      (use step in \<open>auto simp: CallTeardown teardown_turn_def split: option.splits pool_task.splits list.splits\<close>)
next
  case (WakeUp t)
  show ?thesis
    by (rule inv_task [OF inv, where t = t and T' = "ps_tasks s' t"])
      (use step in \<open>auto simp: WakeUp wake_turn_def split: option.splits pool_task.splits if_splits\<close>)
next
  case (TimeOut t waited)
  show ?thesis
    by (rule inv_task [OF inv, where t = t and T' = "ps_tasks s' t"])
      (use step in \<open>auto simp: TimeOut expire_turn_def split: option.splits pool_task.splits if_splits\<close>)
next
  case (CallCreate t now created)
  show ?thesis
    by (rule inv_task [OF inv, where t = t and T' = "ps_tasks s' t"])
      (use step in \<open>auto simp: CallCreate boot_turn_def split: option.splits pool_task.splits sum.splits\<close>)
next
  case (Release t d)
  show ?thesis
    by (rule inv_task [OF inv, where t = t and T' = "ps_tasks s' t"])
      (use step in \<open>auto simp: Release finish_turn_def split: option.splits pool_task.splits\<close>)
next
  case (DropFuture t rt)
  show ?thesis
    by (rule inv_task [OF inv, where t = t and T' = "ps_tasks s' t"])
      (use step in \<open>auto simp: DropFuture drop_turn_def split: option.splits pool_task.splits if_splits\<close>)
qed (use quiet in blast)

lemma lock_turn_inv:
  assumes inv: "pool_inv (pool_cap sp) s" and step: "lock_turn sp now t s = Some s'"
  shows "pool_inv (pool_cap sp) s'"
  using step
  by (auto simp: lock_turn_def checkout_turn_inv [OF inv] promote_turn_holds [OF inv] clean_turn_inv [OF inv]
      release_turn_inv [OF inv] cancel_turn_inv [OF inv] split: option.splits pool_task.splits)

lemma pool_step_inv: "pool_inv (pool_cap sp) s \<Longrightarrow> pool_step sp c s = Some s' \<Longrightarrow> pool_inv (pool_cap sp) s'"
  by (cases "\<exists>t now. c = TakeLock t now") (auto intro: lock_turn_inv quiet_step_inv)

lemma pool_reach_inv: "pool_reach sp admits s \<Longrightarrow> pool_inv (pool_cap sp) s"
proof (induction rule: pool_reach.induct)
  case reach_new
  show ?case by (simp add: pool_inv_def pool_new_def)
next
  case (reach_step s c s')
  then show ?case by (auto intro: pool_step_inv)
qed

subsection \<open>Sessions\<close>

lemma card_image_length:
  assumes inj: "inj_on f A" and into: "f ` A \<subseteq> g ` set xs"
  shows "finite A \<and> card A \<le> length xs"
proof -
  have fin: "finite (f ` A)" by (rule finite_subset [OF into]) simp
  have "card A = card (f ` A)" using inj by (simp add: card_image)
  also have "\<dots> \<le> card (g ` set xs)" by (rule card_mono [OF _ into]) simp
  also have "\<dots> \<le> length xs" by (metis card_image_le card_length finite_set order_trans)
  finally show ?thesis using fin inj by (simp add: finite_image_iff)
qed


text \<open>Two tasks on a pool for one.\<close>

definition demo_pool :: session_pool where
  "demo_pool = \<lparr>sp_config = session_pool_config_default,
     sp_build_spec = (\<lambda>key. Ok (build_stock_spec (ck_context_id key) (Oci ''img'') ''/'' [] []))\<rparr>"

definition demo_pool_key :: sandbox_cache_key where
  "demo_pool_key = \<lparr>ck_agent_id = ''a'', ck_context_id = ''c'', ck_tool_name = demo_tool\<rparr>"

definition any_op :: "pool_op \<Rightarrow> pool_system \<Rightarrow> bool" where
  "any_op c s = True"

lemma pool_run_reach:
  "pool_run sp cs s = Some s' \<Longrightarrow> pool_reach sp admits s \<Longrightarrow> (\<And>c r. c \<in> set cs \<Longrightarrow> admits c r) \<Longrightarrow> pool_reach sp admits s'"
proof (induction cs arbitrary: s)
  case (Cons c cs)
  then obtain r where "pool_step sp c s = Some r" "pool_run sp cs r = Some s'" by (auto simp: bind_eq_Some_conv)
  moreover from this have "pool_reach sp admits r" using Cons.prems by (auto intro: reach_step)
  ultimately show ?case using Cons.IH Cons.prems(3) by auto
qed simp

definition boots :: "nat \<Rightarrow> pool_op list" where
  "boots t = [StartCheckout t demo_pool_key, TakeLock t 0, CallCreate t 0 (Ok ()), TakeLock t 0]"

lemmas demo_run_simps =
  boots_def demo_pool_def checkout_start_def lock_turn_def checkout_turn_def checkout_section_def remove_expired.simps
  or_default_def key_pool_default_def idle_index_def count_active_def pool_cap_def session_pool_config_default_def
  DEFAULT_POOL_MAX_def boot_turn_def created_handle_def build_stock_spec_def promote_turn_def promote_def
  set_task_def pool_new_def Let_def fire_def finish_turn_def release_turn_def release_section_def
  notify_one_waiter_def vec_swap_remove_def teardown_turn_def tear_down_def wake_turn_def expire_turn_def
  cancel_turn_def cancel_waiter_def expired_idle_def handle_touch_def is_expired_iff


text \<open>a checkout whose sandbox has booted always finds its reservation: the section that completes it hands
  the sandbox out, and neither of the errors for a lost reservation is ever returned there.\<close>

theorem booted_checkout_completes:
  assumes "pool_reach sp admits s" and "ps_tasks s t = Some (Booted k rid h)"
  shows "\<exists>s'. pool_step sp (TakeLock t now) s = Some s' \<and> ps_tasks s' t = Some (Holding k h (ps_next s))
     \<and> ps_errors s' = ps_errors s"
proof -
  note inv = pool_reach_inv [OF assms(1)]
  have "ps_tasks (promote_turn now t k rid h s) t = Some (Holding k h (ps_next s))"
    using promote_turn_holds [OF inv assms(2)] by blast
  moreover from this have "ps_errors (promote_turn now t k rid h s) = ps_errors s"
    by (auto simp: promote_turn_def set_task_def split: sum.splits)
  ultimately show ?thesis using assms(2) by (simp add: lock_turn_def)
qed

theorem booted_checkout_completes_witness:
  "\<exists>s s'. pool_run demo_pool [StartCheckout 1 demo_pool_key, TakeLock 1 0, CallCreate 1 0 (Ok ())] pool_new = Some s
     \<and> pool_step demo_pool (TakeLock 1 5) s = Some s' \<and> (\<exists>h. ps_tasks s' 1 = Some (Holding demo_pool_key h 1))"
proof -
  let ?h = "created_handle 0 (build_stock_spec ''c'' (Oci ''img'') ''/'' [] [])"
  obtain s where s: "pool_run demo_pool [StartCheckout 1 demo_pool_key, TakeLock 1 0, CallCreate 1 0 (Ok ())] pool_new = Some s"
      "ps_tasks s 1 = Some (Booted demo_pool_key 0 ?h)" "ps_next s = 1"
    by (simp add: demo_run_simps demo_pool_key_def)
  have "pool_reach demo_pool any_op s" by (rule pool_run_reach [OF s(1) reach_new]) (simp add: any_op_def)
  from booted_checkout_completes [OF this s(2), of 5] show ?thesis using s by auto
qed

subsection \<open>Two races\<close>

definition boots_for :: "sandbox_cache_key \<Rightarrow> nat \<Rightarrow> pool_op list" where
  "boots_for key t = [StartCheckout t key, TakeLock t 0, CallCreate t 0 (Ok ()), TakeLock t 0]"

definition destroy_race :: "sandbox_cache_key \<Rightarrow> pool_op list" where
  "destroy_race key =
     boots_for key 1 @ [StartCheckout 2 key, TakeLock 2 0, Release 1 Destroy, TakeLock 1 0, WakeUp 2, TakeLock 2 0,
       CallCreate 2 0 (Ok ()), TakeLock 2 0, CallTeardown 1 True]"

text \<open>C33: the teardown of a destroyed sandbox runs after its slot was given away, by name, and the next sandbox of
  the key has the same name: in a pool for one, a run without failures and without dropped futures
  leaves the waiting session with a handle for which the provider has no sandbox any more.\<close>

theorem destroy_takes_down_successor:
  assumes "sp_config sp = session_pool_config_default" and "sp_build_spec sp key = Ok spec"
  shows "\<exists>s h. pool_run sp (destroy_race key) pool_new = Some s
     \<and> ps_tasks s 2 = Some (Holding key h 4) \<and> sh_name h = ssp_name spec \<and> ssp_name spec \<notin> ps_running s"
  using assms by (simp add: destroy_race_def boots_for_def demo_run_simps)

theorem destroy_takes_down_successor_witness:
  "\<exists>s h. pool_run demo_pool (destroy_race demo_pool_key) pool_new = Some s
     \<and> ps_tasks s 2 = Some (Holding demo_pool_key h 4) \<and> sh_name h \<notin> ps_running s"
  using destroy_takes_down_successor [of demo_pool demo_pool_key
      "build_stock_spec (ck_context_id demo_pool_key) (Oci ''img'') ''/'' [] []"]
  by (auto simp: demo_pool_def)

definition wakeup_race :: "session_pool \<Rightarrow> sandbox_cache_key \<Rightarrow> pool_op list" where
  "wakeup_race sp key =
     boots_for key 1 @ [StartCheckout 2 key, TakeLock 2 0, StartCheckout 3 key, TakeLock 3 0,
       TimeOut 2 (spc_pool_checkout_timeout (sp_config sp)), Release 1 ReturnIdle, TakeLock 1 0, TakeLock 2 0]"

text \<open>C34: the permit of a released sandbox is lost on a waiter whose time is up: the sandbox lies idle, the next
  waiter stays parked with nobody left to wake it, and it fails for want of capacity.\<close>

theorem wakeup_lost_on_timeout:
  assumes "spc_default_pool_max (sp_config sp) \<le> 1" and "sp_build_spec sp key = Ok spec"
  shows "\<exists>s p e s'. pool_run sp (wakeup_race sp key) pool_new = Some s
     \<and> ps_tasks s = [3 \<mapsto> Parked key 3] \<and> pool_step sp (WakeUp 3) s = None
     \<and> ps_pools s key = Some p \<and> kp_entries p = [e] \<and> en_state e = Idle
     \<and> pool_run sp [TimeOut 3 (spc_pool_checkout_timeout (sp_config sp)), TakeLock 3 0] s = Some s'
     \<and> ps_pools s' key = Some (p\<lparr>kp_waiters := []\<rparr>)
     \<and> ps_errors s' 3 = Some (into_baml_error (Exhausted (ck_tool_name key) 1 (spc_pool_checkout_timeout (sp_config sp))))"
proof -
  have cap: "max (spc_default_pool_max (sp_config sp)) 1 = 1" using assms(1) by simp
  show ?thesis using assms(2) cap
    by (simp add: wakeup_race_def boots_for_def demo_run_simps fun_upd_twist numeral_3_eq_3)
qed

theorem wakeup_lost_on_timeout_witness:
  "\<exists>s p. pool_run demo_pool (wakeup_race demo_pool demo_pool_key) pool_new = Some s
     \<and> ps_tasks s = [3 \<mapsto> Parked demo_pool_key 3] \<and> pool_step demo_pool (WakeUp 3) s = None
     \<and> ps_pools s demo_pool_key = Some p \<and> idle_index p = Some 0"
  using wakeup_lost_on_timeout [of demo_pool demo_pool_key
      "build_stock_spec (ck_context_id demo_pool_key) (Oci ''img'') ''/'' [] []"]
  by (auto simp: demo_pool_def session_pool_config_default_def DEFAULT_POOL_MAX_def idle_index_def)

subsection \<open>Nothing is lost\<close>

fun pending :: "pool_task \<Rightarrow> sandbox_handle set" where
  "pending (Reaping _ hs) = set hs"
| "pending (Booted _ _ h) = {h}"
| "pending (Cleaning _ _ (Some h)) = {h}"
| "pending (Tearing h) = {h}"
| "pending _ = {}"

text \<open>Operations under which teardowns succeed and neither a teardown nor a release is abandoned.\<close>

definition lossless :: "pool_op \<Rightarrow> pool_system \<Rightarrow> bool" where
  "lossless c s =
     (case c of
        CallTeardown t ok \<Rightarrow> ok
      | DropFuture t in_runtime \<Rightarrow>
          in_runtime \<and> (case ps_tasks s t of
                           Some (Reaping _ _) \<Rightarrow> False | Some (Tearing _) \<Rightarrow> False | Some (Releasing _ _ _) \<Rightarrow> False | _ \<Rightarrow> True)
      | _ \<Rightarrow> True)"

definition owned_slots :: "pool_system \<Rightarrow> bool" where
  "owned_slots s \<longleftrightarrow>
     (\<forall>k p e. ps_pools s k = Some p \<longrightarrow> e \<in> set (kp_entries p) \<longrightarrow> en_state e \<noteq> Idle
        \<longrightarrow> (\<exists>t T. ps_tasks s t = Some T \<and> claim T = Some (k, en_state e)))"

text \<open>No two entries that are not idle have the same state.\<close>

definition busy_once :: "pool_entry multiset \<Rightarrow> bool" where
  "busy_once M \<longleftrightarrow> (\<forall>st. st \<noteq> Idle \<longrightarrow> count (image_mset en_state M) st \<le> 1)"

definition known_sandbox :: "pool_system \<Rightarrow> string \<Rightarrow> bool" where
  "known_sandbox s n \<longleftrightarrow>
     (\<exists>k p e h. ps_pools s k = Some p \<and> e \<in> set (kp_entries p) \<and> en_handle e = Some h \<and> sh_name h = n)
     \<or> (\<exists>t T h. ps_tasks s t = Some T \<and> h \<in> pending T \<and> sh_name h = n)"

definition account_inv :: "pool_system \<Rightarrow> bool" where
  "account_inv s \<longleftrightarrow>
     owned_slots s \<and> (\<forall>k p. ps_pools s k = Some p \<longrightarrow> busy_once (mset (kp_entries p))) \<and> (\<forall>n \<in> ps_running s. known_sandbox s n)"

lemma busy_once_mono: "busy_once N \<Longrightarrow> M \<subseteq># N \<Longrightarrow> busy_once M"
  by (meson busy_once_def image_mset_subseteq_mono mset_subset_eq_count order_trans)

lemma busy_once_add:
  "busy_once M \<Longrightarrow> en_state e = Idle \<or> (\<forall>x \<in># M. en_state x \<noteq> en_state e) \<Longrightarrow> busy_once (add_mset e M)"
  by (auto simp: busy_once_def count_eq_zero_iff)

lemma busy_once_other:
  assumes "busy_once M" "x \<in># M" "en_state x \<noteq> Idle" "e \<in># M - {#x#}"
  shows "en_state e \<noteq> en_state x"
proof
  assume same: "en_state e = en_state x"
  have "image_mset en_state M = add_mset (en_state x) (image_mset en_state (M - {#x#}))"
    using assms(2) by (metis image_mset_add_mset insert_DiffM)
  moreover have "0 < count (image_mset en_state (M - {#x#})) (en_state x)"
    using assms(4) same by (metis count_greater_zero_iff image_eqI set_image_mset)
  ultimately have "1 < count (image_mset en_state M) (en_state x)" by simp
  then show False using assms(1,3) by (metis busy_once_def not_le)
qed

definition pool_names :: "pool_entry multiset \<Rightarrow> string set" where
  "pool_names M = {n. \<exists>e h. e \<in># M \<and> en_handle e = Some h \<and> sh_name h = n}"

definition task_names :: "pool_task option \<Rightarrow> string set" where
  "task_names T = (case T of Some U \<Rightarrow> sh_name ` pending U | None \<Rightarrow> {})"

definition task_claim :: "pool_task option \<Rightarrow> (sandbox_cache_key \<times> entry_state) option" where
  "task_claim T = Option.bind T claim"

lemma task_names_iff: "n \<in> task_names T \<longleftrightarrow> (\<exists>U h. T = Some U \<and> h \<in> pending U \<and> sh_name h = n)"
  by (cases T) (auto simp: task_names_def)

lemma known_sandbox_iff:
  "known_sandbox s n \<longleftrightarrow>
     (\<exists>k p. ps_pools s k = Some p \<and> n \<in> pool_names (mset (kp_entries p))) \<or> (\<exists>t. n \<in> task_names (ps_tasks s t))"
  by (auto simp: known_sandbox_def pool_names_def task_names_iff)

lemma owned_slots_iff:
  "owned_slots s \<longleftrightarrow>
     (\<forall>k p e. ps_pools s k = Some p \<longrightarrow> e \<in> set (kp_entries p) \<longrightarrow> en_state e \<noteq> Idle
        \<longrightarrow> (\<exists>t. task_claim (ps_tasks s t) = Some (k, en_state e)))"
  by (auto simp: owned_slots_def task_claim_def bind_eq_Some_conv)

lemma account_task:
  assumes acc: "account_inv s"
    and same: "ps_pools s' = ps_pools s" "ps_tasks s' = (ps_tasks s)(t := T')"
    and claim: "task_claim (ps_tasks s t) = None \<or> task_claim T' = task_claim (ps_tasks s t)"
    and names: "\<And>n. n \<in> ps_running s' \<Longrightarrow>
                  n \<in> task_names T' \<or> n \<in> ps_running s \<and> n \<notin> task_names (ps_tasks s t)"
  shows "account_inv s'"
proof -
  have "owned_slots s'"
    unfolding owned_slots_iff
  proof (intro allI impI)
    fix k p e assume e: "ps_pools s' k = Some p" "e \<in> set (kp_entries p)" "en_state e \<noteq> Idle"
    then obtain u where u: "task_claim (ps_tasks s u) = Some (k, en_state e)"
      using acc same(1) unfolding account_inv_def owned_slots_iff by metis
    then show "\<exists>v. task_claim (ps_tasks s' v) = Some (k, en_state e)"
      using claim same(2) by (cases "u = t") (auto intro!: exI [of _ u])
  qed
  moreover have "known_sandbox s' n" if n: "n \<in> ps_running s'" for n
  proof (cases "n \<in> task_names T'")
    case True
    then show ?thesis unfolding known_sandbox_iff same(2) by (metis fun_upd_same)
  next
    case False
    then have "n \<in> ps_running s" and away: "n \<notin> task_names (ps_tasks s t)" using names [OF n] by auto
    then have "known_sandbox s n" using acc by (simp add: account_inv_def)
    then show ?thesis unfolding known_sandbox_iff same using away by (metis fun_upd_other)
  qed
  ultimately show ?thesis using acc by (simp add: account_inv_def same(1))
qed

lemma account_pool:
  assumes acc: "account_inv s"
    and upd: "ps_pools s' = (ps_pools s)(k \<mapsto> q)" "ps_tasks s' = (ps_tasks s)(t := T')" "ps_running s' = ps_running s"
    and old: "p = or_default (ps_pools s k)"
    and busy: "busy_once (mset (kp_entries q))"
    and slots: "\<And>e. e \<in> set (kp_entries q) \<Longrightarrow> en_state e \<noteq> Idle \<Longrightarrow>
        task_claim T' = Some (k, en_state e)
        \<or> en_state e \<in> en_state ` set (kp_entries p) \<and> task_claim (ps_tasks s t) \<noteq> Some (k, en_state e)"
    and gone: "\<And>k' st. task_claim (ps_tasks s t) = Some (k', st) \<Longrightarrow> k' = k"
    and names: "pool_names (mset (kp_entries p)) \<union> task_names (ps_tasks s t)
                \<subseteq> pool_names (mset (kp_entries q)) \<union> task_names T'"
  shows "account_inv s'"
proof -
  have owned: "\<exists>v. task_claim (ps_tasks s v) = Some (k', en_state e)"
    if "ps_pools s k' = Some r" "e \<in> set (kp_entries r)" "en_state e \<noteq> Idle" for k' r e
    using that acc unfolding account_inv_def owned_slots_iff by blast
  have "owned_slots s'"
    unfolding owned_slots_iff
  proof (intro allI impI)
    fix k' r e assume e: "ps_pools s' k' = Some r" "e \<in> set (kp_entries r)" "en_state e \<noteq> Idle"
    show "\<exists>v. task_claim (ps_tasks s' v) = Some (k', en_state e)"
    proof (cases "k' = k \<and> task_claim T' = Some (k, en_state e)")
      case True
      then show ?thesis using upd(2) by (metis fun_upd_same)
    next
      case False
      have "\<exists>v. task_claim (ps_tasks s v) = Some (k', en_state e) \<and> v \<noteq> t"
      proof (cases "k' = k")
        case True
        then have "en_state e \<in> en_state ` set (kp_entries p)" "task_claim (ps_tasks s t) \<noteq> Some (k, en_state e)"
          using slots [of e] e False upd(1) by auto
        moreover from this obtain r0 where "ps_pools s k = Some r0" "p = r0"
          by (cases "ps_pools s k") (auto simp: old or_default_def key_pool_default_def)
        ultimately obtain e0 where "ps_pools s k = Some p" "e0 \<in> set (kp_entries p)" "en_state e0 = en_state e" by auto
        then show ?thesis using owned [of k p e0] e(3) True \<open>task_claim (ps_tasks s t) \<noteq> _\<close> by metis
      next
        case other: False
        then have "ps_pools s k' = Some r" using e(1) upd(1) by simp
        then show ?thesis using owned [of k' r e] e(2,3) gone other by metis
      qed
      then show ?thesis using upd(2) by (metis fun_upd_other)
    qed
  qed
  moreover have "known_sandbox s' n" if n: "n \<in> ps_running s'" for n
  proof -
    have "known_sandbox s n" using acc n upd(3) by (simp add: account_inv_def)
    then consider k' r where "ps_pools s k' = Some r" "n \<in> pool_names (mset (kp_entries r))"
      | v where "n \<in> task_names (ps_tasks s v)" unfolding known_sandbox_iff by blast
    then have "n \<in> pool_names (mset (kp_entries q)) \<or> n \<in> task_names T'
      \<or> (\<exists>k' r. k' \<noteq> k \<and> ps_pools s k' = Some r \<and> n \<in> pool_names (mset (kp_entries r)))
      \<or> (\<exists>v. v \<noteq> t \<and> n \<in> task_names (ps_tasks s v))"
    proof cases
      case 1
      then show ?thesis using names old by (cases "k' = k") (auto simp: or_default_def)
    next
      case 2
      then show ?thesis using names by (cases "v = t") auto
    qed
    then show ?thesis unfolding known_sandbox_iff upd(1,2) by (metis fun_upd_other fun_upd_same)
  qed
  moreover have "busy_once (mset (kp_entries r))" if "ps_pools s' k' = Some r" for k' r
    using that acc busy upd(1) by (cases "k' = k") (auto simp: account_inv_def)
  ultimately show ?thesis by (simp add: account_inv_def)
qed

lemma pool_names_add: "pool_names (add_mset e M) = set_option (map_option sh_name (en_handle e)) \<union> pool_names M"
  by (cases "en_handle e") (auto simp: pool_names_def)

lemma pool_names_update:
  assumes "i < length xs" and "map_option sh_name (en_handle y) = map_option sh_name (en_handle (xs ! i))"
  shows "pool_names (mset (xs[i := y])) = pool_names (mset xs)"
proof -
  have "mset xs = add_mset (xs ! i) (mset xs - {#xs ! i#})" using assms(1) by simp
  moreover have "mset (xs[i := y]) = add_mset y (mset xs - {#xs ! i#})" using assms(1) by (rule mset_update)
  ultimately show ?thesis by (metis assms(2) pool_names_add)
qed

lemma checkout_account:
  assumes sec: "checkout_section now cap fresh p = (outcome, w, q)"
    and busy: "busy_once (mset (kp_entries p))"
    and free: "\<And>e. e \<in> set (kp_entries p) \<Longrightarrow> en_state e \<noteq> Idle \<Longrightarrow> state_id (en_state e) < fresh"
  shows "busy_once (mset (kp_entries q))
     \<and> (\<forall>e \<in> set (kp_entries q). en_state e \<noteq> Idle \<longrightarrow> en_state e \<in> en_state ` set (kp_entries p)
          \<or> outcome = Reserve \<and> en_state e = Reserving fresh \<or> (\<exists>h. outcome = Reuse h) \<and> en_state e = Live fresh
          \<or> outcome = ReusePanic)
     \<and> pool_names (mset (kp_entries p)) \<subseteq>
         pool_names (mset (kp_entries q)) \<union> (case outcome of Expired hs \<Rightarrow> sh_name ` set hs | _ \<Rightarrow> {})"
proof -
  obtain es ex where r: "remove_expired now 0 (kp_entries p) [] = (es, ex)" by fastforce
  note facts = remove_expired_facts [OF r]
  have busy': "busy_once (mset es)"
    using busy_once_mono [OF busy] remove_expired_spec(1) [OF r] by simp
  have from_p: "e \<in> set (kp_entries p)" if "e \<in> set es" for e using that facts(1) by auto
  have names: "pool_names (mset (kp_entries p)) \<subseteq> pool_names (mset es) \<union> sh_name ` set ex"
  proof
    fix n assume "n \<in> pool_names (mset (kp_entries p))"
    then obtain e h where e: "e \<in> set (kp_entries p)" "en_handle e = Some h" "sh_name h = n"
      by (auto simp: pool_names_def)
    then show "n \<in> pool_names (mset es) \<union> sh_name ` set ex"
      using facts(1) facts(3) [of e h] by (cases "expired_idle now e") (auto simp: pool_names_def)
  qed
  have new: "\<forall>x \<in># mset es. en_state x \<noteq> Live fresh \<and> en_state x \<noteq> Reserving fresh"
    using free from_p by fastforce
  show ?thesis
  proof (cases "ex \<noteq> []")
    case True
    then have q: "outcome = Expired ex" "kp_entries q = es"
      using sec by (auto simp: checkout_section_def r Let_def dest: notify_eq split: prod.splits)
    show ?thesis using busy' names from_p by (auto simp: q)
  next
    case False
    note sec' = sec [unfolded checkout_section_def r prod.case Let_def idle_index_def, simplified, simplified False, simplified]
    have names': "pool_names (mset (kp_entries p)) \<subseteq> pool_names (mset es)" using names False by simp
    show ?thesis
    proof (cases "position (\<lambda>e. en_state e = Idle) es")
      case (Some i)
      then have i: "i < length es" "en_state (es ! i) = Idle" using position_Some by fastforce+
      let ?e = "(es ! i)\<lparr>en_state := Live fresh\<rparr>"
      have q: "kp_entries q = es[i := ?e]" "outcome = ReusePanic \<or> (\<exists>h. outcome = Reuse h)"
        using sec' Some by (auto split: option.splits)
      have "en_state x \<noteq> Live fresh" if "x \<in># mset es - {#es ! i#}" for x using that new by (meson in_diffD)
      then have "busy_once (add_mset ?e (mset es - {#es ! i#}))"
        by (intro busy_once_add busy_once_mono [OF busy']) auto
      then have "busy_once (mset (kp_entries q))" using i(1) by (simp add: q mset_update)
      moreover have "en_state e \<in> en_state ` set (kp_entries p) \<or> en_state e = Live fresh" if "e \<in> set (kp_entries q)" for e
        using that from_p set_update_subset_insert [of es i ?e] by (auto simp: q)
      moreover have "pool_names (mset (kp_entries q)) = pool_names (mset es)"
        using i(1) by (simp add: q pool_names_update)
      ultimately show ?thesis using names' q(2) by auto
    next
      case None
      show ?thesis
      proof (cases "length es < cap")
        case True
        let ?e = "\<lparr>en_handle = None, en_state = Reserving fresh, en_last_idle_at = now\<rparr>"
        have q: "outcome = Reserve" "kp_entries q = es @ [?e]"
          using sec' None True by (auto simp: count_active_def)
        have "busy_once (add_mset ?e (mset es))" by (rule busy_once_add [OF busy']) (use new in simp)
        then show ?thesis using names' from_p by (auto simp: q pool_names_add)
      next
        case full: False
        then have "outcome = Park" "kp_entries q = es" using sec' None by (auto simp: count_active_def)
        then show ?thesis using names' from_p busy' by auto
      qed
    qed
  qed
qed

lemma accountD:
  assumes "account_inv s"
  shows "ps_pools s k = Some p \<Longrightarrow> busy_once (mset (kp_entries p))"
    and "ps_pools s k = Some p \<Longrightarrow> e \<in> set (kp_entries p) \<Longrightarrow> en_state e \<noteq> Idle \<Longrightarrow>
           \<exists>t T. ps_tasks s t = Some T \<and> claim T = Some (k, en_state e)"
  using assms by (auto simp: account_inv_def owned_slots_def)

lemma busy_ids:
  assumes "pool_inv cap s" "account_inv s" "ps_pools s k = Some p" "e \<in> set (kp_entries p)" "en_state e \<noteq> Idle"
  shows "state_id (en_state e) < ps_next s"
  using accountD(2) [OF assms(2-5)] pool_invD(2) [OF assms(1)] by (auto simp: task_ok_def)

lemma checkout_turn_account:
  assumes inv: "pool_inv (pool_cap sp) s" and acc: "account_inv s" and t: "ps_tasks s t = Some (Entering k)"
  shows "account_inv (checkout_turn sp now t k s)"
proof -
  let ?p = "or_default (ps_pools s k)"
  obtain out w q where sec: "checkout_section now (pool_cap sp) (ps_next s) ?p = (out, w, q)" by (metis prod_cases3)
  have fine: "out \<noteq> ReusePanic" using checkout_section_ok(1) [OF sec or_default_ok [OF inv]] by blast
  have busy: "busy_once (mset (kp_entries ?p))"
    using accountD(1) [OF acc] by (cases "ps_pools s k") (auto simp: or_default_def key_pool_default_def busy_once_def)
  have ids: "state_id (en_state e) < ps_next s" if "e \<in> set (kp_entries ?p)" "en_state e \<noteq> Idle" for e
    using that busy_ids [OF inv acc] by (cases "ps_pools s k") (auto simp: or_default_def key_pool_default_def)
  note eff = checkout_account [OF sec busy ids]
  let ?T = "case out of Expired hs \<Rightarrow> Reaping k hs | Reuse h \<Rightarrow> Holding k h (ps_next s) | ReusePanic \<Rightarrow> Panicked
      | Reserve \<Rightarrow> Booting k (ps_next s) | Park \<Rightarrow> Parked k (ps_next s)"
  show ?thesis
  proof (rule account_pool [OF acc, where k = k and q = q and t = t and T' = "Some ?T" and p = ?p])
    show "busy_once (mset (kp_entries q))" using eff by blast
    show "task_claim (Some ?T) = Some (k, en_state e) \<or>
        en_state e \<in> en_state ` set (kp_entries ?p) \<and> task_claim (ps_tasks s t) \<noteq> Some (k, en_state e)"
      if "e \<in> set (kp_entries q)" "en_state e \<noteq> Idle" for e
      using eff that fine by (auto simp: t task_claim_def split: checkout_outcome.split)
    show "pool_names (mset (kp_entries ?p)) \<union> task_names (ps_tasks s t)
        \<subseteq> pool_names (mset (kp_entries q)) \<union> task_names (Some ?T)"
      using eff by (auto simp: t task_names_def split: checkout_outcome.splits)
  qed (simp_all add: checkout_turn_def sec t task_claim_def)
qed

lemma promote_turn_account:
  assumes inv: "pool_inv (pool_cap sp) s" and acc: "account_inv s" and t: "ps_tasks s t = Some (Booted k rid h)"
  shows "account_inv (promote_turn now t k rid h s)"
proof -
  obtain p where p: "ps_pools s k = Some p" and "\<exists>e \<in> set (kp_entries p). en_state e = Reserving rid"
    using pool_invD(2) [OF inv t] by (auto simp: task_ok_def backs_def)
  then obtain i where i: "position (\<lambda>e. en_state e = Reserving rid) (kp_entries p) = Some i"
    using position_None [of "\<lambda>e. en_state e = Reserving rid" "kp_entries p"] by (meson not_Some_eq)
  then have l: "i < length (kp_entries p)" "en_state (kp_entries p ! i) = Reserving rid" using position_Some by fastforce+
  let ?x = "kp_entries p ! i"
  let ?e = "?x\<lparr>en_state := Live (ps_next s), en_handle := Some h, en_last_idle_at := now\<rparr>"
  let ?q = "p\<lparr>kp_entries := (kp_entries p)[i := ?e]\<rparr>"
  let ?rest = "mset (kp_entries p) - {#?x#}"
  have x: "?x \<in># mset (kp_entries p)" using l(1) by simp
  have none: "en_handle ?x = None" using pool_invD(1) [OF inv p] l by (auto simp: pool_ok_def entry_ok_def dest!: bspec [OF _ nth_mem])
  have q: "mset (kp_entries ?q) = add_mset ?e ?rest" using l(1) by (simp add: mset_update)
  have old: "mset (kp_entries p) = add_mset ?x ?rest" using x by simp
  have ids: "state_id (en_state e) < ps_next s" if "e \<in># ?rest" "en_state e \<noteq> Idle" for e
    using that(2) busy_ids [OF inv acc p] in_diffD [OF that(1)] by simp
  have other: "en_state e \<noteq> Reserving rid" if "e \<in># ?rest" for e
    using busy_once_other [OF accountD(1) [OF acc p] x _ that] l(2) by simp
  have turn: "promote_turn now t k rid h s = set_task t (Some (Holding k h (ps_next s)))
      (s\<lparr>ps_pools := (ps_pools s)(k \<mapsto> ?q), ps_next := ps_next s + 1\<rparr>)"
    by (simp add: promote_turn_def promote_def p i)
  show ?thesis
    unfolding turn
  proof (rule account_pool [OF acc, where k = k and q = ?q and t = t and T' = "Some (Holding k h (ps_next s))" and p = p])
    show "busy_once (mset (kp_entries ?q))"
      unfolding q by (intro busy_once_add busy_once_mono [OF accountD(1) [OF acc p]]) (use ids in fastforce)+
    show "task_claim (Some (Holding k h (ps_next s))) = Some (k, en_state e) \<or>
        en_state e \<in> en_state ` set (kp_entries p) \<and> task_claim (ps_tasks s t) \<noteq> Some (k, en_state e)"
      if e: "e \<in> set (kp_entries ?q)" "en_state e \<noteq> Idle" for e
    proof -
      have "e = ?e \<or> e \<in># ?rest" using e(1) q by (metis insert_iff set_mset_add_mset_insert set_mset_mset)
      moreover have "e \<in> set (kp_entries p)" "en_state e \<noteq> Reserving rid" if "e \<in># ?rest"
        using other [OF that] in_diffD [OF that] by simp_all
      ultimately show ?thesis by (auto simp: t task_claim_def)
    qed
    show "pool_names (mset (kp_entries p)) \<union> task_names (ps_tasks s t)
        \<subseteq> pool_names (mset (kp_entries ?q)) \<union> task_names (Some (Holding k h (ps_next s)))"
      unfolding q by (subst old) (auto simp: pool_names_add none t task_names_def)
  qed (simp_all add: p t or_default_def task_claim_def)
qed

lemma clean_turn_account:
  assumes inv: "pool_inv cap s" and acc: "account_inv s" and t: "ps_tasks s t = Some (Cleaning k rid h)"
  shows "account_inv (clean_turn t k rid h s)"
proof -
  obtain p where p: "ps_pools s k = Some p" using pool_invD(2) [OF inv t] by (auto simp: task_ok_def backs_def)
  obtain w q where d: "drop_reservation_section rid (Some p) = (w, q)" by fastforce
  obtain q' where q: "q = Some q'" "kp_entries q' = filter (\<lambda>e. en_state e \<noteq> Reserving rid) (kp_entries p)"
    using drop_reservation_ok [OF d pool_invD(1) [OF inv p]] by blast
  have turn: "clean_turn t k rid h s = set_task t (map_option Tearing h)
      (s\<lparr>ps_pools := (ps_pools s)(k \<mapsto> q'), ps_fired := fire w (ps_fired s)\<rparr>)"
    by (simp add: clean_turn_def p d q(1))
  have none: "en_handle e = None" if "e \<in> set (kp_entries p)" "en_state e = Reserving rid" for e
    using pool_invD(1) [OF inv p] that by (auto simp: pool_ok_def entry_ok_def)
  show ?thesis
    unfolding turn
  proof (rule account_pool [OF acc, where k = k and q = q' and t = t and T' = "map_option Tearing h" and p = p])
    show "busy_once (mset (kp_entries q'))"
      unfolding q(2) by (rule busy_once_mono [OF accountD(1) [OF acc p]]) simp
    show "pool_names (mset (kp_entries p)) \<union> task_names (ps_tasks s t)
        \<subseteq> pool_names (mset (kp_entries q')) \<union> task_names (map_option Tearing h)"
      using none by (cases h) (fastforce simp: q pool_names_def t task_names_def)+
  qed (auto simp: p q t or_default_def task_claim_def)
qed

lemma release_turn_account:
  assumes inv: "pool_inv cap s" and acc: "account_inv s" and t: "ps_tasks s t = Some (Releasing k i d)"
  shows "account_inv (release_turn now t k i d s)"
proof -
  obtain p where p: "ps_pools s k = Some p" and "\<exists>e \<in> set (kp_entries p). en_state e = Live i"
    using pool_invD(2) [OF inv t] by (auto simp: task_ok_def backs_def)
  then obtain j where j: "position (\<lambda>e. en_state e = Live i) (kp_entries p) = Some j"
    using position_None [of "\<lambda>e. en_state e = Live i" "kp_entries p"] by (meson not_Some_eq)
  then have l: "j < length (kp_entries p)" "en_state (kp_entries p ! j) = Live i" using position_Some by fastforce+
  let ?x = "kp_entries p ! j"
  let ?rest = "mset (kp_entries p) - {#?x#}"
  have x: "?x \<in># mset (kp_entries p)" using l(1) by simp
  have "entry_ok ?x" using pool_invD(1) [OF inv p] l(1) by (simp add: pool_ok_def)
  then obtain h where h: "en_handle ?x = Some h" using l(2) by (auto simp: entry_ok_def)
  have other: "Live i \<noteq> en_state e" "e \<in> set (kp_entries p)" if "e \<in># ?rest" for e
    using busy_once_other [OF accountD(1) [OF acc p] x _ that] l(2) in_diffD [OF that] by force+
  have old: "mset (kp_entries p) = add_mset ?x ?rest" using x by simp
  have small: "busy_once ?rest" by (rule busy_once_mono [OF accountD(1) [OF acc p]]) simp
  show ?thesis
  proof (cases d)
    case ReturnIdle
    let ?e = "?x\<lparr>en_state := Idle, en_last_idle_at := now, en_handle := map_option (handle_touch now) (en_handle ?x)\<rparr>"
    define q where "q = snd (notify_one_waiter (p\<lparr>kp_entries := (kp_entries p)[j := ?e]\<rparr>))"
    have q: "mset (kp_entries q) = add_mset ?e ?rest" using l(1) by (simp add: q_def mset_update)
    obtain w where "notify_one_waiter (p\<lparr>kp_entries := (kp_entries p)[j := ?e]\<rparr>) = (w, q)"
      by (metis q_def prod.collapse)
    then have turn: "release_turn now t k i d s = set_task t None
        (s\<lparr>ps_pools := (ps_pools s)(k \<mapsto> q), ps_fired := fire w (ps_fired s)\<rparr>)"
      by (simp add: release_turn_def release_section_def p j ReturnIdle Let_def)
    show ?thesis
      unfolding turn
    proof (rule account_pool [OF acc, where k = k and q = q and t = t and T' = None and p = p])
      show "busy_once (mset (kp_entries q))" unfolding q by (intro busy_once_add small) simp
      show "task_claim None = Some (k, en_state e) \<or>
          en_state e \<in> en_state ` set (kp_entries p) \<and> task_claim (ps_tasks s t) \<noteq> Some (k, en_state e)"
        if e: "e \<in> set (kp_entries q)" "en_state e \<noteq> Idle" for e
      proof -
        have "e \<in># add_mset ?e ?rest" using e(1) q by (metis set_mset_mset)
        then have "e \<in># ?rest" using e(2) by auto
        then show ?thesis using other [of e] by (auto simp: t task_claim_def)
      qed
      show "pool_names (mset (kp_entries p)) \<union> task_names (ps_tasks s t)
          \<subseteq> pool_names (mset (kp_entries q)) \<union> task_names None"
        unfolding q by (subst old) (auto simp: pool_names_add h handle_touch_def t task_names_def)
    qed (simp_all add: p t or_default_def task_claim_def)
  next
    case Destroy
    define q where "q = snd (notify_one_waiter (p\<lparr>kp_entries := vec_swap_remove j (kp_entries p)\<rparr>))"
    have q: "mset (kp_entries q) = ?rest" using l(1) by (simp add: q_def mset_vec_swap_remove)
    obtain w where "notify_one_waiter (p\<lparr>kp_entries := vec_swap_remove j (kp_entries p)\<rparr>) = (w, q)"
      by (metis q_def prod.collapse)
    then have turn: "release_turn now t k i d s = set_task t (Some (Tearing h))
        (s\<lparr>ps_pools := (ps_pools s)(k \<mapsto> q), ps_fired := fire w (ps_fired s)\<rparr>)"
      by (simp add: release_turn_def release_section_def p j Destroy h)
    show ?thesis
      unfolding turn
    proof (rule account_pool [OF acc, where k = k and q = q and t = t and T' = "Some (Tearing h)" and p = p])
      show "busy_once (mset (kp_entries q))" unfolding q by (rule small)
      show "task_claim (Some (Tearing h)) = Some (k, en_state e) \<or>
          en_state e \<in> en_state ` set (kp_entries p) \<and> task_claim (ps_tasks s t) \<noteq> Some (k, en_state e)"
        if e: "e \<in> set (kp_entries q)" "en_state e \<noteq> Idle" for e
      proof -
        have "e \<in># ?rest" using e(1) q by (metis set_mset_mset)
        then show ?thesis using other [of e] by (auto simp: t task_claim_def)
      qed
      show "pool_names (mset (kp_entries p)) \<union> task_names (ps_tasks s t)
          \<subseteq> pool_names (mset (kp_entries q)) \<union> task_names (Some (Tearing h))"
        unfolding q by (subst old) (auto simp: pool_names_add h t task_names_def)
    qed (simp_all add: p t or_default_def task_claim_def)
  qed
qed

lemma cancel_turn_account:
  assumes acc: "account_inv s" and t: "ps_tasks s t = Some (Cancelling k w waited)"
  shows "account_inv (cancel_turn sp t k w waited s)"
proof (cases "ps_pools s k")
  case None
  then have same: "(ps_pools s)(k := cancel_waiter w (ps_pools s k)) = ps_pools s" by (auto simp: cancel_waiter_def)
  show ?thesis
    by (rule account_task [OF acc, where t = t and T' = None])
      (simp_all add: cancel_turn_def same t task_claim_def task_names_def)
next
  case (Some p)
  show ?thesis
    by (rule account_pool [OF acc, where t = t and T' = None and k = k and p = p
          and q = "p\<lparr>kp_waiters := filter (\<lambda>v. v \<noteq> w) (kp_waiters p)\<rparr>"])
      (use accountD(1) [OF acc Some] in
        \<open>auto simp: cancel_turn_def cancel_waiter_def Some or_default_def t task_claim_def task_names_def\<close>)
qed

lemma quiet_step_account:
  assumes acc: "account_inv s" and step: "pool_step sp c s = Some s'" and fine: "lossless c s"
    and quiet: "\<And>t now. c \<noteq> TakeLock t now"
  shows "account_inv s'"
proof (cases c)
  case (StartCheckout t key)
  show ?thesis
    by (rule account_task [OF acc, where t = t and T' = "Some (Entering key)"])
      (use step in \<open>auto simp: StartCheckout checkout_start_def task_claim_def task_names_def split: if_splits\<close>)
next
  case (CallTeardown t ok)
  show ?thesis
    by (rule account_task [OF acc, where t = t and T' = "ps_tasks s' t"])
      (use step fine in \<open>auto simp: CallTeardown teardown_turn_def lossless_def task_claim_def task_names_def tear_down_def
         split: option.splits pool_task.splits list.splits\<close>)
next
  case (WakeUp t)
  show ?thesis
    by (rule account_task [OF acc, where t = t and T' = "ps_tasks s' t"])
      (use step in \<open>auto simp: WakeUp wake_turn_def task_claim_def task_names_def
         split: option.splits pool_task.splits if_splits\<close>)
next
  case (TimeOut t waited)
  show ?thesis
    by (rule account_task [OF acc, where t = t and T' = "ps_tasks s' t"])
      (use step in \<open>auto simp: TimeOut expire_turn_def task_claim_def task_names_def
         split: option.splits pool_task.splits if_splits\<close>)
next
  case (CallCreate t now created)
  show ?thesis
    by (rule account_task [OF acc, where t = t and T' = "ps_tasks s' t"])
      (use step in \<open>auto simp: CallCreate boot_turn_def task_claim_def task_names_def created_handle_def
         split: option.splits pool_task.splits sum.splits\<close>)
next
  case (Release t d)
  show ?thesis
    by (rule account_task [OF acc, where t = t and T' = "ps_tasks s' t"])
      (use step in \<open>auto simp: Release finish_turn_def task_claim_def task_names_def
         split: option.splits pool_task.splits\<close>)
next
  case (DropFuture t rt)
  show ?thesis
    by (rule account_task [OF acc, where t = t and T' = "ps_tasks s' t"])
      (use step fine in \<open>auto simp: DropFuture drop_turn_def lossless_def task_claim_def task_names_def
         split: option.splits pool_task.splits if_splits\<close>)
qed (use quiet in blast)

lemma lock_turn_account:
  assumes inv: "pool_inv (pool_cap sp) s" and acc: "account_inv s" and step: "lock_turn sp now t s = Some s'"
  shows "account_inv s'"
  using step
  by (auto simp: lock_turn_def checkout_turn_account [OF inv acc] promote_turn_account [OF inv acc]
      clean_turn_account [OF inv acc] release_turn_account [OF inv acc] cancel_turn_account [OF acc]
      split: option.splits pool_task.splits)

lemma pool_reach_account: "pool_reach sp lossless s \<Longrightarrow> account_inv s"
proof (induction rule: pool_reach.induct)
  case reach_new
  show ?case by (simp add: account_inv_def owned_slots_def pool_new_def)
next
  case (reach_step s c s')
  then show ?case
    by (cases "\<exists>t now. c = TakeLock t now")
      (auto intro: lock_turn_account [OF pool_reach_inv [OF reach_step.hyps(1)]] quiet_step_account)
qed


text \<open>A boot fails while another checkout waits; the clean-up frees the slot and wakes the waiter.\<close>

definition failed_boot :: "pool_op list" where
  "failed_boot = [StartCheckout 1 demo_pool_key, TakeLock 1 0, StartCheckout 2 demo_pool_key, TakeLock 2 0,
     CallCreate 1 0 (Err (InvalidArgument ''boot'')), TakeLock 1 0, WakeUp 2, TakeLock 2 0]"


end
