(* ===== verification/Task_Updates.thy ===== *)
theory Task_Updates
  imports Core_Errors "HOL-Library.Char_ord" "HOL-Library.List_Lexorder" "HOL-Library.Product_Lexorder"
begin

text \<open>
  Live updates of a task: the replay cursor (\<^verbatim>\<open>baml-rt-provenance/src/task_graph_reader.rs\<close>), the
  broadcaster, the replay-then-live session and its handler (\<^verbatim>\<open>baml-rt-a2a/src/task_update_broadcaster.rs\<close>,
  \<^verbatim>\<open>task_update_session.rs\<close>, \<^verbatim>\<open>handlers.rs\<close>) and the recorders that write updates
  (\<^verbatim>\<open>task_subgraph_store.rs\<close>).  The provenance graph is the list of committed frames; what the
  broadcast channel answers to a receive is an argument, bounded by what it has not yet handed out.
  The theorems show that a subscriber sees every update exactly once and in order when writers take
  turns, and what goes wrong when they do not.
\<close>

subsection \<open>Cursors\<close>

type_synonym task_replay_cursor = "nat \<times> string"

datatype task_replay_cursor_error = InvalidAnchor string | EventOrderMismatch nat string

definition anchor_from_counter :: "nat \<Rightarrow> string" where
  "anchor_from_counter n = ''prov-'' @ show_nat n"

definition monotonic_counter :: "string \<Rightarrow> nat option" where
  "monotonic_counter raw = (case strip_prefix ''prov-'' raw of Some rest \<Rightarrow> parse_uint 64 rest | None \<Rightarrow> None)"

definition parse_event_order :: "string \<Rightarrow> (task_replay_cursor_error, nat) result" where
  "parse_event_order anchor = ok_or (monotonic_counter anchor) (InvalidAnchor anchor)"

definition cursor_from_anchor :: "string \<Rightarrow> (task_replay_cursor_error, task_replay_cursor) result" where
  "cursor_from_anchor anchor = res_bind (parse_event_order anchor) (\<lambda>event_order. Ok (event_order, anchor))"

definition cursor_try_new :: "nat \<Rightarrow> string \<Rightarrow> (task_replay_cursor_error, task_replay_cursor) result" where
  "cursor_try_new event_order anchor =
     res_bind (parse_event_order anchor) (\<lambda>parsed.
       if parsed \<noteq> event_order then Err (EventOrderMismatch event_order anchor) else Ok (event_order, anchor))"

subsection \<open>Statuses and frames\<close>

datatype task_status_kind =
    Submitted | Working | InputRequired string | AuthRequired | Completed | StatusFailed string | Canceled | Rejected

definition as_wire_str :: "task_status_kind \<Rightarrow> string" where
  "as_wire_str k = (case k of Submitted \<Rightarrow> ''TASK_STATE_SUBMITTED'' | Working \<Rightarrow> ''TASK_STATE_WORKING''
     | InputRequired _ \<Rightarrow> ''TASK_STATE_INPUT_REQUIRED'' | AuthRequired \<Rightarrow> ''TASK_STATE_AUTH_REQUIRED''
     | Completed \<Rightarrow> ''TASK_STATE_COMPLETED'' | StatusFailed _ \<Rightarrow> ''TASK_STATE_FAILED''
     | Canceled \<Rightarrow> ''TASK_STATE_CANCELED'' | Rejected \<Rightarrow> ''TASK_STATE_REJECTED'')"

definition is_terminal_state :: "string \<Rightarrow> bool" where
  "is_terminal_state s \<longleftrightarrow>
     s \<in> {''TASK_STATE_COMPLETED'', ''TASK_STATE_FAILED'', ''TASK_STATE_CANCELED'', ''TASK_STATE_REJECTED''}"

definition allowed_pairs :: "(string \<times> string) list" where
  "allowed_pairs =
     (let sub = ''TASK_STATE_SUBMITTED''; wrk = ''TASK_STATE_WORKING''; cmp = ''TASK_STATE_COMPLETED'';
          fld = ''TASK_STATE_FAILED''; can = ''TASK_STATE_CANCELED''; rej = ''TASK_STATE_REJECTED'';
          inp = ''TASK_STATE_INPUT_REQUIRED''; aut = ''TASK_STATE_AUTH_REQUIRED''
      in [(sub, wrk), (sub, cmp), (sub, fld), (sub, can), (sub, rej), (sub, inp), (sub, aut),
          (wrk, inp), (wrk, aut), (wrk, cmp), (wrk, fld), (wrk, can), (wrk, rej),
          (inp, wrk), (inp, can), (inp, rej), (inp, cmp), (inp, fld),
          (aut, wrk), (aut, can), (aut, rej), (aut, cmp), (aut, fld)])"

definition is_allowed_transition :: "string \<Rightarrow> string \<Rightarrow> bool" where
  "is_allowed_transition s t = (if s = t then True else if is_terminal_state s then False else (s, t) \<in> set allowed_pairs)"

record task_state_props =
  tsp_task :: string
  tsp_new_status :: task_status_kind
  tsp_old_status :: "task_status_kind option"
  tsp_transitioned_at_ms :: nat
  tsp_activity_anchor :: string

record artifact_ref =
  ar_task_id :: string
  ar_artifact_id :: "string option"
  ar_artifact_type :: "string option"

record message_ref =
  mr_context_id :: string
  mr_message_id :: string

datatype task_update_frame =
    StatusTransition task_state_props task_replay_cursor
  | ArtifactGenerated artifact_ref task_replay_cursor
  | MessageReceived message_ref task_replay_cursor
  | MessageSent message_ref task_replay_cursor

fun frame_cursor :: "task_update_frame \<Rightarrow> task_replay_cursor" where
  "frame_cursor (StatusTransition _ c) = c"
| "frame_cursor (ArtifactGenerated _ c) = c"
| "frame_cursor (MessageReceived _ c) = c"
| "frame_cursor (MessageSent _ c) = c"

subsection \<open>The broadcaster\<close>

definition DEFAULT_CAPACITY :: nat where
  "DEFAULT_CAPACITY = 256"

definition SHARD_COUNT :: "64 word" where
  "SHARD_COUNT = 16"

record task_stream_key =
  tk_ctx :: string
  tk_task :: string

text \<open>The channels are numbered; the hash of a key is an argument.\<close>

definition shard_index :: "(task_stream_key \<Rightarrow> 64 word) \<Rightarrow> task_stream_key \<Rightarrow> nat" where
  "shard_index hash key = unat (and (hash key) (SHARD_COUNT - 1))"

record task_update_broadcaster =
  bc_shards :: "(task_stream_key \<rightharpoonup> nat) list"
  bc_capacity :: nat
  bc_next :: nat

definition broadcaster_with_capacity :: "nat \<Rightarrow> task_update_broadcaster" where
  "broadcaster_with_capacity capacity =
     \<lparr>bc_shards = replicate (unat SHARD_COUNT) Map.empty, bc_capacity = max capacity 1, bc_next = 0\<rparr>"

definition shard_for :: "(task_stream_key \<Rightarrow> 64 word) \<Rightarrow> task_stream_key \<Rightarrow> task_update_broadcaster \<Rightarrow> (task_stream_key \<rightharpoonup> nat)" where
  "shard_for hash key bc = bc_shards bc ! shard_index hash key"

definition ensure_sender ::
  "(task_stream_key \<Rightarrow> 64 word) \<Rightarrow> task_stream_key \<Rightarrow> task_update_broadcaster \<Rightarrow> nat \<times> task_update_broadcaster" where
  "ensure_sender hash key bc =
     (case shard_for hash key bc key of
        Some c \<Rightarrow> (c, bc)
      | None \<Rightarrow> (bc_next bc,
                  bc\<lparr>bc_shards := (bc_shards bc)[shard_index hash key := (shard_for hash key bc)(key \<mapsto> bc_next bc)],
                     bc_next := bc_next bc + 1\<rparr>))"

definition bc_retire :: "(task_stream_key \<Rightarrow> 64 word) \<Rightarrow> task_stream_key \<Rightarrow> task_update_broadcaster \<Rightarrow> task_update_broadcaster" where
  "bc_retire hash key bc =
     bc\<lparr>bc_shards := (bc_shards bc)[shard_index hash key := (shard_for hash key bc)(key := None)]\<rparr>"

subsection \<open>The session\<close>

datatype replay_error = Source string | InvalidCursor task_replay_cursor_error

datatype session_state = Replaying "(replay_error, task_update_frame) result list" | Live | Closed

record task_update_session =
  tu_state :: session_state
  tu_last_cursor :: "task_replay_cursor option"

text \<open>What a receive on the channel answers.\<close>

datatype recv_outcome = Got task_update_frame | Lagged nat | ChannelClosed

datatype session_turn = Return "(replay_error, task_update_frame option) result" | Continue

definition seen :: "task_replay_cursor option \<Rightarrow> task_update_frame \<Rightarrow> bool" where
  "seen c f = (case c of Some l \<Rightarrow> frame_cursor f \<le> l | None \<Rightarrow> False)"

text \<open>One turn of the loop of \<^verbatim>\<open>next\<close>, with the answer of the channel and of the replay source in case they
  are asked.\<close>

definition next_turn ::
  "recv_outcome \<Rightarrow> (replay_error, (replay_error, task_update_frame) result list) result \<Rightarrow> task_update_session
   \<Rightarrow> session_turn \<times> task_update_session" where
  "next_turn recv replay s =
     (case tu_state s of
        Replaying items \<Rightarrow>
          (case items of
             Inr f # rest \<Rightarrow> (Return (Ok (Some f)), \<lparr>tu_state = Replaying rest, tu_last_cursor = Some (frame_cursor f)\<rparr>)
           | Inl e # rest \<Rightarrow> (Return (Err e), s\<lparr>tu_state := Replaying rest\<rparr>)
           | [] \<Rightarrow> (Continue, s\<lparr>tu_state := Live\<rparr>))
      | Live \<Rightarrow>
          (case recv of
             Got f \<Rightarrow>
               (if seen (tu_last_cursor s) f then (Continue, s)
                else (Return (Ok (Some f)), s\<lparr>tu_last_cursor := Some (frame_cursor f)\<rparr>))
           | ChannelClosed \<Rightarrow> (Return (Ok None), s\<lparr>tu_state := Closed\<rparr>)
           | Lagged _ \<Rightarrow>
               (case replay of
                  Inl e \<Rightarrow> (Return (Err e), s)
                | Inr items \<Rightarrow> (Continue, s\<lparr>tu_state := Replaying items\<rparr>)))
      | Closed \<Rightarrow> (Return (Ok None), s))"

fun drain_items ::
  "(replay_error, task_update_frame) result list \<Rightarrow> task_replay_cursor option \<Rightarrow> task_update_frame list
   \<Rightarrow> (replay_error, task_update_frame list) result \<times> task_update_session" where
  "drain_items [] last_cursor acc = (Ok acc, \<lparr>tu_state = Live, tu_last_cursor = last_cursor\<rparr>)"
| "drain_items (Inr f # rest) last_cursor acc = drain_items rest (Some (frame_cursor f)) (acc @ [f])"
| "drain_items (Inl e # rest) last_cursor acc = (Err e, \<lparr>tu_state = Replaying rest, tu_last_cursor = last_cursor\<rparr>)"

definition drain_replay ::
  "task_update_session \<Rightarrow> (replay_error, task_update_frame list) result \<times> task_update_session" where
  "drain_replay s =
     (case tu_state s of
        Replaying items \<Rightarrow> drain_items items (tu_last_cursor s) []
      | _ \<Rightarrow> (Ok [], s))"

text \<open>The replay source over the graph: the frames after the cursor, in the order of their cursors.\<close>

definition graph_replay_since :: "task_update_frame list \<Rightarrow> task_replay_cursor option \<Rightarrow> task_update_frame list" where
  "graph_replay_since graph since = sort_key frame_cursor (filter (\<lambda>f. \<not> seen since f) graph)"

definition session_open :: "task_update_frame list \<Rightarrow> task_replay_cursor option \<Rightarrow> task_update_session" where
  "session_open graph since =
     \<lparr>tu_state = Replaying (map Inr (graph_replay_since graph since)), tu_last_cursor = since\<rparr>"

subsection \<open>What a subscriber is sent\<close>

text \<open>The wire types, with the fields the translation fills in; the other fields it leaves empty.\<close>

datatype message_role = UserRole | AgentRole

record wire_message =
  wm_message_id :: string
  wm_role :: message_role
  wm_texts :: "string list"

record task_status =
  ts_state :: "string option"
  ts_message :: "wire_message option"
  ts_timestamp :: "string option"

record task_status_update_event =
  su_context_id :: "string option"
  su_task_id :: "string option"
  su_status :: "task_status option"
  su_extra :: "(string \<times> string) list"

record task_artifact_update_event =
  au_context_id :: "string option"
  au_task_id :: "string option"
  au_last_chunk :: "bool option"
  au_append :: "bool option"
  au_artifact_id :: "string option"
  au_metadata :: "(string \<times> string) list option"

datatype task_update_event = StatusEvent task_status_update_event | ArtifactEvent task_artifact_update_event

definition task_node_for_task_id :: "string \<Rightarrow> string" where
  "task_node_for_task_id task = ''task'' @ '':'' @ task"

definition task_node_to_task_id :: "string \<Rightarrow> string" where
  "task_node_to_task_id raw = (case strip_prefix ''task:'' raw of Some stripped \<Rightarrow> stripped | None \<Rightarrow> raw)"

definition prompt_to_message :: "string \<Rightarrow> string \<Rightarrow> wire_message" where
  "prompt_to_message uuid prompt =
     \<lparr>wm_message_id = ''input-required:'' @ uuid, wm_role = AgentRole, wm_texts = [prompt]\<rparr>"

definition status_props_to_event :: "string \<Rightarrow> task_state_props \<Rightarrow> task_status_update_event" where
  "status_props_to_event uuid st =
     (let prompt_message = (case tsp_new_status st of InputRequired prompt \<Rightarrow> Some (prompt_to_message uuid prompt) | _ \<Rightarrow> None);
          extra = (case tsp_new_status st of StatusFailed reason \<Rightarrow> [(''error_reason'', reason)] | _ \<Rightarrow> []);
          status = \<lparr>ts_state = Some (as_wire_str (tsp_new_status st)), ts_message = prompt_message,
                    ts_timestamp = Some (show_nat (tsp_transitioned_at_ms st))\<rparr>
      in \<lparr>su_context_id = None, su_task_id = Some (task_node_to_task_id (tsp_task st)), su_status = Some status,
          su_extra = extra\<rparr>)"

definition artifact_ref_to_event :: "artifact_ref \<Rightarrow> task_artifact_update_event" where
  "artifact_ref_to_event a =
     \<lparr>au_context_id = None, au_task_id = Some (ar_task_id a), au_last_chunk = None, au_append = None,
      au_artifact_id = ar_artifact_id a,
      au_metadata = map_option (\<lambda>t. [(''artifact_type'', t)]) (ar_artifact_type a)\<rparr>"

text \<open>Messages have no event on the wire.  The identifier minted for the prompt of a frame is an argument.\<close>

definition frame_to_task_update_event :: "(task_update_frame \<Rightarrow> string) \<Rightarrow> task_update_frame \<Rightarrow> task_update_event option" where
  "frame_to_task_update_event uuid f =
     (case f of
        StatusTransition st _ \<Rightarrow> Some (StatusEvent (status_props_to_event (uuid f) st))
      | ArtifactGenerated a _ \<Rightarrow> Some (ArtifactEvent (artifact_ref_to_event a))
      | MessageReceived _ _ \<Rightarrow> None
      | MessageSent _ _ \<Rightarrow> None)"

definition drain_replay_into_events ::
  "(task_update_frame \<Rightarrow> string) \<Rightarrow> task_update_session \<Rightarrow> (replay_error, task_update_event list) result \<times> task_update_session" where
  "drain_replay_into_events uuid s =
     (case drain_replay s of
        (Inl e, s') \<Rightarrow> (Err e, s')
      | (Inr frames, s') \<Rightarrow> (Ok (List.map_filter (frame_to_task_update_event uuid) frames), s'))"

text \<open>The backlog part of the handler: an error of the replay is logged and the handler goes on.\<close>

definition subscribe_backlog ::
  "(task_update_frame \<Rightarrow> string) \<Rightarrow> task_update_session \<Rightarrow> task_update_event list \<times> task_update_session" where
  "subscribe_backlog uuid s =
     (case drain_replay_into_events uuid s of (Inr events, s') \<Rightarrow> (events, s') | (Inl _, s') \<Rightarrow> ([], s'))"

text \<open>The live part: turns of the session until it ends or fails, with the events sent so far; it is waiting
  when it is live and the channel has not answered.  The answers of the channel, each with that of the replay source
  should it be asked, are an argument.\<close>

type_synonym channel_answer = "recv_outcome \<times> (replay_error, (replay_error, task_update_frame) result list) result"

datatype stream_end = SemanticFinal | Waiting task_update_session

fun turn_answer :: "session_state \<Rightarrow> channel_answer list \<Rightarrow> (channel_answer \<times> channel_answer list) option" where
  "turn_answer Live [] = None"
| "turn_answer Live (a # rest) = Some (a, rest)"
| "turn_answer (Replaying _) rest = Some ((ChannelClosed, Ok []), rest)"
| "turn_answer Closed rest = Some ((ChannelClosed, Ok []), rest)"

fun state_weight :: "session_state \<Rightarrow> nat" where
  "state_weight (Replaying items) = Suc (length items)"
| "state_weight _ = 0"

function subscribe_live ::
  "(task_update_frame \<Rightarrow> string) \<Rightarrow> channel_answer list \<Rightarrow> task_update_session \<Rightarrow> task_update_event list
   \<Rightarrow> task_update_event list \<times> stream_end" where
  "subscribe_live uuid answers s sent =
     (case turn_answer (tu_state s) answers of
        None \<Rightarrow> (sent, Waiting s)
      | Some ((recv, replay), rest) \<Rightarrow>
          (case next_turn recv replay s of
             (Continue, s') \<Rightarrow> subscribe_live uuid rest s' sent
           | (Return (Inr (Some f)), s') \<Rightarrow>
               subscribe_live uuid rest s' (sent @ (case frame_to_task_update_event uuid f of Some ev \<Rightarrow> [ev] | None \<Rightarrow> []))
           | (Return (Inr None), _) \<Rightarrow> (sent, SemanticFinal)
           | (Return (Inl _), _) \<Rightarrow> (sent, SemanticFinal)))"
  by pat_completeness auto

lemma turn_decreases:
  assumes "turn_answer (tu_state s) answers = Some ((recv, replay), rest)"
    and "(turn, s') = next_turn recv replay s" "\<And>e. turn \<noteq> Return (Inl e)" "turn \<noteq> Return (Inr None)"
  shows "length rest < length answers \<or> length rest = length answers \<and> state_weight (tu_state s') < state_weight (tu_state s)"
  using assms
  by (cases "(tu_state s, answers)" rule: turn_answer.cases)
    (auto simp: next_turn_def split: list.splits sum.splits recv_outcome.splits if_splits)

termination subscribe_live
  by (relation "measures [\<lambda>(uuid, answers, s, sent). length answers, \<lambda>(uuid, answers, s, sent). state_weight (tu_state s)]")
    (auto dest!: turn_decreases)

declare subscribe_live.simps [simp del]

text \<open>What the handler sends after the snapshot of the task, which it takes before it opens the session.\<close>

definition subscribe_stream ::
  "(task_update_frame \<Rightarrow> string) \<Rightarrow> bool \<Rightarrow> channel_answer list \<Rightarrow> task_update_session \<Rightarrow> task_update_event list \<times> stream_end" where
  "subscribe_stream uuid terminal_snapshot answers s =
     (case subscribe_backlog uuid s of
        (events, s') \<Rightarrow> if terminal_snapshot then (events, SemanticFinal) else subscribe_live uuid answers s' events)"

subsection \<open>Writers and a subscriber\<close>

datatype update_writer = Minted task_update_frame | Committed task_update_frame | Sent task_update_frame

datatype subscriber = Absent | Subscribed nat | Attached nat task_update_session

text \<open>One task in one process: the counter of the anchors, the committed frames, the channels, the writers under
  way, the subscriber with what its receiver has not read yet, and the frames it was given.\<close>

record update_system =
  uy_counter :: nat
  uy_graph :: "task_update_frame list"
  uy_bc :: task_update_broadcaster
  uy_writers :: "nat \<rightharpoonup> update_writer"
  uy_sub :: subscriber
  uy_unread :: "task_update_frame list"
  uy_got :: "task_update_frame list"

definition update_system_new :: "nat \<Rightarrow> update_system" where
  "update_system_new counter =
     \<lparr>uy_counter = counter, uy_graph = [], uy_bc = broadcaster_with_capacity DEFAULT_CAPACITY, uy_writers = Map.empty,
      uy_sub = Absent, uy_unread = [], uy_got = []\<rparr>"

fun frame_status :: "task_update_frame \<Rightarrow> task_state_props option" where
  "frame_status (StatusTransition st _) = Some st"
| "frame_status _ = None"

text \<open>The head pointer of the task: the status committed last.\<close>

definition latest_state :: "task_update_frame list \<Rightarrow> task_state_props option" where
  "latest_state graph = (case List.map_filter frame_status graph of [] \<Rightarrow> None | sts \<Rightarrow> Some (last sts))"

definition status_allowed :: "task_state_props option \<Rightarrow> string \<Rightarrow> bool" where
  "status_allowed current new_state =
     (case map_option (\<lambda>st. as_wire_str (tsp_new_status st)) current of
        None \<Rightarrow> new_state = ''TASK_STATE_SUBMITTED''
      | Some cur \<Rightarrow> if is_terminal_state cur then False else is_allowed_transition cur new_state)"

text \<open>\<^verbatim>\<open>record_status_update\<close> up to its write: the gate on the current state, and a cursor from the counter.\<close>

definition begin_status :: "task_stream_key \<Rightarrow> nat \<Rightarrow> task_status_kind \<Rightarrow> nat \<Rightarrow> update_system \<Rightarrow> update_system" where
  "begin_status key w kind ts s =
     (let current = latest_state (uy_graph s)
      in if \<not> status_allowed current (as_wire_str kind) then s
         else (let anchor = anchor_from_counter (uy_counter s); s' = s\<lparr>uy_counter := uy_counter s + 1\<rparr>
               in case cursor_from_anchor anchor of
                    Inl _ \<Rightarrow> s'
                  | Inr cursor \<Rightarrow>
                      s'\<lparr>uy_writers := (uy_writers s)(w \<mapsto> Minted (StatusTransition
                           \<lparr>tsp_task = task_node_for_task_id (tk_task key), tsp_new_status = kind,
                            tsp_old_status = map_option tsp_new_status current, tsp_transitioned_at_ms = ts,
                            tsp_activity_anchor = snd cursor\<rparr> cursor))\<rparr>))"

definition begin_artifact :: "nat \<Rightarrow> artifact_ref \<Rightarrow> update_system \<Rightarrow> update_system" where
  "begin_artifact w a s =
     (let anchor = anchor_from_counter (uy_counter s); s' = s\<lparr>uy_counter := uy_counter s + 1\<rparr>
      in case cursor_from_anchor anchor of
           Inl _ \<Rightarrow> s'
         | Inr cursor \<Rightarrow> s'\<lparr>uy_writers := (uy_writers s)(w \<mapsto> Minted (ArtifactGenerated a cursor))\<rparr>)"

definition terminal_frame :: "task_update_frame \<Rightarrow> bool" where
  "terminal_frame f = (case frame_status f of Some st \<Rightarrow> is_terminal_state (as_wire_str (tsp_new_status st)) | None \<Rightarrow> False)"

text \<open>The tail of a recorder: the frame goes to the channel of the task, which the recorder of a terminal status
  then retires.\<close>

definition publish ::
  "(task_stream_key \<Rightarrow> 64 word) \<Rightarrow> task_stream_key \<Rightarrow> nat \<Rightarrow> task_update_frame \<Rightarrow> update_system \<Rightarrow> update_system" where
  "publish hash key w frame s =
     (case ensure_sender hash key (uy_bc s) of
        (c, bc) \<Rightarrow>
          s\<lparr>uy_bc := bc,
             uy_writers := (uy_writers s)(w := (if terminal_frame frame then Some (Sent frame) else None)),
             uy_unread := (case uy_sub s of
                             Absent \<Rightarrow> uy_unread s
                           | Subscribed c' \<Rightarrow> if c' = c then uy_unread s @ [frame] else uy_unread s
                           | Attached c' _ \<Rightarrow> if c' = c then uy_unread s @ [frame] else uy_unread s)\<rparr>)"

text \<open>The answer of the receiver: it may have to skip frames it holds; it is closed once its channel is gone from
  the registry and it has nothing left.\<close>

definition receive ::
  "(task_stream_key \<Rightarrow> 64 word) \<Rightarrow> task_stream_key \<Rightarrow> nat \<Rightarrow> nat \<Rightarrow> update_system \<Rightarrow> (recv_outcome \<times> task_update_frame list) option" where
  "receive hash key c lag s =
     (if 0 < lag \<and> lag \<le> length (uy_unread s) then Some (Lagged lag, drop lag (uy_unread s))
      else (case uy_unread s of
              f # rest \<Rightarrow> Some (Got f, rest)
            | [] \<Rightarrow> if shard_for hash key (uy_bc s) key \<noteq> Some c then Some (ChannelClosed, []) else None))"

definition session_poll ::
  "(task_stream_key \<Rightarrow> 64 word) \<Rightarrow> task_stream_key \<Rightarrow> nat \<Rightarrow> update_system \<Rightarrow> update_system option" where
  "session_poll hash key lag s =
     (case uy_sub s of
        Attached c sess \<Rightarrow>
          (case (if tu_state sess = Live then receive hash key c lag s else Some (ChannelClosed, uy_unread s)) of
             None \<Rightarrow> None
           | Some (recv, unread) \<Rightarrow>
               (case next_turn recv (Ok (map Inr (graph_replay_since (uy_graph s) (tu_last_cursor sess)))) sess of
                  (turn, sess') \<Rightarrow>
                    Some (s\<lparr>uy_sub := Attached c sess', uy_unread := unread,
                             uy_got := (case turn of Return (Inr (Some f)) \<Rightarrow> uy_got s @ [f] | _ \<Rightarrow> uy_got s)\<rparr>)))
      | _ \<Rightarrow> None)"

datatype update_op =
    BeginStatus nat task_status_kind nat
  | BeginArtifact nat artifact_ref
  | CommitWrite nat
  | PublishWrite nat
  | RetireWrite nat
  | SubscribeOp
  | OpenReplay
  | Poll nat

text \<open>The subscription comes first, the replay is opened after it.\<close>

definition update_step ::
  "(task_stream_key \<Rightarrow> 64 word) \<Rightarrow> task_stream_key \<Rightarrow> task_replay_cursor option \<Rightarrow> update_op \<Rightarrow> update_system \<Rightarrow> update_system option" where
  "update_step hash key since c s =
     (case c of
        BeginStatus w kind ts \<Rightarrow> if uy_writers s w = None then Some (begin_status key w kind ts s) else None
      | BeginArtifact w a \<Rightarrow> if uy_writers s w = None then Some (begin_artifact w a s) else None
      | CommitWrite w \<Rightarrow>
          (case uy_writers s w of
             Some (Minted f) \<Rightarrow> Some (s\<lparr>uy_graph := uy_graph s @ [f], uy_writers := (uy_writers s)(w \<mapsto> Committed f)\<rparr>)
           | _ \<Rightarrow> None)
      | PublishWrite w \<Rightarrow> (case uy_writers s w of Some (Committed f) \<Rightarrow> Some (publish hash key w f s) | _ \<Rightarrow> None)
      | RetireWrite w \<Rightarrow>
          (case uy_writers s w of
             Some (Sent f) \<Rightarrow> Some (s\<lparr>uy_bc := bc_retire hash key (uy_bc s), uy_writers := (uy_writers s)(w := None)\<rparr>)
           | _ \<Rightarrow> None)
      | SubscribeOp \<Rightarrow>
          (case uy_sub s of
             Absent \<Rightarrow> (case ensure_sender hash key (uy_bc s) of
                          (ch, bc) \<Rightarrow> Some (s\<lparr>uy_bc := bc, uy_sub := Subscribed ch, uy_unread := []\<rparr>))
           | _ \<Rightarrow> None)
      | OpenReplay \<Rightarrow>
          (case uy_sub s of
             Subscribed ch \<Rightarrow> Some (s\<lparr>uy_sub := Attached ch (session_open (uy_graph s) since)\<rparr>)
           | _ \<Rightarrow> None)
      | Poll lag \<Rightarrow> session_poll hash key lag s)"

fun update_run ::
  "(task_stream_key \<Rightarrow> 64 word) \<Rightarrow> task_stream_key \<Rightarrow> task_replay_cursor option \<Rightarrow> update_op list \<Rightarrow> update_system \<Rightarrow> update_system option" where
  "update_run hash key since [] s = Some s"
| "update_run hash key since (c # cs) s = Option.bind (update_step hash key since c s) (update_run hash key since cs)"

text \<open>Writers take turns: none begins while another is under way.\<close>

definition writers_serial :: "update_op \<Rightarrow> update_system \<Rightarrow> bool" where
  "writers_serial c s =
     (case c of BeginStatus _ _ _ \<Rightarrow> uy_writers s = Map.empty | BeginArtifact _ _ \<Rightarrow> uy_writers s = Map.empty | _ \<Rightarrow> True)"

inductive update_reach ::
  "(task_stream_key \<Rightarrow> 64 word) \<Rightarrow> task_stream_key \<Rightarrow> task_replay_cursor option \<Rightarrow> nat \<Rightarrow> update_system \<Rightarrow> bool"
  for hash key since counter where
  update_new: "update_reach hash key since counter (update_system_new counter)"
| update_next: "update_reach hash key since counter s \<Longrightarrow> writers_serial c s \<Longrightarrow> update_step hash key since c s = Some s'
     \<Longrightarrow> update_reach hash key since counter s'"

text \<open>A run in which writers take turns.\<close>

fun serial_run ::
  "(task_stream_key \<Rightarrow> 64 word) \<Rightarrow> task_stream_key \<Rightarrow> task_replay_cursor option \<Rightarrow> update_op list \<Rightarrow> update_system \<Rightarrow> update_system option" where
  "serial_run hash key since [] s = Some s"
| "serial_run hash key since (c # cs) s =
     (if writers_serial c s then Option.bind (update_step hash key since c s) (serial_run hash key since cs) else None)"

text \<open>The statuses a task went through, in the order of the graph.\<close>

definition lifecycle :: "task_update_frame list \<Rightarrow> string list" where
  "lifecycle graph = map (\<lambda>st. as_wire_str (tsp_new_status st)) (List.map_filter frame_status graph)"

subsection \<open>The shards are one map\<close>

definition channel_of :: "(task_stream_key \<Rightarrow> 64 word) \<Rightarrow> task_update_broadcaster \<Rightarrow> (task_stream_key \<rightharpoonup> nat)" where
  "channel_of hash bc key = shard_for hash key bc key"

definition bc_ok :: "(task_stream_key \<Rightarrow> 64 word) \<Rightarrow> task_update_broadcaster \<Rightarrow> bool" where
  "bc_ok hash bc \<longleftrightarrow> length (bc_shards bc) = 16 \<and> (\<forall>key c. channel_of hash bc key = Some c \<longrightarrow> c < bc_next bc)"

lemma shard_index_less: "shard_index hash key < 16"
proof -
  have "and (hash key) 15 \<le> (15 :: 64 word)" by (rule word_and_le1)
  then have "unat (and (hash key) 15) \<le> unat (15 :: 64 word)" by (simp only: word_le_nat_alt)
  then show ?thesis by (simp add: shard_index_def SHARD_COUNT_def)
qed

lemma channel_of_update:
  assumes "length (bc_shards bc) = 16"
  shows "channel_of hash (bc\<lparr>bc_shards := (bc_shards bc)[shard_index hash key := (shard_for hash key bc)(key := c)], bc_next := n\<rparr>)
         = (channel_of hash bc)(key := c)"
    and "channel_of hash (bc\<lparr>bc_shards := (bc_shards bc)[shard_index hash key := (shard_for hash key bc)(key := c)]\<rparr>)
         = (channel_of hash bc)(key := c)"
  using assms shard_index_less [of hash]
  by (auto simp: channel_of_def shard_for_def nth_list_update fun_eq_iff)

lemma ensure_sender_channel:
  assumes "bc_ok hash bc" and "ensure_sender hash key bc = (c, bc')"
  shows "channel_of hash bc' = (channel_of hash bc)(key \<mapsto> c)" and "bc_ok hash bc'" and "c < bc_next bc'"
    and "bc_next bc \<le> bc_next bc'" and "channel_of hash bc key = Some c \<or> c = bc_next bc"
proof -
  have all: "channel_of hash bc' = (channel_of hash bc)(key \<mapsto> c) \<and> bc_ok hash bc' \<and> c < bc_next bc'
    \<and> bc_next bc \<le> bc_next bc' \<and> (channel_of hash bc key = Some c \<or> c = bc_next bc)"
  proof (cases "channel_of hash bc key")
    case None
    have len: "length (bc_shards bc) = 16" and old: "\<And>k d. channel_of hash bc k = Some d \<Longrightarrow> d < bc_next bc"
      using assms(1) by (auto simp: bc_ok_def)
    have e: "c = bc_next bc" "bc' = bc\<lparr>bc_shards := (bc_shards bc)[shard_index hash key :=
        (shard_for hash key bc)(key \<mapsto> bc_next bc)], bc_next := bc_next bc + 1\<rparr>"
      using assms(2) None by (auto simp: ensure_sender_def channel_of_def)
    have "channel_of hash bc' = (channel_of hash bc)(key \<mapsto> c)" by (simp only: e channel_of_update(1) [OF len])
    moreover from this have "bc_ok hash bc'"
      using old len by (auto simp: bc_ok_def e(1) less_Suc_eq) (auto simp: e(2) dest!: old)
    ultimately show ?thesis by (simp add: e)
  next
    case (Some d)
    then have "c = d" "bc' = bc" using assms(2) by (auto simp: ensure_sender_def channel_of_def)
    then show ?thesis using Some assms(1) by (auto simp: bc_ok_def fun_upd_idem)
  qed
  then show "channel_of hash bc' = (channel_of hash bc)(key \<mapsto> c)" "bc_ok hash bc'" "c < bc_next bc'"
    "bc_next bc \<le> bc_next bc'" "channel_of hash bc key = Some c \<or> c = bc_next bc"
    by blast+
qed

lemma retire_channel:
  assumes "bc_ok hash bc"
  shows "channel_of hash (bc_retire hash key bc) = (channel_of hash bc)(key := None)"
    and "bc_ok hash (bc_retire hash key bc)" and "bc_next (bc_retire hash key bc) = bc_next bc"
proof -
  have len: "length (bc_shards bc) = 16" using assms by (simp add: bc_ok_def)
  show ch: "channel_of hash (bc_retire hash key bc) = (channel_of hash bc)(key := None)"
    unfolding bc_retire_def by (rule channel_of_update(2) [OF len])
  show "bc_ok hash (bc_retire hash key bc)"
    using assms unfolding bc_ok_def ch by (auto simp: bc_retire_def split: if_splits)
  show "bc_next (bc_retire hash key bc) = bc_next bc" by (simp add: bc_retire_def)
qed

lemma broadcaster_ok: "bc_ok hash (broadcaster_with_capacity n)" "channel_of hash (broadcaster_with_capacity n) = Map.empty"
  using shard_index_less [of hash]
  by (auto simp: bc_ok_def channel_of_def shard_for_def broadcaster_with_capacity_def SHARD_COUNT_def fun_eq_iff)

subsection \<open>Frames in order\<close>

definition in_order :: "task_update_frame list \<Rightarrow> bool" where
  "in_order fs \<longleftrightarrow> sorted_wrt (\<lambda>f g. frame_cursor f < frame_cursor g) fs"

text \<open>The frames after one cursor and up to another.\<close>

definition between :: "task_replay_cursor option \<Rightarrow> task_replay_cursor option \<Rightarrow> task_update_frame list \<Rightarrow> task_update_frame list" where
  "between since till graph = filter (\<lambda>f. \<not> seen since f \<and> seen till f) graph"

lemma in_order_append:
  "in_order (fs @ gs) \<longleftrightarrow> in_order fs \<and> in_order gs \<and> (\<forall>f \<in> set fs. \<forall>g \<in> set gs. frame_cursor f < frame_cursor g)"
  by (auto simp: in_order_def sorted_wrt_append)

lemma in_order_Cons: "in_order (f # gs) \<longleftrightarrow> in_order gs \<and> (\<forall>g \<in> set gs. frame_cursor f < frame_cursor g)"
  by (auto simp: in_order_def)

lemma in_order_filter: "in_order fs \<Longrightarrow> in_order (filter P fs)"
  by (simp add: in_order_def sorted_wrt_filter)

lemma replay_in_order:
  assumes "in_order graph"
  shows "graph_replay_since graph since = filter (\<lambda>f. \<not> seen since f) graph"
proof -
  have "sorted_wrt (\<lambda>f g. frame_cursor f \<le> frame_cursor g) (filter (\<lambda>f. \<not> seen since f) graph)"
    using in_order_filter [OF assms] unfolding in_order_def by (rule sorted_wrt_mono_rel [rotated]) simp
  then show ?thesis by (simp add: graph_replay_since_def sorted_map sort_key_id_if_sorted)
qed

lemma seen_mono: "seen c f \<Longrightarrow> frame_cursor g \<le> frame_cursor f \<Longrightarrow> seen c g"
  by (auto simp: seen_def split: option.splits)

lemma seen_Some [simp]: "seen (Some c) f \<longleftrightarrow> frame_cursor f \<le> c"
  by (simp add: seen_def)

text \<open>Moving on to the first frame that was not seen.\<close>

lemma between_step:
  assumes ord: "in_order (A @ f # B)" and A: "\<And>a. a \<in> set A \<Longrightarrow> seen c a" and f: "\<not> seen c f" "\<not> seen since f"
  shows "between since (Some (frame_cursor f)) (A @ f # B) = between since c (A @ f # B) @ [f]"
proof -
  have lt: "frame_cursor a < frame_cursor f" if "a \<in> set A" for a
    using ord that by (auto simp: in_order_append)
  have gt: "frame_cursor f < frame_cursor b" if "b \<in> set B" for b
    using ord that by (auto simp: in_order_append in_order_Cons)
  have B: "\<not> seen c b" "\<not> frame_cursor b \<le> frame_cursor f" if "b \<in> set B" for b
    using gt [OF that] less_imp_le [OF gt [OF that]] f(1) seen_mono [of c b f] by auto
  have "filter (\<lambda>b. \<not> seen since b \<and> seen c b) B = []" "filter (\<lambda>b. \<not> seen since b \<and> frame_cursor b \<le> frame_cursor f) B = []"
    using B by (auto simp: filter_empty_conv)
  moreover have "filter (\<lambda>a. \<not> seen since a \<and> frame_cursor a \<le> frame_cursor f) A = filter (\<lambda>a. \<not> seen since a \<and> seen c a) A"
    using lt A by (auto intro!: filter_cong simp: less_imp_le)
  ultimately show ?thesis using f by (simp add: between_def)
qed

lemma unseen_step:
  assumes "in_order (A @ f # B)" "\<And>a. a \<in> set A \<Longrightarrow> seen c a" "\<not> seen c f"
  shows "filter (\<lambda>g. \<not> seen (Some (frame_cursor f)) g) (A @ f # B) = filter (\<lambda>g. \<not> seen c g) B"
proof -
  have "\<not> frame_cursor b \<le> frame_cursor f \<and> \<not> seen c b" if "b \<in> set B" for b
  proof -
    have gt: "frame_cursor f < frame_cursor b" using assms(1) that by (simp add: in_order_append in_order_Cons)
    then show ?thesis using assms(3) less_imp_le [OF gt] seen_mono [of c b f] by auto
  qed
  moreover have "frame_cursor a \<le> frame_cursor f" if "a \<in> set A" for a
    using assms(1) that by (auto simp: in_order_append less_imp_le)
  ultimately show ?thesis by (auto simp: filter_empty_conv intro!: filter_cong)
qed

subsection \<open>The invariant of a subscription\<close>

definition writers_ok :: "update_system \<Rightarrow> bool" where
  "writers_ok s \<longleftrightarrow>
     uy_writers s = Map.empty
     \<or> (\<exists>w f. uy_writers s = [w \<mapsto> Minted f] \<and> fst (frame_cursor f) < uy_counter s
            \<and> (\<forall>g \<in> set (uy_graph s). frame_cursor g < frame_cursor f))
     \<or> (\<exists>w f G. uy_writers s = [w \<mapsto> Committed f] \<and> uy_graph s = G @ [f])
     \<or> (\<exists>w f. uy_writers s = [w \<mapsto> Sent f])"

definition unsent :: "update_system \<Rightarrow> task_update_frame list" where
  "unsent s = (if \<exists>w f. uy_writers s w = Some (Committed f) then [last (uy_graph s)] else [])"

text \<open>What the receiver has not read is a stretch of the graph; while its channel is registered, only the frame of
  a writer between its commit and its send comes after it.\<close>

definition receiver_ok ::
  "(task_stream_key \<Rightarrow> 64 word) \<Rightarrow> task_stream_key \<Rightarrow> nat \<Rightarrow> task_update_frame list \<Rightarrow> update_system \<Rightarrow> bool" where
  "receiver_ok hash key c past s \<longleftrightarrow>
     c < bc_next (uy_bc s) \<and>
     (\<exists>later. uy_graph s = past @ uy_unread s @ later \<and> (channel_of hash (uy_bc s) key = Some c \<longrightarrow> later = unsent s))"

definition session_ok ::
  "task_replay_cursor option \<Rightarrow> task_update_frame list \<Rightarrow> task_update_session \<Rightarrow> update_system \<Rightarrow> bool" where
  "session_ok since past sess s \<longleftrightarrow>
     uy_got s = between since (tu_last_cursor sess) (uy_graph s) \<and>
     (\<forall>f. seen since f \<longrightarrow> seen (tu_last_cursor sess) f) \<and>
     (tu_last_cursor sess = since \<or> (\<exists>g \<in> set (uy_graph s). tu_last_cursor sess = Some (frame_cursor g))) \<and>
     (case tu_state sess of
        Replaying items \<Rightarrow>
          (\<exists>L M. uy_graph s = L @ M \<and> items = map Inr (filter (\<lambda>f. \<not> seen (tu_last_cursor sess) f) L) \<and> length past \<le> length L)
      | _ \<Rightarrow> \<forall>f \<in> set past. seen (tu_last_cursor sess) f)"

definition sub_ok :: "(task_stream_key \<Rightarrow> 64 word) \<Rightarrow> task_stream_key \<Rightarrow> task_replay_cursor option \<Rightarrow> update_system \<Rightarrow> bool" where
  "sub_ok hash key since s =
     (case uy_sub s of
        Absent \<Rightarrow> uy_got s = []
      | Subscribed c \<Rightarrow> uy_got s = [] \<and> (\<exists>past. receiver_ok hash key c past s)
      | Attached c sess \<Rightarrow> \<exists>past. receiver_ok hash key c past s \<and> session_ok since past sess s)"

definition update_inv :: "(task_stream_key \<Rightarrow> 64 word) \<Rightarrow> task_stream_key \<Rightarrow> task_replay_cursor option \<Rightarrow> update_system \<Rightarrow> bool" where
  "update_inv hash key since s \<longleftrightarrow>
     bc_ok hash (uy_bc s) \<and> in_order (uy_graph s) \<and> (\<forall>f \<in> set (uy_graph s). fst (frame_cursor f) < uy_counter s)
     \<and> writers_ok s \<and> sub_ok hash key since s"

lemma sub_ok_cong:
  assumes "uy_graph s' = uy_graph s" "uy_bc s' = uy_bc s" "uy_sub s' = uy_sub s" "uy_unread s' = uy_unread s"
    "uy_got s' = uy_got s" "unsent s' = unsent s"
  shows "sub_ok hash key since s' = sub_ok hash key since s"
  using assms by (simp add: sub_ok_def receiver_ok_def session_ok_def cong: subscriber.case_cong session_state.case_cong)

lemma unsent_Map:
  "uy_writers s = Map.empty \<Longrightarrow> unsent s = []"
  "uy_writers s = [w \<mapsto> Minted f] \<Longrightarrow> unsent s = []"
  "uy_writers s = [w \<mapsto> Committed f] \<Longrightarrow> uy_graph s = G @ [f] \<Longrightarrow> unsent s = [f]"
  "uy_writers s = [w \<mapsto> Sent f] \<Longrightarrow> unsent s = []"
  by (auto simp: unsent_def split: if_splits)

lemma begin_inv:
  assumes inv: "update_inv hash key since s" and idle: "uy_writers s = Map.empty"
    and new: "s' = s\<lparr>uy_counter := uy_counter s + 1, uy_writers := (uy_writers s)(w \<mapsto> Minted f)\<rparr>"
    and c: "fst (frame_cursor f) = uy_counter s"
  shows "update_inv hash key since s'"
proof -
  have lt: "frame_cursor g < frame_cursor f" if "g \<in> set (uy_graph s)" for g
    using inv that c by (cases "frame_cursor g"; cases "frame_cursor f") (auto simp: update_inv_def)
  have "writers_ok s'"
    unfolding writers_ok_def using lt c idle by (intro disjI2 disjI1 exI [of _ w] exI [of _ f]) (simp add: new)
  moreover have "unsent s' = unsent s" by (auto simp: unsent_def new idle)
  then have "sub_ok hash key since s'" using inv sub_ok_cong [of s' s] by (simp add: new update_inv_def)
  ultimately show ?thesis using inv by (auto simp: update_inv_def new less_Suc_eq)
qed

lemma session_ok_commit:
  assumes ok: "session_ok since past sess s" and lt: "\<And>g. g \<in> set (uy_graph s) \<Longrightarrow> frame_cursor g < frame_cursor f"
    and s': "uy_graph s' = uy_graph s @ [f]" "uy_got s' = uy_got s"
  shows "session_ok since past sess s'"
proof -
  have not_new: "\<not> (\<not> seen since f \<and> seen (tu_last_cursor sess) f)"
    using ok lt by (auto simp: session_ok_def dest!: lt leD)
  have "between since (tu_last_cursor sess) (uy_graph s @ [f]) = between since (tu_last_cursor sess) (uy_graph s)"
    using not_new by (auto simp: between_def)
  moreover have "\<exists>L M. uy_graph s @ [f] = L @ M \<and> items = map Inr (filter (\<lambda>f. \<not> seen (tu_last_cursor sess) f) L)
      \<and> length past \<le> length L" if r: "tu_state sess = Replaying items" for items
  proof -
    obtain L M where "uy_graph s = L @ M" "items = map Inr (filter (\<lambda>f. \<not> seen (tu_last_cursor sess) f) L)"
        "length past \<le> length L"
      using ok by (auto simp: session_ok_def r)
    then show ?thesis by (intro exI [of _ L] exI [of _ "M @ [f]"]) simp
  qed
  ultimately show ?thesis
    using ok by (cases "tu_state sess") (auto simp: session_ok_def s')
qed

lemma commit_inv:
  assumes inv: "update_inv hash key since s" and w: "uy_writers s w = Some (Minted f)"
    and new: "s' = s\<lparr>uy_graph := uy_graph s @ [f], uy_writers := (uy_writers s)(w \<mapsto> Committed f)\<rparr>"
  shows "update_inv hash key since s'"
proof -
  have one: "uy_writers s = [w \<mapsto> Minted f]" and lt: "\<And>g. g \<in> set (uy_graph s) \<Longrightarrow> frame_cursor g < frame_cursor f"
    and count: "fst (frame_cursor f) < uy_counter s"
    using inv w by (auto simp: update_inv_def writers_ok_def split: if_splits)
  have u: "unsent s = []" "unsent s' = [f]"
    using unsent_Map(2) [OF one] unsent_Map(3) [of s' w f "uy_graph s"] by (simp_all add: new one)
  have rec: "receiver_ok hash key c past s'" if "receiver_ok hash key c past s" for c past
    using that by (auto simp: receiver_ok_def new u [unfolded new])
  have "sub_ok hash key since s'"
  proof (cases "uy_sub s")
    case (Attached c sess)
    then obtain past where "receiver_ok hash key c past s" "session_ok since past sess s"
      using inv by (auto simp: update_inv_def sub_ok_def)
    then have "receiver_ok hash key c past s'" "session_ok since past sess s'"
      using rec session_ok_commit [of since past sess s f s'] lt by (auto simp: new)
    then show ?thesis using Attached by (auto simp: sub_ok_def new)
  qed (use inv rec in \<open>auto simp: update_inv_def sub_ok_def new\<close>)
  moreover have "writers_ok s'" by (auto simp: writers_ok_def new one)
  moreover have "in_order (uy_graph s')" using inv lt by (auto simp: update_inv_def new in_order_append in_order_Cons) (simp add: in_order_def)
  ultimately show ?thesis using inv count by (auto simp: update_inv_def new)
qed

lemma publish_inv:
  assumes inv: "update_inv hash key since s" and w: "uy_writers s w = Some (Committed f)"
  shows "update_inv hash key since (publish hash key w f s)"
proof -
  obtain ch bc where e: "ensure_sender hash key (uy_bc s) = (ch, bc)" by fastforce
  let ?s' = "publish hash key w f s"
  have ok: "bc_ok hash (uy_bc s)" using inv by (simp add: update_inv_def)
  note ens = ensure_sender_channel [OF ok e]
  obtain G where one: "uy_writers s = [w \<mapsto> Committed f]" and G: "uy_graph s = G @ [f]"
    using inv w by (auto simp: update_inv_def writers_ok_def split: if_splits)
  have fields: "uy_graph ?s' = uy_graph s" "uy_bc ?s' = bc" "uy_sub ?s' = uy_sub s"
      "uy_got ?s' = uy_got s" "uy_counter ?s' = uy_counter s"
    by (simp_all add: publish_def e)
  have ws: "uy_writers ?s' = (if terminal_frame f then [w \<mapsto> Sent f] else Map.empty)" by (simp add: publish_def e one)
  have u: "unsent s = [f]" "unsent ?s' = []" using unsent_Map(3) [OF one G] ws unsent_Map(1,4) [of ?s'] by (auto split: if_splits)
  have rec: "receiver_ok hash key c past ?s'"
    if r: "receiver_ok hash key c past s" and un: "uy_unread ?s' = (if c = ch then uy_unread s @ [f] else uy_unread s)" for c past
  proof -
    obtain later where l: "uy_graph s = past @ uy_unread s @ later" "channel_of hash (uy_bc s) key = Some c \<Longrightarrow> later = [f]"
        "c < bc_next (uy_bc s)"
      using r u by (auto simp: receiver_ok_def)
    have less: "c < bc_next bc" using l(3) ens(4) by simp
    show ?thesis
    proof (cases "c = ch")
      case True
      then have "channel_of hash (uy_bc s) key = Some c" using ens(5) l(3) by auto
      then show ?thesis using l(1,2) less True un by (auto simp: receiver_ok_def fields u(2))
    next
      case False
      then have "channel_of hash bc key \<noteq> Some c" using ens(1) by auto
      then show ?thesis using l(1) less False un by (auto simp: receiver_ok_def fields)
    qed
  qed
  have sess: "session_ok since past ses ?s' = session_ok since past ses s" for past ses
    by (simp add: session_ok_def fields cong: session_state.case_cong)
  have "sub_ok hash key since ?s'"
  proof (cases "uy_sub s")
    case Absent
    then show ?thesis using inv by (simp add: update_inv_def sub_ok_def fields)
  next
    case (Subscribed c)
    then have "uy_unread ?s' = (if c = ch then uy_unread s @ [f] else uy_unread s)" by (simp add: publish_def e)
    then show ?thesis using inv rec Subscribed by (auto simp: update_inv_def sub_ok_def fields)
  next
    case (Attached c ses)
    then have "uy_unread ?s' = (if c = ch then uy_unread s @ [f] else uy_unread s)" by (simp add: publish_def e)
    then show ?thesis using inv rec Attached sess by (auto simp: update_inv_def sub_ok_def fields)
  qed
  moreover have "writers_ok ?s'" by (cases "terminal_frame f") (auto simp: writers_ok_def ws)
  ultimately show ?thesis using inv ens(2) by (simp add: update_inv_def fields)
qed

lemma retire_inv:
  assumes inv: "update_inv hash key since s" and w: "uy_writers s w = Some (Sent f)"
    and s': "s' = s\<lparr>uy_bc := bc_retire hash key (uy_bc s), uy_writers := (uy_writers s)(w := None)\<rparr>"
  shows "update_inv hash key since s'"
proof -
  have ok: "bc_ok hash (uy_bc s)" using inv by (simp add: update_inv_def)
  note ret = retire_channel [OF ok]
  have one: "uy_writers s = [w \<mapsto> Sent f]"
    using inv w by (auto simp: update_inv_def writers_ok_def split: if_splits)
  have rec: "receiver_ok hash key c past s'" if "receiver_ok hash key c past s" for c past
    using that ret(1,3) [of key] by (auto simp: receiver_ok_def s')
  have sess: "session_ok since past ses s' = session_ok since past ses s" for past ses
    by (simp add: session_ok_def s' cong: session_state.case_cong)
  have "sub_ok hash key since s'"
    using inv rec sess by (cases "uy_sub s") (auto simp: update_inv_def sub_ok_def s')
  moreover have "writers_ok s'" by (simp add: writers_ok_def s' one)
  ultimately show ?thesis using inv ret(2) by (simp add: update_inv_def s')
qed

lemma receiver_ok_cong:
  "uy_graph s' = uy_graph s \<Longrightarrow> uy_bc s' = uy_bc s \<Longrightarrow> uy_unread s' = uy_unread s \<Longrightarrow> uy_writers s' = uy_writers s
   \<Longrightarrow> receiver_ok hash key c past s' = receiver_ok hash key c past s"
  by (simp add: receiver_ok_def unsent_def)

lemma replay_items:
  assumes "in_order graph" and "length past \<le> length graph"
  shows "\<exists>L M. graph = L @ M \<and> map Inr (graph_replay_since graph c)
      = (map Inr (filter (\<lambda>f. \<not> seen c f) L) :: (replay_error, task_update_frame) result list) \<and> length past \<le> length L"
  using assms by (intro exI [of _ graph] exI [of _ "[]"]) (simp add: replay_in_order)

lemma session_moves_on:
  assumes ok: "session_ok since past sess s" and ord: "in_order (uy_graph s)"
    and g: "uy_graph s = A @ f # B" "\<And>a. a \<in> set A \<Longrightarrow> seen (tu_last_cursor sess) a" "\<not> seen (tu_last_cursor sess) f"
  shows "uy_got s @ [f] = between since (Some (frame_cursor f)) (uy_graph s)"
    and "\<forall>h. seen since h \<longrightarrow> seen (Some (frame_cursor f)) h"
proof -
  have since: "\<not> seen since f" using ok g(3) by (auto simp: session_ok_def)
  show "uy_got s @ [f] = between since (Some (frame_cursor f)) (uy_graph s)"
    using between_step [OF ord [unfolded g(1)] g(2,3) since] ok by (simp add: session_ok_def g(1))
  show "\<forall>h. seen since h \<longrightarrow> seen (Some (frame_cursor f)) h"
    using since seen_mono [of since _ f] by (metis linear seen_Some)
qed

lemma poll_replaying:
  assumes ok: "session_ok since past sess s" and ord: "in_order (uy_graph s)" and st: "tu_state sess = Replaying (Inr f # rest)"
    and s': "s' = s\<lparr>uy_sub := u, uy_got := uy_got s @ [f]\<rparr>"
  shows "session_ok since past \<lparr>tu_state = Replaying rest, tu_last_cursor = Some (frame_cursor f)\<rparr> s'"
proof -
  obtain L M where L: "uy_graph s = L @ M" "Inr f # rest = map Inr (filter (\<lambda>g. \<not> seen (tu_last_cursor sess) g) L)"
      "length past \<le> length L"
    using ok by (auto simp: session_ok_def st)
  then obtain fs where fs: "filter (\<lambda>g. \<not> seen (tu_last_cursor sess) g) L = f # fs" "rest = map Inr fs"
    by (cases "filter (\<lambda>g. \<not> seen (tu_last_cursor sess) g) L") auto
  then obtain A B where AB: "L = A @ f # B" "\<And>a. a \<in> set A \<Longrightarrow> seen (tu_last_cursor sess) a"
      "\<not> seen (tu_last_cursor sess) f" "fs = filter (\<lambda>g. \<not> seen (tu_last_cursor sess) g) B"
    by (auto simp: filter_eq_Cons_iff)
  have graph: "uy_graph s = A @ f # (B @ M)" using L(1) AB(1) by simp
  note adv = session_moves_on [OF ok ord graph AB(2,3)]
  have "in_order (A @ f # B)" using ord in_order_append [of "A @ f # B" M] unfolding L(1) AB(1) by blast
  then have "rest = map Inr (filter (\<lambda>g. \<not> seen (Some (frame_cursor f)) g) L)"
    using unseen_step [of A f B "tu_last_cursor sess"] AB fs(2) by simp
  then have "\<exists>L M. uy_graph s = L @ M \<and> rest = map Inr (filter (\<lambda>g. \<not> seen (Some (frame_cursor f)) g) L)
      \<and> length past \<le> length L"
    using L(1,3) by blast
  moreover have "f \<in> set (uy_graph s)" by (simp add: graph)
  ultimately show ?thesis using adv by (auto simp: session_ok_def s' simp del: seen_Some)
qed

lemma session_lagged:
  assumes ok: "session_ok since past sess s" and ord: "in_order (uy_graph s)"
    and len: "length past' \<le> length (uy_graph s)" and same: "uy_graph s' = uy_graph s" "uy_got s' = uy_got s"
  shows "session_ok since past' (sess\<lparr>tu_state := Replaying (map Inr (graph_replay_since (uy_graph s) (tu_last_cursor sess)))\<rparr>) s'"
  using ok replay_items [OF ord len, of "tu_last_cursor sess"] unfolding session_ok_def same by simp

lemma attached_inv:
  assumes inv: "update_inv hash key since s"
    and same: "uy_graph s' = uy_graph s" "uy_bc s' = uy_bc s" "uy_writers s' = uy_writers s" "uy_counter s' = uy_counter s"
    and new: "uy_sub s' = Attached c sess" "receiver_ok hash key c past s'" "session_ok since past sess s'"
  shows "update_inv hash key since s'"
proof -
  have "sub_ok hash key since s'" unfolding sub_ok_def new(1) using new(2,3) by auto
  moreover have "writers_ok s' = writers_ok s" by (simp add: writers_ok_def same)
  ultimately show ?thesis using inv by (simp add: update_inv_def same)
qed

lemma session_drained:
  assumes ok: "session_ok since past sess s" and st: "tu_state sess = Replaying []"
    and past: "uy_graph s = past @ us" and same: "uy_graph s' = uy_graph s" "uy_got s' = uy_got s"
  shows "session_ok since past (sess\<lparr>tu_state := Live\<rparr>) s'"
proof -
  obtain L M where L: "uy_graph s = L @ M" "filter (\<lambda>f. \<not> seen (tu_last_cursor sess) f) L = []" "length past \<le> length L"
    using ok by (auto simp: session_ok_def st)
  have "past = take (length past) L" using past L(1,3) by (metis append_eq_conv_conj take_append take_all diff_is_0_eq take_0 append_Nil2)
  then have "set past \<subseteq> set L" by (metis set_take_subset)
  then have "\<forall>f \<in> set past. seen (tu_last_cursor sess) f" using L(2) by (auto simp: filter_empty_conv)
  then show ?thesis using ok by (simp add: session_ok_def same)
qed

lemma session_skips:
  assumes ok: "session_ok since past sess s" and st: "tu_state sess = Live" and f: "seen (tu_last_cursor sess) f"
    and same: "uy_graph s' = uy_graph s" "uy_got s' = uy_got s"
  shows "session_ok since (past @ [f]) sess s'"
  using ok f by (simp add: session_ok_def same st)

lemma session_takes:
  assumes ok: "session_ok since past sess s" and ord: "in_order (uy_graph s)" and st: "tu_state sess = Live"
    and f: "\<not> seen (tu_last_cursor sess) f" and graph: "uy_graph s = past @ f # ms"
    and same: "uy_graph s' = uy_graph s" "uy_got s' = uy_got s @ [f]"
  shows "session_ok since (past @ [f]) (sess\<lparr>tu_last_cursor := Some (frame_cursor f)\<rparr>) s'"
proof -
  have pastseen: "seen (tu_last_cursor sess) a" if "a \<in> set past" for a using ok that by (simp add: session_ok_def st)
  note adv = session_moves_on [OF ok ord graph pastseen f]
  have "frame_cursor a \<le> frame_cursor f" if "a \<in> set past" for a
    using ord that by (auto simp: graph in_order_append less_imp_le)
  moreover have "f \<in> set (uy_graph s)" by (simp add: graph)
  ultimately show ?thesis using adv by (auto simp: session_ok_def same st simp del: seen_Some) (simp_all add: seen_def)
qed

lemma session_closes:
  assumes "session_ok since past sess s" "tu_state sess = Live" "uy_graph s' = uy_graph s" "uy_got s' = uy_got s"
  shows "session_ok since past (sess\<lparr>tu_state := Closed\<rparr>) s'"
  using assms by (simp add: session_ok_def)

lemma receiver_moves:
  assumes r: "receiver_ok hash key c past s" and us: "uy_unread s = vs @ us"
    and same: "uy_graph s' = uy_graph s" "uy_bc s' = uy_bc s" "uy_writers s' = uy_writers s" "uy_unread s' = us"
  shows "receiver_ok hash key c (past @ vs) s'"
proof -
  have "unsent s' = unsent s" by (simp add: unsent_def same)
  then show ?thesis using r by (simp add: receiver_ok_def same us)
qed

lemma poll_replay_inv:
  assumes inv: "update_inv hash key since s" and step: "session_poll hash key lag s = Some s'"
    and sub: "uy_sub s = Attached c sess" and st: "tu_state sess = Replaying items"
    and r: "receiver_ok hash key c past s" and ok: "session_ok since past sess s" and ord: "in_order (uy_graph s)"
  shows "update_inv hash key since s'"
proof (cases items)
  case Nil
  have s': "s' = s\<lparr>uy_sub := Attached c (sess\<lparr>tu_state := Live\<rparr>)\<rparr>"
    using step st Nil by (simp add: session_poll_def sub next_turn_def)
  obtain us where us: "uy_graph s = past @ us" using r by (auto simp: receiver_ok_def)
  show ?thesis
  proof (rule attached_inv [OF inv])
    show "session_ok since past (sess\<lparr>tu_state := Live\<rparr>) s'"
      by (rule session_drained [OF ok _ us]) (simp_all add: st Nil s')
    show "receiver_ok hash key c past s'" using r receiver_ok_cong [of s' s] by (simp add: s')
  qed (simp_all add: s')
next
  case (Cons item ms)
  obtain f where f: "item = Inr f" using ok Cons by (auto simp: session_ok_def st map_eq_Cons_conv)
  have s': "s' = s\<lparr>uy_sub := Attached c \<lparr>tu_state = Replaying ms, tu_last_cursor = Some (frame_cursor f)\<rparr>,
      uy_got := uy_got s @ [f]\<rparr>"
    using step st Cons f by (simp add: session_poll_def sub next_turn_def)
  show ?thesis
  proof (rule attached_inv [OF inv])
    show "session_ok since past \<lparr>tu_state = Replaying ms, tu_last_cursor = Some (frame_cursor f)\<rparr> s'"
      by (rule poll_replaying [OF ok ord _ s']) (simp add: st Cons f)
    show "receiver_ok hash key c past s'" using r receiver_ok_cong [of s' s] by (simp add: s')
  qed (simp_all add: s')
qed

lemma poll_lag_inv:
  assumes inv: "update_inv hash key since s" and step: "session_poll hash key lag s = Some s'"
    and sub: "uy_sub s = Attached c sess" and st: "tu_state sess = Live"
    and r: "receiver_ok hash key c past s" and ok: "session_ok since past sess s" and ord: "in_order (uy_graph s)"
    and lag: "0 < lag" "lag \<le> length (uy_unread s)"
  shows "update_inv hash key since s'"
proof -
  let ?sess = "sess\<lparr>tu_state := Replaying (map Inr (graph_replay_since (uy_graph s) (tu_last_cursor sess)))\<rparr>"
  let ?past = "past @ take lag (uy_unread s)"
  have s': "s' = s\<lparr>uy_sub := Attached c ?sess, uy_unread := drop lag (uy_unread s)\<rparr>"
    using step st lag by (simp add: session_poll_def sub receive_def next_turn_def)
  have len: "length ?past \<le> length (uy_graph s)" using r by (auto simp: receiver_ok_def)
  show ?thesis
  proof (rule attached_inv [OF inv])
    show "session_ok since ?past ?sess s'" by (rule session_lagged [OF ok ord len]) (simp_all add: s')
    show "receiver_ok hash key c ?past s'"
      by (rule receiver_moves [OF r, where us = "drop lag (uy_unread s)"]) (simp_all add: s')
  qed (simp_all add: s')
qed

lemma poll_got_inv:
  assumes inv: "update_inv hash key since s" and step: "session_poll hash key lag s = Some s'"
    and sub: "uy_sub s = Attached c sess" and st: "tu_state sess = Live"
    and r: "receiver_ok hash key c past s" and ok: "session_ok since past sess s" and ord: "in_order (uy_graph s)"
    and recv: "receive hash key c lag s = Some (Got f, us)" and us: "uy_unread s = f # us"
  shows "update_inv hash key since s'"
proof (cases "seen (tu_last_cursor sess) f")
  case True
  then have s': "s' = s\<lparr>uy_sub := Attached c sess, uy_unread := us\<rparr>"
    using step st recv sub by (simp add: session_poll_def next_turn_def)
  show ?thesis
  proof (rule attached_inv [OF inv])
    show "session_ok since (past @ [f]) sess s'" by (rule session_skips [OF ok st True]) (simp_all add: s')
    show "receiver_ok hash key c (past @ [f]) s'" by (rule receiver_moves [OF r, where us = us]) (simp_all add: s' us)
  qed (simp_all add: s')
next
  case False
  let ?sess = "sess\<lparr>tu_last_cursor := Some (frame_cursor f)\<rparr>"
  have s': "s' = s\<lparr>uy_sub := Attached c ?sess, uy_unread := us, uy_got := uy_got s @ [f]\<rparr>"
    using step st recv False by (simp add: session_poll_def sub next_turn_def)
  obtain ms where ms: "uy_graph s = past @ f # ms" using r us by (auto simp: receiver_ok_def)
  show ?thesis
  proof (rule attached_inv [OF inv])
    show "session_ok since (past @ [f]) ?sess s'" by (rule session_takes [OF ok ord st False ms]) (simp_all add: s')
    show "receiver_ok hash key c (past @ [f]) s'" by (rule receiver_moves [OF r, where us = us]) (simp_all add: s' us)
  qed (simp_all add: s')
qed

lemma poll_closed_inv:
  assumes inv: "update_inv hash key since s" and step: "session_poll hash key lag s = Some s'"
    and sub: "uy_sub s = Attached c sess" and st: "tu_state sess = Live"
    and r: "receiver_ok hash key c past s" and ok: "session_ok since past sess s"
    and recv: "receive hash key c lag s = Some (ChannelClosed, us)" and us: "uy_unread s = us"
  shows "update_inv hash key since s'"
proof -
  have s': "s' = s\<lparr>uy_sub := Attached c (sess\<lparr>tu_state := Closed\<rparr>), uy_unread := us\<rparr>"
    using step st recv by (simp add: session_poll_def sub next_turn_def)
  show ?thesis
  proof (rule attached_inv [OF inv])
    show "session_ok since past (sess\<lparr>tu_state := Closed\<rparr>) s'" by (rule session_closes [OF ok st]) (simp_all add: s')
    show "receiver_ok hash key c past s'" using r receiver_ok_cong [of s' s] by (simp add: s' us)
  qed (simp_all add: s')
qed

lemma receive_cases:
  assumes "receive hash key c lag s = Some out"
  obtains (lag) "0 < lag" "lag \<le> length (uy_unread s)"
    | (got) f us where "out = (Got f, us)" "uy_unread s = f # us"
    | (closed) "out = (ChannelClosed, [])" "uy_unread s = []"
  using assms by (auto simp: receive_def split: if_splits list.splits)

lemma poll_inv:
  assumes inv: "update_inv hash key since s" and step: "session_poll hash key lag s = Some s'"
  shows "update_inv hash key since s'"
proof -
  obtain c sess where sub: "uy_sub s = Attached c sess" using step by (auto simp: session_poll_def split: subscriber.splits)
  obtain past where r: "receiver_ok hash key c past s" and ok: "session_ok since past sess s" and ord: "in_order (uy_graph s)"
    using inv by (auto simp: update_inv_def sub_ok_def sub)
  show ?thesis
  proof (cases "tu_state sess")
    case (Replaying items)
    then show ?thesis by (rule poll_replay_inv [OF inv step sub _ r ok ord])
  next
    case Closed
    then have s': "s' = s\<lparr>uy_sub := Attached c sess\<rparr>" using step by (simp add: session_poll_def sub next_turn_def)
    then have "s' = s" by (simp add: sub [symmetric])
    then show ?thesis using inv by simp
  next
    case Live
    then obtain out where out: "receive hash key c lag s = Some out"
      using step by (cases "receive hash key c lag s") (auto simp: session_poll_def sub)
    then show ?thesis
    proof (cases rule: receive_cases)
      case lag
      then show ?thesis by (rule poll_lag_inv [OF inv step sub Live r ok ord])
    next
      case (got f us)
      then show ?thesis using poll_got_inv [OF inv step sub Live r ok ord] out by simp
    next
      case closed
      then show ?thesis using poll_closed_inv [OF inv step sub Live r ok] out by simp
    qed
  qed
qed

lemma subscribe_inv:
  assumes inv: "update_inv hash key since s" and absent: "uy_sub s = Absent"
    and e: "ensure_sender hash key (uy_bc s) = (ch, bc)"
    and s': "s' = s\<lparr>uy_bc := bc, uy_sub := Subscribed ch, uy_unread := []\<rparr>"
  shows "update_inv hash key since s'"
proof -
  have ok: "bc_ok hash (uy_bc s)" using inv by (simp add: update_inv_def)
  note ens = ensure_sender_channel [OF ok e]
  have u: "unsent s' = unsent s" by (simp add: unsent_def s')
  obtain past where "uy_graph s = past @ unsent s"
    using inv by (auto simp: update_inv_def writers_ok_def unsent_Map intro: that)
  then have "receiver_ok hash key ch past s'" using ens(3) u by (auto simp: receiver_ok_def s')
  then have "sub_ok hash key since s'" using inv absent by (auto simp: sub_ok_def update_inv_def s')
  then show ?thesis using inv ens(2) by (auto simp: update_inv_def writers_ok_def s')
qed

lemma open_inv:
  assumes inv: "update_inv hash key since s" and sub: "uy_sub s = Subscribed ch"
    and s': "s' = s\<lparr>uy_sub := Attached ch (session_open (uy_graph s) since)\<rparr>"
  shows "update_inv hash key since s'"
proof -
  obtain past where r: "receiver_ok hash key ch past s" and none: "uy_got s = []" and ord: "in_order (uy_graph s)"
    using inv by (auto simp: update_inv_def sub_ok_def sub)
  have "length past \<le> length (uy_graph s)" using r by (auto simp: receiver_ok_def)
  then have "session_ok since past (session_open (uy_graph s) since) s'"
    using none replay_items [OF ord, of past since] by (simp add: session_ok_def session_open_def s' between_def)
  moreover have "receiver_ok hash key ch past s'" using r receiver_ok_cong [of s' s] by (simp add: s')
  ultimately have "sub_ok hash key since s'" by (auto simp: sub_ok_def s')
  then show ?thesis using inv by (auto simp: update_inv_def writers_ok_def s')
qed

lemma cursor_from_counter:
  "cursor_from_anchor (anchor_from_counter n) = Inr c \<Longrightarrow> fst c = n"
  "n < 2 ^ 64 \<Longrightarrow> cursor_from_anchor (anchor_from_counter n) = Ok (n, anchor_from_counter n)"
proof -
  have strip: "monotonic_counter (anchor_from_counter n) = parse_uint 64 (show_nat n)"
    by (simp add: monotonic_counter_def anchor_from_counter_def)
  have "m = n" if "parse_uint 64 (show_nat n) = Some m" for m
    using that parse_show_nat [of n] by (auto simp: parse_uint_def Let_def split: if_splits option.splits list.splits)
  then show "cursor_from_anchor (anchor_from_counter n) = Inr c \<Longrightarrow> fst c = n"
    by (auto simp: cursor_from_anchor_def parse_event_order_def strip ok_or_def split: option.splits)
  show "n < 2 ^ 64 \<Longrightarrow> cursor_from_anchor (anchor_from_counter n) = Ok (n, anchor_from_counter n)"
    using parse_uint_show_nat [of n 64] by (simp add: cursor_from_anchor_def parse_event_order_def strip ok_or_def)
qed

lemma counter_inv:
  "update_inv hash key since s \<Longrightarrow> uy_writers s = Map.empty
   \<Longrightarrow> update_inv hash key since (s\<lparr>uy_counter := uy_counter s + 1\<rparr>)"
  using sub_ok_cong [of "s\<lparr>uy_counter := uy_counter s + 1\<rparr>" s]
  by (auto simp: update_inv_def writers_ok_def unsent_def less_Suc_eq)

lemma begin_status_inv:
  assumes inv: "update_inv hash key since s" and idle: "uy_writers s = Map.empty"
  shows "update_inv hash key since (begin_status key' w kind ts s)"
proof (cases "status_allowed (latest_state (uy_graph s)) (as_wire_str kind)")
  case True
  show ?thesis
  proof (cases "cursor_from_anchor (anchor_from_counter (uy_counter s))")
    case (Inl e)
    then show ?thesis using counter_inv [OF assms] by (simp add: begin_status_def True Let_def)
  next
    case (Inr cursor)
    show ?thesis
      by (rule begin_inv [OF assms, where w = w], simp add: begin_status_def True Let_def Inr)
        (simp add: cursor_from_counter(1) [OF Inr])
  qed
next
  case False
  then show ?thesis using inv by (simp add: begin_status_def)
qed

lemma begin_artifact_inv:
  assumes inv: "update_inv hash key since s" and idle: "uy_writers s = Map.empty"
  shows "update_inv hash key since (begin_artifact w a s)"
proof (cases "cursor_from_anchor (anchor_from_counter (uy_counter s))")
  case (Inl e)
  then show ?thesis using counter_inv [OF assms] by (simp add: begin_artifact_def Let_def)
next
  case (Inr cursor)
  show ?thesis
    by (rule begin_inv [OF assms, where w = w], simp add: begin_artifact_def Let_def Inr)
      (simp add: cursor_from_counter(1) [OF Inr])
qed

lemma update_step_inv:
  assumes inv: "update_inv hash key since s" and serial: "writers_serial c s" and step: "update_step hash key since c s = Some s'"
  shows "update_inv hash key since s'"
proof (cases c)
  case (BeginStatus w kind ts)
  then show ?thesis
    using step serial begin_status_inv [OF inv] by (auto simp: update_step_def writers_serial_def split: if_splits)
next
  case (BeginArtifact w a)
  then show ?thesis
    using step serial begin_artifact_inv [OF inv] by (auto simp: update_step_def writers_serial_def split: if_splits)
next
  case (CommitWrite w)
  then show ?thesis
    using step commit_inv [OF inv] by (auto simp: update_step_def split: option.splits update_writer.splits)
next
  case (PublishWrite w)
  then show ?thesis
    using step publish_inv [OF inv] by (auto simp: update_step_def split: option.splits update_writer.splits)
next
  case (RetireWrite w)
  then show ?thesis
    using step retire_inv [OF inv] by (auto simp: update_step_def split: option.splits update_writer.splits)
next
  case SubscribeOp
  then show ?thesis
    using step subscribe_inv [OF inv] by (auto simp: update_step_def split: subscriber.splits prod.splits)
next
  case OpenReplay
  then show ?thesis using step open_inv [OF inv] by (auto simp: update_step_def split: subscriber.splits)
next
  case (Poll lag)
  then show ?thesis using step poll_inv [OF inv] by (simp add: update_step_def)
qed

lemma update_reach_inv: "update_reach hash key since counter s \<Longrightarrow> update_inv hash key since s"
proof (induction rule: update_reach.induct)
  case update_new
  show ?case
    by (simp add: update_inv_def update_system_new_def writers_ok_def sub_ok_def in_order_def broadcaster_ok)
next
  case (update_next s c s')
  then show ?case by (auto intro: update_step_inv)
qed


lemma serial_run_reach:
  "update_reach hash key since counter s \<Longrightarrow> serial_run hash key since cs s = Some s' \<Longrightarrow> update_reach hash key since counter s'"
proof (induction cs arbitrary: s)
  case (Cons c cs)
  then show ?case by (auto split: if_splits bind_splits intro: update_next)
qed simp

lemma first_channel:
  obtains bc where "ensure_sender hash key (broadcaster_with_capacity n) = (0, bc)" "ensure_sender hash key bc = (0, bc)"
    "shard_for hash key bc key = Some 0"
proof -
  let ?new = "broadcaster_with_capacity n"
  let ?bc = "snd (ensure_sender hash key ?new)"
  have none: "shard_for hash key ?new key = None"
    using shard_index_less [of hash key] by (simp add: shard_for_def broadcaster_with_capacity_def SHARD_COUNT_def)
  then have zero: "fst (ensure_sender hash key ?new) = 0" by (simp add: ensure_sender_def broadcaster_with_capacity_def)
  have some: "shard_for hash key ?bc key = Some 0"
    using none shard_index_less [of hash key]
    by (simp add: ensure_sender_def) (simp add: shard_for_def broadcaster_with_capacity_def SHARD_COUNT_def)
  then have "ensure_sender hash key ?bc = (0, ?bc)" by (simp add: ensure_sender_def)
  then show thesis using that [of ?bc] zero some by (simp add: prod_eq_iff)
qed

lemma empty_reset [simp]: "Map.empty(w := None) = Map.empty"
  by (rule ext) simp

lemmas run_simps = update_step_def begin_status_def begin_artifact_def publish_def session_poll_def receive_def next_turn_def
  writers_serial_def terminal_frame_def session_open_def graph_replay_since_def update_system_new_def Let_def cursor_from_counter(2)

text \<open>The hypotheses at work: an artifact that is replayed and sent, and one that is only sent.\<close>

definition demo_hash :: "task_stream_key \<Rightarrow> 64 word" where
  "demo_hash k = 37"

definition demo_task :: task_stream_key where
  "demo_task = \<lparr>tk_ctx = ''ctx-1'', tk_task = ''t1''\<rparr>"

definition demo_artifact :: "string \<Rightarrow> artifact_ref" where
  "demo_artifact a = \<lparr>ar_task_id = ''t1'', ar_artifact_id = Some a, ar_artifact_type = None\<rparr>"

definition demo_update :: "nat \<Rightarrow> string \<Rightarrow> task_update_frame" where
  "demo_update n a = ArtifactGenerated (demo_artifact a) (n, anchor_from_counter n)"


subsection \<open>The life of a task\<close>

lemma lifecycle_append:
  "lifecycle (G @ [f]) = lifecycle G @ (case frame_status f of Some st \<Rightarrow> [as_wire_str (tsp_new_status st)] | None \<Rightarrow> [])"
  by (simp add: lifecycle_def map_filter_def split: option.splits)

lemma latest_wire:
  "map_option (\<lambda>st. as_wire_str (tsp_new_status st)) (latest_state G) = (if lifecycle G = [] then None else Some (last (lifecycle G)))"
  by (auto simp: latest_state_def lifecycle_def last_map split: list.splits)

definition life_ok :: "string list \<Rightarrow> bool" where
  "life_ok sts \<longleftrightarrow> (sts \<noteq> [] \<longrightarrow> hd sts = ''TASK_STATE_SUBMITTED'')
     \<and> successively (\<lambda>p q. \<not> is_terminal_state p \<and> is_allowed_transition p q) sts"

lemma life_ok_append:
  assumes ok: "life_ok (lifecycle G)" and st: "status_allowed (latest_state G) q"
  shows "life_ok (lifecycle G @ [q])"
proof (cases "lifecycle G = []")
  case True
  then show ?thesis using st latest_wire [of G] by (simp add: status_allowed_def life_ok_def)
next
  case False
  then have "\<not> is_terminal_state (last (lifecycle G))" "is_allowed_transition (last (lifecycle G)) q"
    using st latest_wire [of G] by (auto simp: status_allowed_def split: if_splits)
  then show ?thesis using ok False by (simp add: life_ok_def successively_append_iff)
qed

definition gate_ok :: "update_system \<Rightarrow> bool" where
  "gate_ok s \<longleftrightarrow> life_ok (lifecycle (uy_graph s))
     \<and> (\<forall>w f st. uy_writers s w = Some (Minted f) \<longrightarrow> frame_status f = Some st
          \<longrightarrow> status_allowed (latest_state (uy_graph s)) (as_wire_str (tsp_new_status st)))"

lemma gate_ok_same:
  assumes "gate_ok s" "uy_graph s' = uy_graph s" "\<And>w f. uy_writers s' w = Some (Minted f) \<Longrightarrow> uy_writers s w = Some (Minted f)"
  shows "gate_ok s'"
  using assms(1,3) unfolding gate_ok_def assms(2) by blast

lemma gate_ok_commit:
  assumes ok: "gate_ok s" and w: "uy_writers s = [w \<mapsto> Minted f]"
    and s': "uy_graph s' = uy_graph s @ [f]" "uy_writers s' = [w \<mapsto> Committed f]"
  shows "gate_ok s'"
proof -
  have life: "life_ok (lifecycle (uy_graph s))" using ok by (simp add: gate_ok_def)
  have "status_allowed (latest_state (uy_graph s)) (as_wire_str (tsp_new_status st))" if "frame_status f = Some st" for st
    using ok w that unfolding gate_ok_def by (metis fun_upd_same)
  then have "life_ok (lifecycle (uy_graph s'))"
    using life life_ok_append [OF life] by (cases "frame_status f") (simp_all add: s' lifecycle_append)
  then show ?thesis by (simp add: gate_ok_def s')
qed

lemma gate_ok_minted:
  assumes ok: "gate_ok s" and idle: "uy_writers s = Map.empty"
    and f: "\<And>st. frame_status f = Some st \<Longrightarrow> status_allowed (latest_state (uy_graph s)) (as_wire_str (tsp_new_status st))"
    and s': "uy_graph s' = uy_graph s" "uy_writers s' = [w \<mapsto> Minted f]"
  shows "gate_ok s'"
  using ok f unfolding gate_ok_def s' by (simp add: map_upd_Some_unfold)

lemma gate_ok_begin:
  assumes ok: "gate_ok s" and idle: "uy_writers s = Map.empty"
  shows "gate_ok (begin_status key w kind ts s)" "gate_ok (begin_artifact w a s)"
proof -
  show "gate_ok (begin_artifact w a s)"
  proof (cases "cursor_from_anchor (anchor_from_counter (uy_counter s))")
    case (Inl e)
    then show ?thesis by (intro gate_ok_same [OF ok]) (simp_all add: begin_artifact_def Let_def)
  next
    case (Inr cursor)
    show ?thesis
      by (rule gate_ok_minted [OF ok idle, where w = w and f = "ArtifactGenerated a cursor"])
        (simp_all add: begin_artifact_def Let_def Inr idle)
  qed
  show "gate_ok (begin_status key w kind ts s)"
  proof (cases "status_allowed (latest_state (uy_graph s)) (as_wire_str kind)")
    case True
    show ?thesis
    proof (cases "cursor_from_anchor (anchor_from_counter (uy_counter s))")
      case (Inl e)
      then show ?thesis by (intro gate_ok_same [OF ok]) (simp_all add: begin_status_def Let_def True)
    next
      case (Inr cursor)
      let ?f = "StatusTransition \<lparr>tsp_task = task_node_for_task_id (tk_task key), tsp_new_status = kind,
        tsp_old_status = map_option tsp_new_status (latest_state (uy_graph s)), tsp_transitioned_at_ms = ts,
        tsp_activity_anchor = snd cursor\<rparr> cursor"
      show ?thesis
        by (rule gate_ok_minted [OF ok idle, where w = w and f = ?f])
          (auto simp: begin_status_def Let_def Inr idle True)
    qed
  qed (simp add: begin_status_def ok)
qed

lemma poll_keeps:
  assumes "session_poll hash key lag s = Some s'"
  shows "uy_graph s' = uy_graph s" "uy_writers s' = uy_writers s"
  using assms unfolding session_poll_def by (auto split: subscriber.splits option.splits prod.splits)

lemma gate_ok_step:
  assumes ok: "gate_ok s" and inv: "writers_ok s" and serial: "writers_serial c s" and step: "update_step hash key since c s = Some s'"
  shows "gate_ok s'"
proof (cases c)
  case (BeginStatus w kind ts)
  then show ?thesis
    using step serial gate_ok_begin(1) [OF ok] by (auto simp: update_step_def writers_serial_def split: if_splits)
next
  case (BeginArtifact w a)
  then show ?thesis
    using step serial gate_ok_begin(2) [OF ok] by (auto simp: update_step_def writers_serial_def split: if_splits)
next
  case (CommitWrite w)
  then obtain f where f: "uy_writers s w = Some (Minted f)"
      "s' = s\<lparr>uy_graph := uy_graph s @ [f], uy_writers := (uy_writers s)(w \<mapsto> Committed f)\<rparr>"
    using step by (auto simp: update_step_def split: option.splits update_writer.splits)
  have one: "uy_writers s = [w \<mapsto> Minted f]" using inv f(1) by (auto simp: writers_ok_def split: if_splits)
  show ?thesis by (rule gate_ok_commit [OF ok one]) (simp_all add: f(2) one)
next
  case (PublishWrite w)
  then obtain f where "s' = publish hash key w f s"
    using step by (auto simp: update_step_def split: option.splits update_writer.splits)
  then show ?thesis
    by (intro gate_ok_same [OF ok]) (auto simp: publish_def split: prod.splits if_splits)
next
  case (RetireWrite w)
  then show ?thesis using step
    by (intro gate_ok_same [OF ok]) (auto simp: update_step_def split: option.splits update_writer.splits if_splits)
next
  case SubscribeOp
  then show ?thesis using step
    by (intro gate_ok_same [OF ok]) (auto simp: update_step_def split: subscriber.splits prod.splits)
next
  case OpenReplay
  then show ?thesis using step
    by (intro gate_ok_same [OF ok]) (auto simp: update_step_def split: subscriber.splits)
next
  case (Poll lag)
  then show ?thesis using step poll_keeps [of hash key lag s s'] by (intro gate_ok_same [OF ok]) (simp_all add: update_step_def)
qed

lemma update_reach_gate: "update_reach hash key since counter s \<Longrightarrow> gate_ok s"
proof (induction rule: update_reach.induct)
  case update_new
  show ?case by (simp add: gate_ok_def life_ok_def update_system_new_def lifecycle_def map_filter_def)
next
  case (update_next s c s')
  then show ?case using gate_ok_step update_reach_inv [OF update_next(1)] by (auto simp: update_inv_def)
qed



subsection \<open>The backlog of a subscriber\<close>

lemma drain_items_ok:
  "drain_items (map Inr fs @ items) c acc
     = drain_items items (if fs = [] then c else Some (frame_cursor (last fs))) (acc @ fs)"
  by (induction fs arbitrary: c acc) auto

text \<open>the backlog of a subscription is every replayed frame that has an event, and the session goes live after the last
  of them; but when the replay fails after some frames, none of their events is sent, and the cursor of the session
  has moved past them all the same.\<close>

theorem backlog_all_or_nothing:
  "let reached = (if fs = [] then c else Some (frame_cursor (last fs)))
   in subscribe_backlog uuid \<lparr>tu_state = Replaying (map Inr fs), tu_last_cursor = c\<rparr>
        = (List.map_filter (frame_to_task_update_event uuid) fs, \<lparr>tu_state = Live, tu_last_cursor = reached\<rparr>)
      \<and> subscribe_backlog uuid \<lparr>tu_state = Replaying (map Inr fs @ Inl e # rest), tu_last_cursor = c\<rparr>
        = ([], \<lparr>tu_state = Replaying rest, tu_last_cursor = reached\<rparr>)"
  using drain_items_ok [of fs "[]" c "[]"] drain_items_ok [of fs "Inl e # rest" c "[]"]
  by (simp add: Let_def subscribe_backlog_def drain_replay_into_events_def drain_replay_def)

subsection \<open>Writers that race\<close>

text \<open>C36: two recorders of one task that commit in the other order than they drew their anchors lose an update for
  a live subscriber: the frame that comes later with the smaller cursor is in the graph and was sent, but the
  session drops it.\<close>

theorem racing_update_lost:
  assumes "counter + 1 < 2 ^ 64"
  shows "\<exists>s sess. update_run hash key None
       [SubscribeOp, OpenReplay, Poll 0, BeginArtifact 0 a, BeginArtifact 1 b, CommitWrite 1, PublishWrite 1, Poll 0,
        CommitWrite 0, PublishWrite 0, Poll 0] (update_system_new counter) = Some s
     \<and> uy_sub s = Attached 0 sess \<and> tu_state sess = Live \<and> uy_unread s = [] \<and> uy_writers s = Map.empty
     \<and> shard_for hash key (uy_bc s) key = Some 0
     \<and> uy_graph s = [ArtifactGenerated b (counter + 1, anchor_from_counter (counter + 1)),
                     ArtifactGenerated a (counter, anchor_from_counter counter)]
     \<and> uy_got s = [ArtifactGenerated b (counter + 1, anchor_from_counter (counter + 1))]"
proof -
  obtain bc where bc: "ensure_sender hash key (broadcaster_with_capacity DEFAULT_CAPACITY) = (0, bc)"
      "ensure_sender hash key bc = (0, bc)" "shard_for hash key bc key = Some 0"
    by (rule first_channel)
  have cs: "cursor_from_anchor (anchor_from_counter counter) = Ok (counter, anchor_from_counter counter)"
      "cursor_from_anchor (anchor_from_counter (Suc counter)) = Ok (Suc counter, anchor_from_counter (Suc counter))"
    using assms cursor_from_counter(2) [of counter] cursor_from_counter(2) [of "Suc counter"] by simp_all
  show ?thesis by (simp add: run_simps bc cs seen_def)
qed

theorem racing_update_lost_witness:
  "\<exists>s. update_run demo_hash demo_task None
       [SubscribeOp, OpenReplay, Poll 0, BeginArtifact 0 (demo_artifact ''a''), BeginArtifact 1 (demo_artifact ''b''), CommitWrite 1,
        PublishWrite 1, Poll 0, CommitWrite 0, PublishWrite 0, Poll 0] (update_system_new 7) = Some s
     \<and> demo_update 7 ''a'' \<in> set (uy_graph s) \<and> uy_got s = [demo_update 8 ''b'']"
proof -
  have "7 + 1 < (2 :: nat) ^ 64" by simp
  from racing_update_lost [OF this, of demo_hash demo_task "demo_artifact ''a''" "demo_artifact ''b''"]
  obtain s where "update_run demo_hash demo_task None
       [SubscribeOp, OpenReplay, Poll 0, BeginArtifact 0 (demo_artifact ''a''), BeginArtifact 1 (demo_artifact ''b''), CommitWrite 1,
        PublishWrite 1, Poll 0, CommitWrite 0, PublishWrite 0, Poll 0] (update_system_new 7) = Some s"
      "uy_graph s = [demo_update 8 ''b'', demo_update 7 ''a'']" "uy_got s = [demo_update 8 ''b'']"
    by (auto simp: demo_update_def)
  then show ?thesis by (intro exI [of _ s]) simp
qed

text \<open>two status recorders that both pass the gate before either commits leave a terminal state: a completed task is working
  again, and its channel is retired by the first of them.\<close>

theorem racing_status_leaves_terminal:
  assumes "counter + 2 < 2 ^ 64"
  shows "\<exists>s. update_run hash key None
       [BeginStatus 0 Submitted t, CommitWrite 0, PublishWrite 0, BeginStatus 0 Completed t, BeginStatus 1 Working t,
        CommitWrite 0, PublishWrite 0, RetireWrite 0, CommitWrite 1, PublishWrite 1] (update_system_new counter) = Some s
     \<and> lifecycle (uy_graph s) = [''TASK_STATE_SUBMITTED'', ''TASK_STATE_COMPLETED'', ''TASK_STATE_WORKING'']"
proof -
  obtain bc where bc: "ensure_sender hash key (broadcaster_with_capacity DEFAULT_CAPACITY) = (0, bc)"
      "ensure_sender hash key bc = (0, bc)" "shard_for hash key bc key = Some 0"
    by (rule first_channel)
  obtain ch bc' where ret: "ensure_sender hash key (bc_retire hash key bc) = (ch, bc')" by fastforce
  have cs: "cursor_from_anchor (anchor_from_counter counter) = Ok (counter, anchor_from_counter counter)"
      "cursor_from_anchor (anchor_from_counter (Suc counter)) = Ok (Suc counter, anchor_from_counter (Suc counter))"
      "cursor_from_anchor (anchor_from_counter (Suc (Suc counter))) = Ok (Suc (Suc counter), anchor_from_counter (Suc (Suc counter)))"
    using assms cursor_from_counter(2) [of counter] cursor_from_counter(2) [of "Suc counter"]
      cursor_from_counter(2) [of "Suc (Suc counter)"] by simp_all
  show ?thesis
    by (simp add: run_simps bc ret cs status_allowed_def latest_state_def lifecycle_def map_filter_def as_wire_str_def
        is_terminal_state_def is_allowed_transition_def allowed_pairs_def)
qed

theorem racing_status_leaves_terminal_witness:
  "\<exists>s. update_run demo_hash demo_task None
       [BeginStatus 0 Submitted 5, CommitWrite 0, PublishWrite 0, BeginStatus 0 Completed 5, BeginStatus 1 Working 5,
        CommitWrite 0, PublishWrite 0, RetireWrite 0, CommitWrite 1, PublishWrite 1] (update_system_new 7) = Some s
     \<and> lifecycle (uy_graph s) = [''TASK_STATE_SUBMITTED'', ''TASK_STATE_COMPLETED'', ''TASK_STATE_WORKING'']"
proof -
  have "7 + 2 < (2 :: nat) ^ 64" by simp
  then show ?thesis by (rule racing_status_leaves_terminal)
qed

end
